(* ===== verification/Prelude.thy ===== *)
theory Prelude
  imports Main "HOL-Library.Word" "HOL-Library.Sublist" "HOL-Library.Signed_Division"
begin

text \<open>
  What every component shares: C integers as \<open>int\<close> with the wrap-around written out, C strings
  as lists of bytes read through a terminating NUL, the faults undefined behaviour is turned into,
  substring search (\<open>strstr\<close>) with its specification, and decimal printing (\<open>%d\<close>, \<open>%03d\<close>).
  A byte is Isabelle's 8-bit \<open>char\<close>, so that string literals of the source stay literals.
\<close>

named_theorems wrap_simps \<open>a machine integer in range is left unchanged by its wrap-around\<close>
named_theorems wf_intros \<open>every operation keeps the well-formedness of its component\<close>

section \<open>Machine integers\<close>

definition u8 :: "int \<Rightarrow> int" where
  "u8 x = x mod 2 ^ 8"

definition u16 :: "int \<Rightarrow> int" where
  "u16 x = x mod 2 ^ 16"

definition u32 :: "int \<Rightarrow> int" where
  "u32 x = x mod 2 ^ 32"

definition s32 :: "int \<Rightarrow> int" where
  "s32 x = (x + 2 ^ 31) mod 2 ^ 32 - 2 ^ 31"

definition INT_MAX :: int where
  "INT_MAX = 2147483647"

definition in_s32 :: "int \<Rightarrow> bool" where
  "in_s32 x \<longleftrightarrow> - (2 ^ 31) \<le> x \<and> x < 2 ^ 31"

lemma u8_id [wrap_simps]: "0 \<le> x \<Longrightarrow> x < 256 \<Longrightarrow> u8 x = x"
  by (simp add: u8_def)

lemma u16_id [wrap_simps]: "0 \<le> x \<Longrightarrow> x < 65536 \<Longrightarrow> u16 x = x"
  by (simp add: u16_def)

lemma u32_id [wrap_simps]: "0 \<le> x \<Longrightarrow> x < 4294967296 \<Longrightarrow> u32 x = x"
  by (simp add: u32_def)

lemma s32_id [wrap_simps]: "- 2147483648 \<le> x \<Longrightarrow> x < 2147483648 \<Longrightarrow> s32 x = x"
  by (simp add: s32_def)

lemma in_s32_s32 [simp]: "in_s32 (s32 x)"
proof -
  have "0 \<le> (x + 2147483648) mod 4294967296" and "(x + 2147483648) mod 4294967296 < (4294967296::int)"
    by simp_all
  then show ?thesis unfolding in_s32_def s32_def by simp
qed

lemma s32_u32 [simp]: "s32 (u32 x) = s32 x"
  by (simp add: s32_def u32_def mod_add_left_eq)

lemma u32_range [simp]: "0 \<le> u32 x" "u32 x < 4294967296"
  by (simp_all add: u32_def)

lemma u16_range [simp]: "0 \<le> u16 x" "u16 x < 65536"
  by (simp_all add: u16_def)

lemma u8_range [simp]: "0 \<le> u8 x" "u8 x < 256"
  by (simp_all add: u8_def)

section \<open>Undefined behaviour as a value\<close>

text \<open>A step the C standard leaves undefined, or an assertion that stops the firmware.\<close>

datatype fault =
    Division_By_Zero
  | Null_Dereference
  | Out_Of_Bounds
  | Uninitialised_Read
  | Assertion_Failed string

type_synonym 'a result = "fault + 'a"

section \<open>Bytes and C strings\<close>

type_synonym byte = char

abbreviation NUL :: byte where
  "NUL \<equiv> CHR 0x00"

abbreviation CRLF :: "byte list" where
  "CRLF \<equiv> [CHR 0x0D, CHR 0x0A]"

text \<open>The value of a byte as \<open>unsigned char\<close> and, on this target, as plain (signed) \<open>char\<close>.\<close>

definition uchar :: "byte \<Rightarrow> int" where
  "uchar c = of_char c"

definition schar :: "byte \<Rightarrow> int" where
  "schar c = (if uchar c < 128 then uchar c else uchar c - 256)"

definition byte_of :: "int \<Rightarrow> byte" where
  "byte_of x = char_of (u8 x)"

text \<open>
  A C string is the list of the bytes before its NUL: \<open>byte_at s i\<close> reads \<open>s[i]\<close>, the NUL included.
  \<open>cstr\<close> is the C string held in an array.
\<close>

definition byte_at :: "byte list \<Rightarrow> nat \<Rightarrow> byte" where
  "byte_at s i = (if i < length s then s ! i else NUL)"

definition cstr :: "byte list \<Rightarrow> byte list" where
  "cstr bs = takeWhile (\<lambda>c. c \<noteq> NUL) bs"

definition isdigit :: "byte \<Rightarrow> bool" where
  "isdigit c \<longleftrightarrow> 0x30 \<le> uchar c \<and> uchar c \<le> 0x39"

definition isprint :: "byte \<Rightarrow> bool" where
  "isprint c \<longleftrightarrow> 0x20 \<le> uchar c \<and> uchar c \<le> 0x7E"

definition isspace :: "byte \<Rightarrow> bool" where
  "isspace c \<longleftrightarrow> uchar c = 0x20 \<or> 0x09 \<le> uchar c \<and> uchar c \<le> 0x0D"

definition isupper :: "byte \<Rightarrow> bool" where
  "isupper c \<longleftrightarrow> 0x41 \<le> uchar c \<and> uchar c \<le> 0x5A"

definition isalpha :: "byte \<Rightarrow> bool" where
  "isalpha c \<longleftrightarrow> isupper c \<or> 0x61 \<le> uchar c \<and> uchar c \<le> 0x7A"

lemma uchar_range [simp]: "0 \<le> uchar c" "uchar c < 256"
proof -
  have "uchar c = int (of_char c)" by (simp add: uchar_def of_nat_of_char)
  then show "0 \<le> uchar c" "uchar c < 256" by (simp_all add: nat_of_char_less_256 del: of_nat_of_char)
qed

lemma uchar_inject [simp]: "uchar c = uchar d \<longleftrightarrow> c = d"
  by (simp add: uchar_def)

lemma uchar_byte_of [simp]: "uchar (byte_of x) = u8 x"
  by (simp add: uchar_def byte_of_def u8_def)

lemma byte_of_uchar [simp]: "byte_of (uchar c) = c"
  by (metis uchar_byte_of uchar_inject uchar_range u8_id)

lemma at_less [simp]: "i < length s \<Longrightarrow> byte_at s i = s ! i"
  by (simp add: byte_at_def)

lemma at_ge [simp]: "length s \<le> i \<Longrightarrow> byte_at s i = NUL"
  by (simp add: byte_at_def)

lemma at_drop: "n \<le> length s \<Longrightarrow> byte_at (drop n s) i = byte_at s (n + i)"
  by (auto simp: byte_at_def)

lemma at_0_Cons [simp]: "byte_at (c # cs) 0 = c"
  by (simp add: byte_at_def)

lemma isdigit_NUL [simp]: "\<not> isdigit NUL"
  by (simp add: isdigit_def uchar_def)

lemma isprint_NUL [simp]: "\<not> isprint NUL"
  by (simp add: isprint_def uchar_def)

section \<open>Substring search\<close>

text \<open>\<open>find_sub pat s\<close> is the offset \<open>strstr\<close> finds, counted from the start of \<open>s\<close>.\<close>

fun find_sub :: "'a list \<Rightarrow> 'a list \<Rightarrow> nat option" where
  "find_sub pat [] = (if pat = [] then Some 0 else None)"
| "find_sub pat (x # xs) =
     (if prefix pat (x # xs) then Some 0 else map_option Suc (find_sub pat xs))"

definition occurs_at :: "'a list \<Rightarrow> 'a list \<Rightarrow> nat \<Rightarrow> bool" where
  "occurs_at pat s i \<longleftrightarrow> prefix pat (drop i s)"

lemma find_sub_Some:
  "find_sub pat s = Some i \<longleftrightarrow> occurs_at pat s i \<and> i \<le> length s \<and> (\<forall>j<i. \<not> occurs_at pat s j)"
proof (induction s arbitrary: i)
  case Nil
  then show ?case by (auto simp: occurs_at_def)
next
  case (Cons x xs)
  show ?case
  proof (cases i)
    case 0
    then show ?thesis by (auto simp: occurs_at_def)
  next
    case (Suc k)
    have "find_sub pat (x # xs) = Some i \<longleftrightarrow> \<not> prefix pat (x # xs) \<and> find_sub pat xs = Some k"
      using Suc by auto
    also have "\<dots> \<longleftrightarrow> \<not> occurs_at pat (x # xs) 0 \<and> occurs_at pat (x # xs) i \<and> i \<le> length (x # xs)
        \<and> (\<forall>j<k. \<not> occurs_at pat (x # xs) (Suc j))"
      using Suc by (auto simp: Cons.IH occurs_at_def)
    also have "\<dots> \<longleftrightarrow> occurs_at pat (x # xs) i \<and> i \<le> length (x # xs)
        \<and> (\<forall>j<i. \<not> occurs_at pat (x # xs) j)"
      using Suc by (auto simp: less_Suc_eq_0_disj)
    finally show ?thesis .
  qed
qed

lemma find_sub_None: "find_sub pat s = None \<longleftrightarrow> (\<forall>i\<le>length s. \<not> occurs_at pat s i)"
proof (induction s)
  case Nil
  then show ?case by (simp add: occurs_at_def)
next
  case (Cons x xs)
  have "(\<forall>i\<le>length (x # xs). \<not> occurs_at pat (x # xs) i) \<longleftrightarrow>
      \<not> prefix pat (x # xs) \<and> (\<forall>i\<le>length xs. \<not> occurs_at pat xs i)"
    by (auto simp: occurs_at_def nat.split_sels All_less_Suc2 simp flip: less_Suc_eq_le)
  with Cons.IH show ?case by simp
qed

lemma find_sub_prefix [simp]: "prefix pat s \<Longrightarrow> find_sub pat s = Some 0"
  by (cases s) auto

lemma find_sub_short: "length s < length pat \<Longrightarrow> find_sub pat s = None"
  by (auto simp: find_sub_None occurs_at_def dest!: prefix_length_le)

lemma find_sub_bound: "find_sub pat s = Some i \<Longrightarrow> i + length pat \<le> length s"
  by (auto simp: find_sub_Some occurs_at_def dest!: prefix_length_le)

lemma find_sub_split:
  "find_sub pat s = Some i \<Longrightarrow> s = take i s @ pat @ drop (i + length pat) s"
  by (metis append_take_drop_id drop_drop find_sub_Some occurs_at_def prefix_def append_eq_conv_conj
      add.commute)

lemma map_option_add_0: "map_option ((+) (0::nat)) r = r"
  by (cases r) simp_all

text \<open>The offset found does not change when text without the pattern's first byte is prepended.\<close>

lemma find_sub_skip:
  assumes "pat \<noteq> []" and "hd pat \<notin> set pre"
  shows "find_sub pat (pre @ s) = map_option ((+) (length pre)) (find_sub pat s)"
  using assms(2)
proof (induction pre)
  case Nil
  then show ?case by (simp add: option.map_ident_strong)
next
  case (Cons x xs)
  from assms(1) Cons.prems have "\<not> prefix pat (x # xs @ s)"
    by (cases pat) auto
  with Cons show ?case by (simp add: option.map_comp comp_def)
qed

lemma upt_0_Suc: "[0..<Suc n] = 0 # map Suc [0..<n]"
  by (simp add: map_Suc_upt upt_conv_Cons del: upt_Suc)

lemma mod_Suc_left: "(Suc (i mod M) + j) mod M = Suc (i + j) mod (M::nat)"
  by (metis add_Suc mod_Suc_eq mod_add_left_eq)

section \<open>Decimal printing\<close>

definition digit_char :: "nat \<Rightarrow> byte" where
  "digit_char d = char_of (48 + d)"

fun fmt_u :: "nat \<Rightarrow> byte list" where
  "fmt_u n = (if n < 10 then [digit_char n] else fmt_u (n div 10) @ [digit_char (n mod 10)])"

declare fmt_u.simps [simp del]

text \<open>\<open>%d\<close>, and \<open>%0Nd\<close> for the non-negative arguments the code prints with it.\<close>

definition fmt_d :: "int \<Rightarrow> byte list" where
  "fmt_d x = (if x < 0 then CHR ''-'' # fmt_u (nat (- x)) else fmt_u (nat x))"

definition fmt_0d :: "nat \<Rightarrow> nat \<Rightarrow> byte list" where
  "fmt_0d w n = replicate (w - length (fmt_u n)) CHR ''0'' @ fmt_u n"

text \<open>\<open>snprintf(buf, n, ...)\<close> keeps at most \<open>n - 1\<close> bytes of what it prints.\<close>

definition snprintf :: "nat \<Rightarrow> byte list \<Rightarrow> byte list" where
  "snprintf n out = take (n - 1) out"

lemma uchar_digit_char: "d < 10 \<Longrightarrow> uchar (digit_char d) = 48 + int d"
proof -
  assume "d < 10"
  then have "of_char (digit_char d) = (48 + d) mod (256 :: nat)"
    by (simp add: digit_char_def)
  with \<open>d < 10\<close> have "(of_char (digit_char d) :: nat) = 48 + d" by simp
  then have "int (of_char (digit_char d)) = 48 + int d" by simp
  then show ?thesis by (simp add: uchar_def of_nat_of_char)
qed

lemma isdigit_digit_char [simp]: "d < 10 \<Longrightarrow> isdigit (digit_char d)"
  by (simp add: isdigit_def uchar_digit_char)

lemma fmt_u_digits: "c \<in> set (fmt_u n) \<Longrightarrow> isdigit c"
proof (induction n rule: fmt_u.induct)
  case (1 n)
  then show ?case by (subst (asm) (2) fmt_u.simps) (auto split: if_splits)
qed

lemma fmt_u_nonempty [simp]: "fmt_u n \<noteq> []"
  by (subst fmt_u.simps) simp

end
