(* ===== verification/Ring_Buffer.thy ===== *)
theory Ring_Buffer
  imports Prelude
begin

text \<open>
  The byte ring of \<^verbatim>\<open>firmware/libs/utils/src/buffer.c\<close>: \<open>front\<close> is the slot read last, \<open>rear\<close>
  the slot written last, and one slot stays free. The interface its clients rely on is the locale
  \<open>byte_fifo\<close>, interpreted on the code's own operations at the end of the theory.
\<close>

section \<open>State and operations\<close>

record Buffer_t =
  front :: nat    \<comment> \<open>\<open>uint16_t\<close>\<close>
  rear :: nat     \<comment> \<open>\<open>uint16_t\<close>\<close>
  buffer :: "byte list"
  maxSize :: nat  \<comment> \<open>\<open>uint32_t\<close>\<close>

definition Buffer_Init :: "nat \<Rightarrow> Buffer_t" where
  "Buffer_Init n =
     \<lparr>front = 0, rear = 0, buffer = (replicate n NUL)[0 := CHR '' ''], maxSize = n\<rparr>"

text \<open>
  The sums below mix an \<open>int\<close> difference with the \<open>uint32_t\<close> field \<open>maxSize\<close>, so C evaluates
  them modulo \<open>2 ^ 32\<close> before the remainder is taken.
\<close>

definition Buffer_Size2 :: "Buffer_t \<Rightarrow> nat \<Rightarrow> nat" where
  "Buffer_Size2 b index = nat (u32 (int index - int (front b) + int (maxSize b))) mod maxSize b"

definition Buffer_Size :: "Buffer_t \<Rightarrow> nat" where
  "Buffer_Size b = nat (u32 (int (rear b) - int (front b) + int (maxSize b))) mod maxSize b"

definition Buffer_StartPostion :: "Buffer_t \<Rightarrow> nat" where
  "Buffer_StartPostion b = (front b + 1) mod maxSize b"

definition put_byte :: "Buffer_t \<Rightarrow> byte \<Rightarrow> Buffer_t" where
  "put_byte b x =
     (let r = ((rear b + 1) mod maxSize b) mod 2 ^ 16
      in b\<lparr>rear := r, buffer := (buffer b)[r := x]\<rparr>)"

fun puts_loop :: "Buffer_t \<Rightarrow> byte list \<Rightarrow> Buffer_t" where
  "puts_loop b [] = b"
| "puts_loop b (x # xs) = puts_loop (put_byte b x) xs"

text \<open>
  \<open>len\<close> is the \<open>uint16_t\<close> length argument; the caller hands in at least that many bytes.
\<close>

definition Buffer_Puts :: "Buffer_t \<Rightarrow> byte list \<Rightarrow> nat \<Rightarrow> bool \<times> Buffer_t" where
  "Buffer_Puts b data len =
     (if maxSize b - Buffer_Size b \<le> len then (False, b)
      else (True, puts_loop b (take len data)))"

definition next_front :: "Buffer_t \<Rightarrow> nat" where
  "next_front b = ((front b + 1) mod maxSize b) mod 2 ^ 16"

fun gets_loop :: "Buffer_t \<Rightarrow> nat \<Rightarrow> byte list \<times> Buffer_t" where
  "gets_loop b 0 = ([], b)"
| "gets_loop b (Suc n) =
     (let f = next_front b; (xs, b') = gets_loop (b\<lparr>front := f\<rparr>) n
      in (buffer b ! f # xs, b'))"

text \<open>\<open>None\<close> is the return value \<open>false\<close>: nothing is copied out.\<close>

definition Buffer_Gets :: "Buffer_t \<Rightarrow> nat \<Rightarrow> byte list option \<times> Buffer_t" where
  "Buffer_Gets b len =
     (if Buffer_Size b < len then (None, b)
      else (let (xs, b') = gets_loop b len in (Some xs, b')))"

definition Buffer_Clear :: "Buffer_t \<Rightarrow> Buffer_t" where
  "Buffer_Clear b = b\<lparr>front := 0, rear := 0\<rparr>"

text \<open>
  The matcher of \<open>Buffer_Query\<close>: \<open>n\<close> slots left to look at, the slot \<open>index\<close>, the number
  \<open>k\<close> of pattern bytes matched so far and \<open>ret\<close>, the slot where that partial match began. On a
  mismatch it restarts the pattern at the mismatching byte and nowhere earlier.
\<close>

fun query_loop :: "byte list \<Rightarrow> nat \<Rightarrow> byte list \<Rightarrow> nat \<Rightarrow> nat \<Rightarrow> nat \<Rightarrow> nat \<Rightarrow> int \<Rightarrow> int" where
  "query_loop buf M data len 0 index k ret = - 1"
| "query_loop buf M data len (Suc n) index k ret =
     (if buf ! index = data ! k then
        (let ret' = (if k = 0 then int index else ret)
         in if Suc k = len then ret'
            else query_loop buf M data len n ((index + 1) mod M) (Suc k) ret')
      else if buf ! index = data ! 0 then
        (if 1 = len then int index
         else query_loop buf M data len n ((index + 1) mod M) 1 (int index))
      else query_loop buf M data len n ((index + 1) mod M) 0 (- 1))"

definition Buffer_Query :: "Buffer_t \<Rightarrow> byte list \<Rightarrow> nat \<Rightarrow> nat \<Rightarrow> int" where
  "Buffer_Query b data len start =
     query_loop (buffer b) (maxSize b) data len
       (nat (u32 (int (rear b) - int start + 1 + int (maxSize b))) mod maxSize b) start 0 (- 1)"

section \<open>Well-formedness and contents\<close>

definition wf_buf :: "Buffer_t \<Rightarrow> bool" where
  "wf_buf b \<longleftrightarrow> 0 < maxSize b \<and> maxSize b \<le> 65536 \<and> length (buffer b) = maxSize b
     \<and> front b < maxSize b \<and> rear b < maxSize b"

definition slot :: "Buffer_t \<Rightarrow> nat \<Rightarrow> nat" where
  "slot b k = (front b + 1 + k) mod maxSize b"

definition fill :: "Buffer_t \<Rightarrow> nat" where
  "fill b = (if front b \<le> rear b then rear b - front b else maxSize b - front b + rear b)"

text \<open>The queued bytes, oldest first.\<close>

definition contents :: "Buffer_t \<Rightarrow> byte list" where
  "contents b = map (\<lambda>k. buffer b ! slot b k) [0..<fill b]"

lemma length_contents [simp]: "length (contents b) = fill b"
  by (simp add: contents_def)

lemma fill_less: "wf_buf b \<Longrightarrow> fill b < maxSize b"
  by (auto simp: wf_buf_def fill_def)

lemma wrap_diff:
  assumes "a < M" "f < M" "M \<le> 65536"
  shows "nat (u32 (int a - int f + int M)) mod M = (if f \<le> a then a - f else M - f + a)"
proof -
  have "u32 (int a - int f + int M) = int (a + M - f)"
    using assms by (simp add: wrap_simps)
  moreover have "(a + M - f) mod M = (if f \<le> a then a - f else M - f + a)"
  proof (cases "f \<le> a")
    case True
    then have "a + M - f = (a - f) + M" by simp
    then have "(a + M - f) mod M = (a - f) mod M" by (simp only: mod_add_self2)
    with True assms show ?thesis by simp
  qed (use assms in simp)
  ultimately show ?thesis by simp
qed

lemma Buffer_Size_fill [simp]: "wf_buf b \<Longrightarrow> Buffer_Size b = fill b"
  by (simp add: Buffer_Size_def fill_def wf_buf_def wrap_diff)

lemma slot_less: "wf_buf b \<Longrightarrow> slot b k < maxSize b"
  by (simp add: slot_def wf_buf_def)

lemma start_slot: "Buffer_StartPostion b = slot b 0"
  by (simp add: Buffer_StartPostion_def slot_def)

lemma slot_mod: "(slot b k + n) mod maxSize b = slot b (k + n)"
  by (simp add: slot_def mod_add_left_eq add.assoc)

lemma slot_front: "(slot b k + j) mod maxSize b = slot b (k + j)"
  by (rule slot_mod)

lemma rear_slot: "wf_buf b \<Longrightarrow> 0 < fill b \<Longrightarrow> rear b = slot b (fill b - 1)"
  by (auto simp: wf_buf_def fill_def slot_def le_mod_geq split: if_splits)

lemma next_rear_slot: "wf_buf b \<Longrightarrow> (rear b + 1) mod maxSize b = slot b (fill b)"
  by (auto simp: wf_buf_def fill_def slot_def le_mod_geq split: if_splits)


lemma slot_if:
  assumes "wf_buf b" "k < maxSize b"
  shows "slot b k = (if front b + 1 + k < maxSize b then front b + 1 + k else front b + 1 + k - maxSize b)"
  using assms by (auto simp: slot_def wf_buf_def le_mod_geq not_less)

lemma slot_inject:
  assumes "wf_buf b" "j < maxSize b" "k < maxSize b" "slot b j = slot b k"
  shows "j = k"
  using assms(4) slot_if [OF assms(1,2)] slot_if [OF assms(1,3)] assms(2,3)
  by (simp split: if_splits)

lemma fill_put:
  assumes "wf_buf b" "fill b + 1 < maxSize b"
  shows "fill (put_byte b x) = fill b + 1"
  using assms by (auto simp: put_byte_def fill_def wf_buf_def Let_def mod_Suc split: if_splits)

lemma wf_put_byte [wf_intros]: "wf_buf b \<Longrightarrow> wf_buf (put_byte b x)"
  by (auto simp: wf_buf_def put_byte_def Let_def intro: le_less_trans [OF mod_less_eq_dividend])

lemma maxSize_put [simp]: "maxSize (put_byte b x) = maxSize b"
  by (simp add: put_byte_def Let_def)

lemma front_put [simp]: "front (put_byte b x) = front b"
  by (simp add: put_byte_def Let_def)

lemma buffer_put:
  assumes "wf_buf b"
  shows "buffer (put_byte b x) = (buffer b)[slot b (fill b) := x]"
proof -
  have "slot b (fill b) < 65536"
    using slot_less [OF assms, of "fill b"] assms by (simp add: wf_buf_def)
  then have "(rear b + 1) mod maxSize b mod 65536 = slot b (fill b)"
    using next_rear_slot [OF assms] by simp
  then show ?thesis by (simp add: put_byte_def Let_def)
qed

lemma contents_put:
  assumes "wf_buf b" "fill b + 1 < maxSize b"
  shows "contents (put_byte b x) = contents b @ [x]"
proof -
  have len: "length (buffer b) = maxSize b" using assms(1) by (simp add: wf_buf_def)
  have slot': "slot (put_byte b x) k = slot b k" for k by (simp add: slot_def)
  have neq: "k < fill b \<Longrightarrow> slot b k \<noteq> slot b (fill b)" for k
    using slot_inject [OF assms(1), of k "fill b"] assms(2) by auto
  have "map (\<lambda>k. (buffer b)[slot b (fill b) := x] ! slot b k) [0..<fill b] = contents b"
    unfolding contents_def by (rule map_cong) (auto dest: neq)
  then show ?thesis
    using assms len slot_less [OF assms(1), of "fill b"]
    by (simp add: contents_def [of "put_byte b x"] fill_put buffer_put slot')
qed

lemma puts_loop_spec:
  assumes "wf_buf b" "fill b + length xs < maxSize b"
  shows "wf_buf (puts_loop b xs) \<and> maxSize (puts_loop b xs) = maxSize b
    \<and> contents (puts_loop b xs) = contents b @ xs"
  using assms
proof (induction xs arbitrary: b)
  case Nil
  then show ?case by simp
next
  case (Cons x xs)
  then show ?case
    using Cons.IH [of "put_byte b x"] by (simp add: wf_put_byte fill_put contents_put)
qed

section \<open>Reading\<close>

lemma next_front_slot: "wf_buf b \<Longrightarrow> next_front b = slot b 0"
proof -
  assume "wf_buf b"
  then have "slot b 0 < 65536"
    using slot_less [of b 0] by (simp add: wf_buf_def)
  then show ?thesis by (simp add: next_front_def slot_def)
qed

lemma wf_advance [wf_intros]: "wf_buf b \<Longrightarrow> wf_buf (b\<lparr>front := next_front b\<rparr>)"
  using slot_less [of b 0] by (simp add: wf_buf_def next_front_slot)

lemma fill_advance: "wf_buf b \<Longrightarrow> 0 < fill b \<Longrightarrow> fill (b\<lparr>front := next_front b\<rparr>) = fill b - 1"
  by (simp add: next_front_slot) (auto simp: slot_if fill_def wf_buf_def split: if_splits)

lemma slot_advance:
  assumes "wf_buf b"
  shows "slot (b\<lparr>front := next_front b\<rparr>) k = slot b (Suc k)"
proof -
  have "slot (b\<lparr>front := next_front b\<rparr>) k = (slot b 0 + (1 + k)) mod maxSize b"
    using assms by (simp add: next_front_slot slot_def [of "b\<lparr>front := slot b 0\<rparr>"])
  then show ?thesis by (simp only: slot_mod) simp
qed

lemma contents_advance:
  assumes "wf_buf b" "0 < fill b"
  shows "contents b = buffer b ! next_front b # contents (b\<lparr>front := next_front b\<rparr>)"
proof -
  have "[0..<fill b] = 0 # map Suc [0..<fill b - 1]"
    using assms(2) upt_0_Suc [of "fill b - 1"] by simp
  then show ?thesis
    unfolding contents_def fill_advance [OF assms] slot_advance [OF assms(1)]
    by (simp add: next_front_slot [OF assms(1)] comp_def)
qed

lemma gets_loop_spec:
  assumes "wf_buf b" "n \<le> fill b" "gets_loop b n = (xs, b')"
  shows "wf_buf b' \<and> maxSize b' = maxSize b \<and> xs = take n (contents b) \<and> contents b' = drop n (contents b)"
  using assms
proof (induction n arbitrary: b xs b')
  case 0
  then show ?case by simp
next
  case (Suc n)
  let ?a = "b\<lparr>front := next_front b\<rparr>"
  obtain ys c where rec: "gets_loop ?a n = (ys, c)" by fastforce
  have "wf_buf ?a" and "n \<le> fill ?a"
    using Suc.prems by (simp_all add: wf_advance fill_advance)
  from Suc.IH [OF this rec] Suc.prems rec show ?case
    by (auto simp: contents_advance [OF Suc.prems(1)] Let_def)
qed

section \<open>The matcher\<close>

text \<open>
  A pattern whose first byte does not occur again in it cannot overlap itself, so restarting at the
  mismatching byte loses no occurrence. Every pattern the firmware searches for is of this kind.
\<close>

definition unbordered :: "byte list \<Rightarrow> bool" where
  "unbordered pat \<longleftrightarrow> pat \<noteq> [] \<and> hd pat \<notin> set (tl pat)"

lemma unbordered_hd: "unbordered pat \<Longrightarrow> 0 < k \<Longrightarrow> k < length pat \<Longrightarrow> pat ! k \<noteq> pat ! 0"
  by (cases pat; cases k) (auto simp: unbordered_def)

text \<open>A partial match of \<open>k\<close> bytes followed by a wrong byte: the search starts over after it.\<close>

lemma find_sub_mismatch:
  assumes "unbordered pat" "k < length pat" "x \<noteq> pat ! k"
  shows "find_sub pat (take k pat @ x # xs) = map_option ((+) k) (find_sub pat (x # xs))"
proof (cases k)
  case 0
  then show ?thesis by (simp add: map_option_add_0 del: find_sub.simps)
next
  case (Suc j)
  obtain p ps where pat: "pat = p # ps" using assms(1) by (cases pat) (auto simp: unbordered_def)
  have "\<not> prefix pat (take k pat @ x # xs)"
  proof
    assume "prefix pat (take k pat @ x # xs)"
    then have "take k pat @ x # xs = pat @ drop (length pat) (take k pat @ x # xs)"
      by (metis append_eq_conv_conj prefix_def)
    then have "(take k pat @ x # xs) ! k = pat ! k"
      using assms(2) by (metis nth_append)
    then show False using assms(2,3) by (simp add: nth_append)
  qed
  moreover have "find_sub pat (take j ps @ x # xs) = map_option ((+) (length (take j ps))) (find_sub pat (x # xs))"
    using assms(1) pat by (intro find_sub_skip) (auto simp: unbordered_def dest: in_set_takeD)
  moreover have "length (take j ps) = j" using assms(2) Suc pat by simp
  ultimately show ?thesis
    using Suc pat by (simp add: option.map_comp comp_def)
qed

definition window :: "byte list \<Rightarrow> nat \<Rightarrow> nat \<Rightarrow> nat \<Rightarrow> byte list" where
  "window buf M index n = map (\<lambda>j. buf ! ((index + j) mod M)) [0..<n]"

lemma window_Suc:
  "index < M \<Longrightarrow> window buf M index (Suc n) = buf ! index # window buf M ((index + 1) mod M) n"
proof -
  assume "index < M"
  then show ?thesis
    by (simp add: window_def upt_0_Suc comp_def mod_add_left_eq [of "Suc index", simplified] del: upt_Suc)
qed

definition ring_pos :: "nat \<Rightarrow> nat \<Rightarrow> nat option \<Rightarrow> int" where
  "ring_pos M s0 r = (case r of None \<Rightarrow> - 1 | Some i \<Rightarrow> int ((s0 + i) mod M))"

lemma ring_pos_shift:
  assumes "(s0 + k) mod M = index mod M"
  shows "ring_pos M s0 (map_option ((+) k) r) = ring_pos M index r"
proof (cases r)
  case None
  then show ?thesis by (simp add: ring_pos_def)
next
  case (Some i)
  have "(s0 + (k + i)) mod M = ((s0 + k) mod M + i) mod M"
    by (simp only: mod_add_left_eq add.assoc)
  also have "\<dots> = (index + i) mod M"
    by (simp only: assms mod_add_left_eq)
  finally show ?thesis using Some by (simp add: ring_pos_def)
qed

text \<open>The loop continues a match of \<open>k\<close> bytes that began at slot \<open>s0\<close>.\<close>

lemma query_loop_spec:
  assumes "unbordered pat" "k < length pat" "0 < M" "index < M" "s0 < M"
    and "(s0 + k) mod M = index" and "0 < k \<longrightarrow> ret = int s0"
  shows "query_loop buf M pat (length pat) n index k ret
    = ring_pos M s0 (find_sub pat (take k pat @ window buf M index n))"
  using assms(2-)
proof (induction n arbitrary: index k ret s0)
  case 0
  then show ?case by (simp add: window_def find_sub_short ring_pos_def)
next
  case (Suc n)
  let ?x = "buf ! index" and ?next = "(index + 1) mod M"
  let ?rest = "window buf M ?next n"
  have win: "window buf M index (Suc n) = ?x # ?rest"
    using Suc.prems by (simp only: window_Suc)
  have nextM: "?next < M" using Suc.prems by simp
  show ?case
  proof (cases "?x = pat ! k")
    case True
    then have grow: "take k pat @ ?x # ?rest = take (Suc k) pat @ ?rest"
      using Suc.prems(1) by (simp add: take_Suc_conv_app_nth)
    have ret': "(if k = 0 then int index else ret) = int s0"
      using Suc.prems by auto
    have pos: "(s0 + Suc k) mod M = ?next"
      using Suc.prems(5) by (metis add_Suc_right mod_Suc_eq Suc_eq_plus1)
    show ?thesis
    proof (cases "Suc k = length pat")
      case full: True
      then have "find_sub pat (take (Suc k) pat @ ?rest) = Some 0" by simp
      then have "ring_pos M s0 (find_sub pat (take (Suc k) pat @ ?rest)) = int s0"
        using Suc.prems(4) by (simp only: ring_pos_def) simp
      then show ?thesis
        unfolding win grow using True full ret' by (simp add: Let_def)
    next
      case False
      then show ?thesis
        unfolding win grow
        using True Suc.prems(1,2) Suc.IH [OF _ Suc.prems(2) nextM Suc.prems(4) pos, of "int s0"] ret'
        by (simp add: Let_def)
    qed
  next
    case False
    note skip = find_sub_mismatch [OF assms(1) Suc.prems(1) False, of ?rest]
    have shift: "ring_pos M s0 (find_sub pat (take k pat @ ?x # ?rest))
        = ring_pos M index (find_sub pat (?x # ?rest))"
      unfolding skip using Suc.prems(3,5) by (intro ring_pos_shift) simp
    show ?thesis
    proof (cases "?x = pat ! 0")
      case True
      then have one: "?x # ?rest = take 1 pat @ ?rest"
        using assms(1) by (cases pat) (auto simp: unbordered_def)
      have "k \<noteq> 0" using True False by (cases k) auto
      then show ?thesis
        unfolding win shift unfolding one
        using True False Suc.prems(1,3,4) Suc.IH [of 1 ?next index "int index"] nextM
        by simp
    next
      case no: False
      have "\<not> prefix pat (?x # ?rest)"
        using no assms(1) by (cases pat) (auto simp: unbordered_def)
      then have one: "find_sub pat (?x # ?rest) = map_option ((+) 1) (find_sub pat ?rest)"
        by (simp cong: option.map_cong)
      have "0 < length pat" using assms(1) by (simp add: unbordered_def)
      moreover have "ring_pos M index (map_option ((+) 1) (find_sub pat ?rest)) = ring_pos M ?next (find_sub pat ?rest)"
        using Suc.prems(3) by (intro ring_pos_shift) simp
      ultimately show ?thesis
        unfolding win shift unfolding one
        using no False nextM Suc.IH [of 0 ?next ?next "- 1"] by simp
    qed
  qed
qed


lemma window_contents:
  assumes "wf_buf b" "j \<le> fill b"
  shows "window (buffer b) (maxSize b) (slot b j) (fill b - j) = drop j (contents b)"
  by (rule nth_equalityI) (use assms in \<open>simp_all add: window_def contents_def slot_mod less_diff_conv add.commute [of _ j]\<close>)

lemma query_size:
  assumes "wf_buf b" "j \<le> fill b"
  shows "nat (u32 (int (rear b) - int (slot b j) + 1 + int (maxSize b))) mod maxSize b = fill b - j"
proof -
  have less: "slot b j < maxSize b" "fill b < maxSize b" using assms by (simp_all add: fill_less slot_less)
  have u32: "u32 (int (rear b) - int (slot b j) + 1 + int (maxSize b)) = int (rear b + 1 + maxSize b - slot b j)"
    using assms less by (simp add: wf_buf_def wrap_simps)
  have "(rear b + 1 + maxSize b - slot b j) mod maxSize b = fill b - j"
    using assms less unfolding slot_if [OF assms(1) le_less_trans [OF assms(2) less(2)]]
    by (auto simp: wf_buf_def fill_def le_mod_geq split: if_splits)
  with u32 show ?thesis by simp
qed

lemma Buffer_Query_find:
  assumes "wf_buf b" "unbordered pat" "j \<le> fill b"
  shows "Buffer_Query b pat (length pat) (slot b j)
    = ring_pos (maxSize b) (slot b j) (find_sub pat (drop j (contents b)))"
proof -
  have "0 < length pat" "0 < maxSize b"
    using assms by (simp_all add: unbordered_def wf_buf_def)
  then show ?thesis
    using query_loop_spec [OF assms(2), of 0 "maxSize b" "slot b j" "slot b j"] assms
      slot_less [OF assms(1), of j]
    by (simp add: Buffer_Query_def query_size window_contents)
qed

lemma Buffer_Size2_slot:
  assumes "wf_buf b" "k < fill b"
  shows "Buffer_Size2 b (slot b k) = k + 1"
proof -
  have "k < maxSize b" "fill b < maxSize b" using assms fill_less [of b] by simp_all
  then show ?thesis
    using assms slot_less [OF assms(1), of k] unfolding slot_if [OF assms(1) \<open>k < maxSize b\<close>]
    by (auto simp: Buffer_Size2_def wf_buf_def wrap_diff split: if_splits)
qed

section \<open>Contracts of the public operations\<close>

lemma Buffer_Puts_ok:
  assumes "wf_buf b" "len = length data" "fill b + len < maxSize b"
  shows "fst (Buffer_Puts b data len)" "wf_buf (snd (Buffer_Puts b data len))"
    "maxSize (snd (Buffer_Puts b data len)) = maxSize b"
    "contents (snd (Buffer_Puts b data len)) = contents b @ data"
  using assms puts_loop_spec [of b data] by (simp_all add: Buffer_Puts_def)

lemma Buffer_Puts_full:
  assumes "wf_buf b" "maxSize b \<le> fill b + len"
  shows "Buffer_Puts b data len = (False, b)"
  using assms by (simp add: Buffer_Puts_def)

lemma Buffer_Gets_ok:
  assumes "wf_buf b" "len \<le> fill b"
  shows "fst (Buffer_Gets b len) = Some (take len (contents b))" "wf_buf (snd (Buffer_Gets b len))"
    "maxSize (snd (Buffer_Gets b len)) = maxSize b"
    "contents (snd (Buffer_Gets b len)) = drop len (contents b)"
  using assms gets_loop_spec [of b len] by (auto simp: Buffer_Gets_def split: prod.splits)

lemma Buffer_Gets_short:
  assumes "wf_buf b" "fill b < len"
  shows "Buffer_Gets b len = (None, b)"
  using assms by (simp add: Buffer_Gets_def)

lemma Buffer_Clear_spec:
  assumes "wf_buf b"
  shows "wf_buf (Buffer_Clear b)" "contents (Buffer_Clear b) = []" "maxSize (Buffer_Clear b) = maxSize b"
  using assms by (simp_all add: Buffer_Clear_def wf_buf_def contents_def fill_def)

lemma Buffer_Init_spec:
  assumes "0 < n" "n \<le> 65536"
  shows "wf_buf (Buffer_Init n)" "contents (Buffer_Init n) = []" "maxSize (Buffer_Init n) = n"
  using assms by (simp_all add: Buffer_Init_def wf_buf_def contents_def fill_def)

declare wf_put_byte [wf_intros] Buffer_Puts_ok(2) [wf_intros] Buffer_Gets_ok(2) [wf_intros]
  Buffer_Clear_spec(1) [wf_intros] Buffer_Init_spec(1) [wf_intros]

section \<open>The interface: a bounded byte queue that can be searched\<close>

text \<open>
  What the GPS driver relies on. \<open>bytes q\<close> is the queue as a list; \<open>pos q k\<close> names the place of
  its \<open>k\<close>-th byte, the currency of \<open>find\<close> and \<open>upto\<close>.
\<close>

locale byte_fifo =
  fixes put :: "'q \<Rightarrow> byte list \<Rightarrow> bool \<times> 'q"
    and get :: "'q \<Rightarrow> nat \<Rightarrow> byte list option \<times> 'q"
    and clear :: "'q \<Rightarrow> 'q"
    and bytes :: "'q \<Rightarrow> byte list"
    and cap :: "'q \<Rightarrow> nat"
    and inv :: "'q \<Rightarrow> bool"
  assumes put_ok: "inv q \<Longrightarrow> length (bytes q) + length xs < cap q \<Longrightarrow>
      fst (put q xs) \<and> bytes (snd (put q xs)) = bytes q @ xs"
    and put_full: "inv q \<Longrightarrow> cap q \<le> length (bytes q) + length xs \<Longrightarrow> put q xs = (False, q)"
    and get_ok: "inv q \<Longrightarrow> n \<le> length (bytes q) \<Longrightarrow>
      fst (get q n) = Some (take n (bytes q)) \<and> bytes (snd (get q n)) = drop n (bytes q)"
    and get_short: "inv q \<Longrightarrow> length (bytes q) < n \<Longrightarrow> get q n = (None, q)"
    and bytes_clear: "inv q \<Longrightarrow> bytes (clear q) = []"
    and inv_put: "inv q \<Longrightarrow> inv (snd (put q xs))"
    and inv_get: "inv q \<Longrightarrow> inv (snd (get q n))"
    and inv_clear: "inv q \<Longrightarrow> inv (clear q)"
    and cap_put: "inv q \<Longrightarrow> cap (snd (put q xs)) = cap q"
    and cap_get: "inv q \<Longrightarrow> cap (snd (get q n)) = cap q"
    and cap_clear: "inv q \<Longrightarrow> cap (clear q) = cap q"

text \<open>Feeding a sequence of chunks, as the UART delivers them.\<close>

fun feed :: "('q \<Rightarrow> byte list \<Rightarrow> bool \<times> 'q) \<Rightarrow> 'q \<Rightarrow> byte list list \<Rightarrow> 'q" where
  "feed put q [] = q"
| "feed put q (xs # xss) = feed put (snd (put q xs)) xss"

context byte_fifo
begin

lemma bytes_put:
  "inv q \<Longrightarrow> bytes (snd (put q xs)) =
     (if length (bytes q) + length xs < cap q then bytes q @ xs else bytes q)"
  using put_ok [of q xs] put_full [of q xs] by (cases "length (bytes q) + length xs < cap q") simp_all

lemma feed_ok:
  assumes "inv q" "length (bytes q) + length (concat xss) < cap q"
  shows "inv (feed put q xss) \<and> bytes (feed put q xss) = bytes q @ concat xss
    \<and> cap (feed put q xss) = cap q"
  using assms
proof (induction xss arbitrary: q)
  case Nil
  then show ?case by simp
next
  case (Cons xs xss)
  then show ?case
    using Cons.IH [of "snd (put q xs)"] by (simp add: inv_put cap_put bytes_put)
qed

lemma feed_then_get:
  assumes "inv q" "length (bytes q) + length (concat xss) < cap q" "n \<le> length (bytes q @ concat xss)"
  shows "fst (get (feed put q xss) n) = Some (take n (bytes q @ concat xss))
    \<and> bytes (snd (get (feed put q xss) n)) = drop n (bytes q @ concat xss)"
  using feed_ok [OF assms(1,2)] assms(3) get_ok [of "feed put q xss" n] by simp

lemma put_never_partial:
  "inv q \<Longrightarrow> bytes (snd (put q xs)) = bytes q @ (if fst (put q xs) then xs else [])"
  using put_ok [of q xs] put_full [of q xs] by (cases "length (bytes q) + length xs < cap q") simp_all

end

text \<open>Where a message that begins with \<open>hd_pat\<close> ends: just after the first line end behind it.\<close>

definition message_end :: "byte list \<Rightarrow> byte list \<Rightarrow> nat option" where
  "message_end hd_pat s =
     (case find_sub hd_pat s of
        None \<Rightarrow> None
      | Some i \<Rightarrow> map_option (\<lambda>j. i + j + 2) (find_sub CRLF (drop i s)))"

lemma message_end_bound: "message_end h s = Some n \<Longrightarrow> 2 \<le> n \<and> n \<le> length s"
  by (auto simp: message_end_def split: option.splits dest!: find_sub_bound)

locale byte_search = byte_fifo +
  fixes find :: "'q \<Rightarrow> byte list \<Rightarrow> nat \<Rightarrow> int"
    and pos :: "'q \<Rightarrow> nat \<Rightarrow> nat"
    and upto :: "'q \<Rightarrow> nat \<Rightarrow> nat"
  assumes find_law: "inv q \<Longrightarrow> unbordered pat \<Longrightarrow> j \<le> length (bytes q) \<Longrightarrow>
      find q pat (pos q j) =
        (case find_sub pat (drop j (bytes q)) of None \<Rightarrow> - 1 | Some i \<Rightarrow> int (pos q (j + i)))"
    and upto_law: "inv q \<Longrightarrow> k < length (bytes q) \<Longrightarrow> upto q (pos q k) = k + 1"
begin

text \<open>The two searches and the size computation the driver makes find exactly \<open>message_end\<close>.\<close>

lemma head_missing:
  "inv q \<Longrightarrow> unbordered h \<Longrightarrow> find q h (pos q 0) < 0 \<longleftrightarrow> find_sub h (bytes q) = None"
  using find_law [of q h 0] by (simp split: option.splits)

lemma tail_missing:
  assumes "inv q" "unbordered h" "find_sub h (bytes q) = Some i"
  shows "find q h (pos q 0) = int (pos q i)"
    and "find q CRLF (pos q i) < 0 \<longleftrightarrow> message_end h (bytes q) = None"
proof -
  have crlf: "unbordered CRLF" by (simp add: unbordered_def)
  have "i \<le> length (bytes q)" using assms(3) find_sub_bound by fastforce
  then show "find q CRLF (pos q i) < 0 \<longleftrightarrow> message_end h (bytes q) = None"
    using find_law [OF assms(1) crlf, of i] assms(3) by (simp add: message_end_def split: option.splits)
  show "find q h (pos q 0) = int (pos q i)"
    using find_law [OF assms(1,2), of 0] assms(3) by simp
qed

lemma message_size:
  assumes "inv q" "unbordered h" "find_sub h (bytes q) = Some i" "message_end h (bytes q) = Some n"
  shows "upto q (nat (find q CRLF (pos q i))) + 1 = n"
proof -
  have crlf: "unbordered CRLF" by (simp add: unbordered_def)
  obtain j where j: "find_sub CRLF (drop i (bytes q)) = Some j" "n = i + j + 2"
    using assms(3,4) by (auto simp: message_end_def)
  have "i \<le> length (bytes q)" using assms(3) find_sub_bound by fastforce
  moreover have "i + j < length (bytes q)" using find_sub_bound [OF j(1)] by simp
  ultimately show ?thesis
    using find_law [OF assms(1) crlf, of i] j upto_law [OF assms(1), of "i + j"] by simp
qed

end

interpretation ring: byte_search "\<lambda>b xs. Buffer_Puts b xs (length xs)" Buffer_Gets Buffer_Clear contents
  maxSize wf_buf "\<lambda>b pat. Buffer_Query b pat (length pat)" slot Buffer_Size2
proof (unfold_locales, goal_cases)
  case (6 q xs)
  then show ?case
    using Buffer_Puts_ok(2) [of q "length xs" xs] Buffer_Puts_full [of q "length xs" xs]
    by (cases "fill q + length xs < maxSize q") simp_all
next
  case (7 q n)
  then show ?case
    using Buffer_Gets_ok(2) [of q n] Buffer_Gets_short [of q n] by (cases "n \<le> fill q") simp_all
next
  case (9 q xs)
  then show ?case
    using Buffer_Puts_ok(3) [of q "length xs" xs] Buffer_Puts_full [of q "length xs" xs]
    by (cases "fill q + length xs < maxSize q") simp_all
next
  case (10 q n)
  then show ?case
    using Buffer_Gets_ok(3) [of q n] Buffer_Gets_short [of q n] by (cases "n \<le> fill q") simp_all
next
  case (12 q pat j)
  then show ?case
    by (simp add: Buffer_Query_find ring_pos_def slot_mod split: option.split)
qed (simp_all add: Buffer_Puts_ok Buffer_Puts_full Buffer_Gets_ok Buffer_Gets_short
    Buffer_Clear_spec Buffer_Size2_slot)

section \<open>What the ring promises\<close>

abbreviation put_all :: "Buffer_t \<Rightarrow> byte list list \<Rightarrow> Buffer_t" where
  "put_all b xss \<equiv> feed (\<lambda>b xs. Buffer_Puts b xs (length xs)) b xss"

text \<open>C22: The ring is a first-in first-out queue of bytes: chunks that fit are appended, and a read of
  \<open>n\<close> bytes returns the oldest \<open>n\<close> and leaves the others, wherever the indices have wrapped to.\<close>

theorem ring_fifo:
  assumes "wf_buf b" "length (contents b) + length (concat xss) < maxSize b"
    and "n \<le> length (contents b @ concat xss)"
  shows "fst (Buffer_Gets (put_all b xss) n) = Some (take n (contents b @ concat xss))
    \<and> contents (snd (Buffer_Gets (put_all b xss) n)) = drop n (contents b @ concat xss)"
  by (rule ring.feed_then_get [OF assms])

definition wrapped_ring :: Buffer_t where
  "wrapped_ring = \<lparr>front = 5, rear = 6, buffer = ''.....af.'', maxSize = 8\<rparr>"

theorem ring_fifo_witness:
  "fst (Buffer_Gets (put_all wrapped_ring [''gh'', ''ij'']) 4) = Some ''fghi''"
proof -
  have b: "wf_buf wrapped_ring" by (simp add: wf_buf_def wrapped_ring_def)
  have c: "contents wrapped_ring = ''f''" "maxSize wrapped_ring = 8" by code_simp+
  show ?thesis using ring_fifo [of wrapped_ring "[''gh'', ''ij'']" 4] b c by simp
qed

text \<open>A put is all or nothing: it succeeds exactly when the bytes fit into the free space with one
  slot left over, appends them then, and otherwise changes nothing; the ring stays well-formed.\<close>

theorem ring_put_atomic:
  assumes "wf_buf b"
  shows "(fst (Buffer_Puts b xs (length xs)) \<longleftrightarrow> length (contents b) + length xs < maxSize b)
    \<and> (let b' = snd (Buffer_Puts b xs (length xs)) in
        wf_buf b' \<and> contents b' = contents b @ (if fst (Buffer_Puts b xs (length xs)) then xs else [])
        \<and> (fst (Buffer_Puts b xs (length xs)) \<or> b' = b))"
  using ring.put_ok [OF assms, of xs] ring.put_full [OF assms, of xs] ring.inv_put [OF assms, of xs]
  by (cases "length (contents b) + length xs < maxSize b") (auto simp: Let_def)

theorem ring_put_atomic_witness:
  "\<not> fst (Buffer_Puts wrapped_ring ''0123456'' (length ''0123456'')) \<and> fst (Buffer_Puts wrapped_ring ''012345'' (length ''012345''))
     \<and> contents (snd (Buffer_Puts wrapped_ring ''012345'' (length ''012345''))) = ''f012345''"
proof -
  have b: "wf_buf wrapped_ring" by (simp add: wf_buf_def wrapped_ring_def)
  have c: "contents wrapped_ring = ''f''" "maxSize wrapped_ring = 8" by code_simp+
  show ?thesis
    using ring_put_atomic [OF b, of "''0123456''"] ring_put_atomic [OF b, of "''012345''"] b c
    by (simp add: Let_def)
qed

text \<open>C23: \<open>Buffer_Query\<close>, one pass over the ring with a matcher that never backs up, finds the first
  occurrence at or behind the start for every pattern whose first byte occurs in it only once, as the
  driver's patterns do, also across the end of the array; otherwise it returns \<open>- 1\<close>.\<close>

theorem ring_query_first:
  assumes "wf_buf b" "unbordered pat" "j \<le> length (contents b)"
  shows "(Buffer_Query b pat (length pat) (slot b j) = - 1 \<longleftrightarrow> \<not> (\<exists>i\<ge>j. occurs_at pat (contents b) i))
    \<and> (\<forall>i. j \<le> i \<and> i < length (contents b) \<longrightarrow>
        (Buffer_Query b pat (length pat) (slot b j) = int (slot b i) \<longleftrightarrow>
           occurs_at pat (contents b) i \<and> (\<forall>k. j \<le> k \<and> k < i \<longrightarrow> \<not> occurs_at pat (contents b) k)))"
proof -
  have ne: "pat \<noteq> []" using assms(2) by (auto simp: unbordered_def)
  have occ: "occurs_at pat (drop j (contents b)) i \<longleftrightarrow> occurs_at pat (contents b) (j + i)" for i
    by (simp add: occurs_at_def add.commute)
  have beyond: "occurs_at pat (contents b) i \<Longrightarrow> i < length (contents b)" for i
    using ne by (cases "i < length (contents b)") (auto simp: occurs_at_def)
  have less: "length (contents b) < maxSize b" using assms(1) fill_less [of b] by simp
  note q = ring.find_law [OF assms]
  show ?thesis
  proof (cases "find_sub pat (drop j (contents b))")
    case None
    then have no: "\<not> occurs_at pat (contents b) i" if "j \<le> i" for i
      using beyond [of i] that assms(3) unfolding find_sub_None occ
      by (metis diff_le_mono le_add_diff_inverse length_drop less_imp_le_nat)
    then show ?thesis using q None by auto
  next
    case (Some m)
    then have m: "occurs_at pat (contents b) (j + m)" "\<forall>k. j \<le> k \<and> k < j + m \<longrightarrow> \<not> occurs_at pat (contents b) k"
      unfolding find_sub_Some occ by (auto simp: le_iff_add)
    have eq: "slot b (j + m) = slot b i \<longleftrightarrow> j + m = i" if "i < length (contents b)" for i
      using slot_inject [OF assms(1), of "j + m" i] that less beyond [OF m(1)] by auto
    have "(\<exists>i\<ge>j. occurs_at pat (contents b) i)" using m(1) le_add1 by blast
    moreover have "j + m = i \<longleftrightarrow> occurs_at pat (contents b) i \<and> (\<forall>k. j \<le> k \<and> k < i \<longrightarrow> \<not> occurs_at pat (contents b) k)"
      if "j \<le> i" for i using m that by (metis le_add1 linorder_neqE_nat)
    ultimately show ?thesis using q Some eq by auto
  qed
qed

definition split_ring :: Buffer_t where
  "split_ring = \<lparr>front = 5, rear = 3, buffer = ''G,xy..VT'', maxSize = 8\<rparr>"

theorem ring_query_first_witness:
  "Buffer_Query split_ring ''VTG'' (length ''VTG'') (slot split_ring 0) = 6
     \<and> Buffer_Query split_ring ''VTG'' (length ''VTG'') (slot split_ring 1) = - 1"
proof -
  have b: "wf_buf split_ring" by (simp add: wf_buf_def split_ring_def)
  have c: "contents split_ring = ''VTG,xy''" "slot split_ring 0 = 6" by code_simp+
  have u: "unbordered ''VTG''" by (simp add: unbordered_def)
  have no: "\<not> (\<exists>i\<ge>1. occurs_at ''VTG'' ''VTG,xy'' i)"
    by (auto simp: occurs_at_def Suc_le_eq drop_Cons' dest!: prefix_length_le)
  have yes: "occurs_at ''VTG'' ''VTG,xy'' 0" by (simp add: occurs_at_def)
  note q0 = ring_query_first [OF b u, of 0, THEN conjunct2, THEN spec, of 0]
  note q1 = ring_query_first [OF b u, of 1, THEN conjunct1]
  show ?thesis using q0 q1 no yes c by simp
qed

end
