(* ===== verification/Stdlib_C.thy ===== *)
theory Stdlib_C
  imports Prelude
begin

text \<open>
  The C library routines the firmware brings itself, \<^verbatim>\<open>firmware/libs/utils/src/stdlib.c\<close>: \<open>strtol\<close>
  with its range clamping, and the allocation wrappers; the assertion of \<^verbatim>\<open>assert.c\<close>. \<open>long\<close> is 32 bits wide on this target.
\<close>

section \<open>strtol\<close>

text \<open>The bounds of \<^verbatim>\<open>limits.h\<close>; its \<open>LONG_MIN\<close> is two above the least 32-bit number.\<close>

definition LONG_MAX :: int where
  "LONG_MAX = 0x7fffffff"

definition LONG_MIN :: int where
  "LONG_MIN = - (0x7fffffff - 1)"

definition digit_value :: "byte \<Rightarrow> int option" where
  "digit_value c =
     (if isdigit c then Some (uchar c - 48)
      else if isalpha c then Some (uchar c - (if isupper c then 65 - 10 else 97 - 10))
      else None)"

text \<open>
  The conversion loop over the rest of the string; \<open>flag\<close> is 0 before the first digit, 1 after a
  digit was taken and -1 after an overflow, \<open>n\<close> counts the bytes consumed.
\<close>

fun strtol_loop :: "int \<Rightarrow> int \<Rightarrow> int \<Rightarrow> byte list \<Rightarrow> int \<Rightarrow> int \<Rightarrow> nat \<Rightarrow> int \<times> int \<times> nat" where
  "strtol_loop base Overflow LimitRemainder [] ret flag n = (ret, flag, n)"
| "strtol_loop base Overflow LimitRemainder (c # cs) ret flag n =
     (case digit_value c of
        None \<Rightarrow> (ret, flag, n)
      | Some ch \<Rightarrow>
          if ch \<ge> base then (ret, flag, n)
          else if flag < 0 \<or> ret > Overflow \<or> ret = Overflow \<and> ch > LimitRemainder then
            strtol_loop base Overflow LimitRemainder cs ret (- 1) (Suc n)
          else
            strtol_loop base Overflow LimitRemainder cs (u32 (u32 (ret * base) + ch)) 1 (Suc n))"

text \<open>The value returned and the offset of \<open>*endptr\<close>.\<close>

definition strtol :: "byte list \<Rightarrow> int \<Rightarrow> int \<times> nat" where
  "strtol s base0 =
     (let i0 = length (takeWhile isspace s);
          sign = (byte_at s i0 = CHR ''-'');
          i1 = (if byte_at s i0 = CHR ''-'' \<or> byte_at s i0 = CHR ''+'' then i0 + 1 else i0);
          hex = ((base0 = 0 \<or> base0 = 16) \<and> byte_at s i1 = CHR ''0''
                  \<and> (byte_at s (i1 + 1) = CHR ''x'' \<or> byte_at s (i1 + 1) = CHR ''X''));
          i2 = (if hex then i1 + 2 else i1);
          base1 = (if hex then 16 else base0);
          base = (if base1 = 0 then (if byte_at s i2 = CHR ''0'' then 8 else 10) else base1);
          limit = (if sign then u32 (- LONG_MIN) else LONG_MAX);
          (ret, flag, n) = strtol_loop base (limit div base) (limit mod base) (drop i2 s) 0 0 0;
          val = (if flag < 0 then (if sign then LONG_MIN else LONG_MAX)
                 else if sign then u32 (- ret) else ret)
      in (s32 val, if flag = 0 then 0 else i2 + n))"

definition strtoul :: "byte list \<Rightarrow> int \<Rightarrow> int \<times> nat" where
  "strtoul s base = (let (v, e) = strtol s base in (u32 v, e))"

section \<open>Allocation wrappers\<close>

text \<open>
  \<open>os_malloc\<close> and \<open>os_realloc\<close> are the allocator of the SDK; a block is whatever they return. The
  size computed by \<open>calloc\<close> is a \<open>size_t\<close> product, and the block is handed out as it comes.
\<close>

definition malloc :: "(int \<Rightarrow> 'p) \<Rightarrow> int \<Rightarrow> 'p" where
  "malloc os_malloc n = os_malloc n"

definition realloc :: "('p \<Rightarrow> int \<Rightarrow> 'p) \<Rightarrow> 'p \<Rightarrow> int \<Rightarrow> 'p" where
  "realloc os_realloc p n = os_realloc p n"

definition calloc :: "(int \<Rightarrow> 'p) \<Rightarrow> int \<Rightarrow> int \<Rightarrow> 'p" where
  "calloc os_malloc nmemb n = malloc os_malloc (u32 (nmemb * n))"

text \<open>The assertion of \<^verbatim>\<open>firmware/libs/utils/src/assert.c\<close>: \<open>__assert\<close> of the SDK does not return.\<close>

definition Assert :: "bool \<Rightarrow> string \<Rightarrow> unit result" where
  "Assert valid fmt = (if \<not> valid then Inl (Assertion_Failed fmt) else Inr ())"

section \<open>Decimal numerals\<close>

definition dec_from :: "int \<Rightarrow> byte list \<Rightarrow> int" where
  "dec_from a ds = foldl (\<lambda>v c. v * 10 + (uchar c - 48)) a ds"

abbreviation dec_val :: "byte list \<Rightarrow> int" where
  "dec_val ds \<equiv> dec_from 0 ds"

lemma dec_from_simps [simp]:
  "dec_from a [] = a" "dec_from a (c # cs) = dec_from (a * 10 + (uchar c - 48)) cs"
  by (simp_all add: dec_from_def)

lemma dec_from_append: "dec_from a (xs @ ys) = dec_from (dec_from a xs) ys"
  by (simp add: dec_from_def)

lemma digit_value_digit: "isdigit c \<Longrightarrow> digit_value c = Some (uchar c - 48)"
  by (simp add: digit_value_def)

lemma digit_bounds: "isdigit c \<Longrightarrow> 0 \<le> uchar c - 48 \<and> uchar c - 48 \<le> 9"
  by (simp add: isdigit_def)

lemma dec_from_mono:
  assumes "\<forall>c\<in>set ds. isdigit c" "0 \<le> a"
  shows "a \<le> dec_from a ds"
  using assms
proof (induction ds arbitrary: a)
  case (Cons c ds)
  then have "a \<le> a * 10 + (uchar c - 48)" using digit_bounds [of c] by simp
  also have "\<dots> \<le> dec_from (a * 10 + (uchar c - 48)) ds"
    using Cons.prems calculation by (intro Cons.IH) auto
  finally show ?case by simp
qed simp

text \<open>A byte that ends a decimal number.\<close>

definition ends_number :: "byte list \<Rightarrow> bool" where
  "ends_number rest \<longleftrightarrow> \<not> isdigit (byte_at rest 0)"

lemma strtol_loop_stop:
  "ends_number rest \<Longrightarrow> strtol_loop 10 ov lim rest ret flag n = (ret, flag, n)"
  by (cases rest) (auto simp: ends_number_def digit_value_def isalpha_def isupper_def)

lemma strtol_loop_overflown:
  "\<forall>c\<in>set ds. isdigit c \<Longrightarrow> ends_number rest \<Longrightarrow>
     strtol_loop 10 ov lim (ds @ rest) ret (- 1) n = (ret, - 1, n + length ds)"
proof (induction ds arbitrary: n)
  case (Cons c ds)
  then show ?case using digit_bounds [of c] by (simp add: digit_value_digit)
qed (simp add: strtol_loop_stop)

lemma limit_test:
  fixes v d L :: int
  assumes "0 \<le> d" "d < 10"
  shows "v > L div 10 \<or> v = L div 10 \<and> d > L mod 10 \<longleftrightarrow> L < v * 10 + d"
proof -
  have "L = 10 * (L div 10) + L mod 10" "0 \<le> L mod 10" "L mod 10 < 10" by simp_all
  with assms show ?thesis by linarith
qed

lemma strtol_loop_digits:
  assumes "\<forall>c\<in>set ds. isdigit c" "ends_number rest" "0 \<le> v" "v \<le> L" "L \<le> 2147483647" "0 \<le> flag"
  shows "\<exists>ret. strtol_loop 10 (L div 10) (L mod 10) (ds @ rest) v flag n =
    (if dec_from v ds \<le> L then (dec_from v ds, if ds = [] then flag else 1, n + length ds)
     else (ret, - 1, n + length ds))"
  using assms
proof (induction ds arbitrary: v flag n)
  case Nil
  then show ?case by (simp add: strtol_loop_stop)
next
  case (Cons c ds)
  let ?d = "uchar c - 48"
  have d: "0 \<le> ?d" "?d < 10" using Cons.prems(1) digit_bounds [of c] by auto
  have ge: "0 \<le> v * 10 + ?d \<Longrightarrow> v * 10 + ?d \<le> dec_from (v * 10 + ?d) ds"
    using Cons.prems(1) dec_from_mono by simp
  show ?case
  proof (cases "L < v * 10 + ?d")
    case True
    then have "\<not> dec_from v (c # ds) \<le> L" using ge d Cons.prems(3) by simp
    then show ?thesis
      using True d Cons.prems limit_test [OF d, of L v]
      by (auto simp: digit_value_digit strtol_loop_overflown)
  next
    case False
    then have "u32 (u32 (v * 10) + ?d) = v * 10 + ?d"
      using d Cons.prems(3,5) by (simp add: wrap_simps)
    then show ?thesis
      using False d Cons.prems limit_test [OF d, of L v] Cons.IH [of "v * 10 + ?d" 1 "Suc n"]
      by (auto simp: digit_value_digit)
  qed
qed

text \<open>Decimal numbers are read exactly, up to the clamping at the bounds of \<open>long\<close>.\<close>

lemma digit_not_special:
  "isdigit c \<Longrightarrow> \<not> isspace c \<and> c \<noteq> CHR ''-'' \<and> c \<noteq> CHR ''+''"
  by (auto simp: isdigit_def isspace_def uchar_def)

lemma strtol_decimal:
  assumes "ds \<noteq> []" "\<forall>c\<in>set ds. isdigit c" "ends_number rest"
  shows "strtol (ds @ rest) 10 = (min (dec_val ds) LONG_MAX, length ds)"
proof -
  obtain c cs where ds: "ds = c # cs" using assms(1) by (cases ds) auto
  have c: "\<not> isspace c" "c \<noteq> CHR ''-''" "c \<noteq> CHR ''+''"
    using assms(2) ds digit_not_special by auto
  have "0 \<le> dec_val ds" using dec_from_mono [OF assms(2), of 0] by simp
  then show ?thesis
    using strtol_loop_digits [OF assms(2,3), of 0 LONG_MAX 0 0] assms(1) c
    by (auto simp: strtol_def ds LONG_MAX_def Let_def wrap_simps min_def split: if_splits)
qed

lemma strtol_negative:
  assumes "ds \<noteq> []" "\<forall>c\<in>set ds. isdigit c" "ends_number rest"
  shows "strtol (CHR ''-'' # ds @ rest) 10 = (max (- dec_val ds) LONG_MIN, Suc (length ds))"
proof -
  have "0 \<le> dec_val ds" using dec_from_mono [OF assms(2), of 0] by simp
  then show ?thesis
    using strtol_loop_digits [OF assms(2,3), of 0 "- LONG_MIN" 0 0] assms(1)
    by (auto simp: strtol_def LONG_MIN_def Let_def wrap_simps max_def isspace_def uchar_def
        split: if_splits)
qed

lemma strtol_empty: "ends_number rest \<Longrightarrow> \<not> isspace (byte_at rest 0) \<Longrightarrow>
    byte_at rest 0 \<noteq> CHR ''-'' \<Longrightarrow> byte_at rest 0 \<noteq> CHR ''+'' \<Longrightarrow> strtol rest 10 = (0, 0)"
  by (cases rest) (simp_all add: strtol_def Let_def strtol_loop_stop s32_def del: strtol_loop.simps)

lemma strtol_range: "in_s32 (fst (strtol s b))"
  by (simp only: strtol_def Let_def prod.case_eq_if fst_conv in_s32_s32)

section \<open>Reading a decimal number\<close>

text \<open>C31: \<open>strtol\<close> in base ten returns the value of the digits it consumes, clamped to the bounds of
  \<open>long\<close>, with and without a minus sign, and leaves the end pointer at the first byte that is no digit;
  the running product never wraps on the way.\<close>

theorem strtol_reads_decimal:
  assumes "ds \<noteq> []" "\<forall>c\<in>set ds. isdigit c" "ends_number rest"
  shows "strtol (ds @ rest) 10 = (min (dec_val ds) LONG_MAX, length ds)
    \<and> strtol (CHR ''-'' # ds @ rest) 10 = (max (- dec_val ds) LONG_MIN, Suc (length ds))"
  using strtol_decimal [OF assms] strtol_negative [OF assms] by simp

theorem strtol_reads_decimal_witness:
  "strtol ''99999999999,7'' 10 = (2147483647, 11) \<and> strtol ''-99999999999,7'' 10 = (- 2147483646, 12)"
proof -
  have d: "\<forall>c\<in>set ''99999999999''. isdigit c" "ends_number '',7''"
    by (simp_all add: isdigit_def uchar_def ends_number_def)
  have v: "dec_val ''99999999999'' = 99999999999" by (simp add: uchar_def)
  show ?thesis
    using strtol_reads_decimal [of "''99999999999''" "'',7''", OF _ d] v
    by (simp add: LONG_MAX_def LONG_MIN_def)
qed

end
