(* ===== verification/Minmea_Scan.thy ===== *)
theory Minmea_Scan
  imports Stdlib_C
begin

text \<open>
  The sentence layer of \<^verbatim>\<open>firmware/libs/gps/minmea/src/minmea.c\<close>: checksum, validity check and the
  scanner \<open>minmea_scan\<close>. A sentence is the C string's bytes without its NUL; a pointer into it is
  the list of the bytes from there on.
\<close>

unbundle bit_operations_syntax

section \<open>Checksum and validity\<close>

definition hex2int :: "byte \<Rightarrow> int" where
  "hex2int c =
     (if 0x30 \<le> uchar c \<and> uchar c \<le> 0x39 then uchar c - 0x30
      else if 0x41 \<le> uchar c \<and> uchar c \<le> 0x46 then uchar c - 0x41 + 10
      else if 0x61 \<le> uchar c \<and> uchar c \<le> 0x66 then uchar c - 0x61 + 10
      else - 1)"

definition xor_bytes :: "int \<Rightarrow> byte list \<Rightarrow> int" where
  "xor_bytes acc bs = foldl (\<lambda>a c. a XOR uchar c) acc bs"

definition minmea_checksum :: "byte list \<Rightarrow> int" where
  "minmea_checksum sentence =
     (let s = (if byte_at sentence 0 = CHR ''$'' then tl sentence else sentence)
      in xor_bytes 0 (takeWhile (\<lambda>c. c \<noteq> CHR ''*'') s))"

definition MINMEA_MAX_LENGTH :: nat where
  "MINMEA_MAX_LENGTH = 80"

text \<open>The tail behind the body: an optional \<open>*HH\<close>, then nothing or a line end.\<close>

definition line_end :: "byte list \<Rightarrow> bool" where
  "line_end s \<longleftrightarrow> s = [] \<or> s = [CHR 0x0A] \<or> s = CRLF"

definition minmea_check :: "byte list \<Rightarrow> bool \<Rightarrow> bool" where
  "minmea_check sentence strict =
     (if length sentence > MINMEA_MAX_LENGTH + 3 then False
      else if byte_at sentence 0 \<noteq> CHR ''$'' then False
      else
        let body = takeWhile (\<lambda>c. c \<noteq> CHR ''*'' \<and> isprint c) (tl sentence);
            rest = dropWhile (\<lambda>c. c \<noteq> CHR ''*'' \<and> isprint c) (tl sentence);
            checksum = xor_bytes 0 body
        in if byte_at rest 0 = CHR ''*'' then
             (let upper = hex2int (byte_at rest 1) in
              if upper = - 1 then False
              else let lower = hex2int (byte_at rest 2) in
              if lower = - 1 then False
              else if checksum \<noteq> (push_bit 4 upper OR lower) then False
              else line_end (drop 3 rest))
           else if strict then False
           else line_end rest)"

definition minmea_isfield :: "byte \<Rightarrow> bool" where
  "minmea_isfield c \<longleftrightarrow> isprint c \<and> c \<noteq> CHR '','' \<and> c \<noteq> CHR ''*''"

section \<open>Scanned values\<close>

record minmea_float =
  mf_value :: int
  mf_scale :: int

record minmea_date =
  day :: int
  month :: int
  year :: int

record minmea_time =
  hours :: int
  minutes :: int
  seconds :: int
  microseconds :: int

datatype sval =
    VChar byte
  | VDir int
  | VFloat minmea_float
  | VInt int
  | VStr "byte list"
  | VType "byte list"
  | VDate minmea_date
  | VTime minmea_time

text \<open>What one format letter does: write a value, write nothing, or \<open>goto parse_error\<close>.\<close>

datatype field_result = Stored sval | Skipped | Parse_Error

section \<open>The field scanners\<close>

definition first_field_char :: "byte list option \<Rightarrow> byte option" where
  "first_field_char field =
     (case field of None \<Rightarrow> None
      | Some f \<Rightarrow> if minmea_isfield (byte_at f 0) then Some (byte_at f 0) else None)"

definition scan_char :: "byte list option \<Rightarrow> field_result" where
  "scan_char field = Stored (VChar (case first_field_char field of None \<Rightarrow> NUL | Some c \<Rightarrow> c))"

definition scan_direction :: "byte list option \<Rightarrow> field_result" where
  "scan_direction field =
     (case first_field_char field of
        None \<Rightarrow> Stored (VDir 0)
      | Some c \<Rightarrow>
          if c = CHR ''N'' \<or> c = CHR ''E'' then Stored (VDir 1)
          else if c = CHR ''S'' \<or> c = CHR ''W'' then Stored (VDir (- 1))
          else Parse_Error)"

text \<open>The loop of case \<open>'f'\<close>: \<open>(sign, value, scale)\<close> after it, \<open>None\<close> for \<open>goto parse_error\<close>.\<close>

fun scan_float_loop :: "byte list \<Rightarrow> int \<Rightarrow> int \<Rightarrow> int \<Rightarrow> (int \<times> int \<times> int) option" where
  "scan_float_loop [] sign val scale = Some (sign, val, scale)"
| "scan_float_loop (c # field) sign val scale =
     (if \<not> minmea_isfield c then Some (sign, val, scale)
      else if c = CHR ''+'' \<and> sign = 0 \<and> val = - 1 then scan_float_loop field 1 val scale
      else if c = CHR ''-'' \<and> sign = 0 \<and> val = - 1 then scan_float_loop field (- 1) val scale
      else if isdigit c then
        (let digit = uchar c - 0x30; val' = (if val = - 1 then 0 else val)
         in if val' > (INT_MAX - digit) sdiv 10 then
              (if scale \<noteq> 0 then Some (sign, val', scale) else None)
            else scan_float_loop field sign (s32 (s32 (10 * val') + digit))
                   (if scale \<noteq> 0 then s32 (scale * 10) else scale))
      else if c = CHR ''.'' \<and> scale = 0 then scan_float_loop field sign val 1
      else if c = CHR '' '' then
        (if sign \<noteq> 0 \<or> val \<noteq> - 1 \<or> scale \<noteq> 0 then None
         else scan_float_loop field sign val scale)
      else None)"

definition scan_float :: "byte list option \<Rightarrow> field_result" where
  "scan_float field =
     (case (case field of None \<Rightarrow> Some (0, - 1, 0) | Some f \<Rightarrow> scan_float_loop f 0 (- 1) 0) of
        None \<Rightarrow> Parse_Error
      | Some (sign, val, scale) \<Rightarrow>
          if (sign \<noteq> 0 \<or> scale \<noteq> 0) \<and> val = - 1 then Parse_Error
          else
            let (val', scale') = (if val = - 1 then (0, 0) else if scale = 0 then (val, 1) else (val, scale))
            in Stored (VFloat \<lparr>mf_value = (if sign \<noteq> 0 then s32 (val' * sign) else val'), mf_scale = scale'\<rparr>))"

definition scan_int :: "byte list option \<Rightarrow> field_result" where
  "scan_int field =
     (case field of None \<Rightarrow> Stored (VInt 0)
      | Some f \<Rightarrow>
          (let (val, endptr) = strtol f 10
           in if minmea_isfield (byte_at f endptr) then Parse_Error else Stored (VInt val)))"

definition scan_string :: "byte list option \<Rightarrow> field_result" where
  "scan_string field =
     Stored (VStr (case field of None \<Rightarrow> [] | Some f \<Rightarrow> takeWhile minmea_isfield f))"

definition scan_talker :: "byte list option \<Rightarrow> field_result" where
  "scan_talker field =
     (case field of None \<Rightarrow> Parse_Error
      | Some f \<Rightarrow>
          if byte_at f 0 \<noteq> CHR ''$'' then Parse_Error
          else if \<not> list_all (\<lambda>i. minmea_isfield (byte_at f (1 + i))) [0..<5] then Parse_Error
          else Stored (VType (map (\<lambda>i. byte_at f (1 + i)) [0..<5])))"

definition two_digits :: "byte list \<Rightarrow> nat \<Rightarrow> int" where
  "two_digits f i = fst (strtol [byte_at f i, byte_at f (i + 1)] 10)"

definition six_digits :: "byte list \<Rightarrow> bool" where
  "six_digits f \<longleftrightarrow> list_all (\<lambda>i. isdigit (byte_at f i)) [0..<6]"

definition scan_date :: "byte list option \<Rightarrow> field_result" where
  "scan_date field =
     (case field of
        Some f \<Rightarrow>
          if minmea_isfield (byte_at f 0) then
            (if \<not> six_digits f then Parse_Error
             else Stored (VDate \<lparr>day = two_digits f 0, month = two_digits f 2, year = two_digits f 4\<rparr>))
          else Stored (VDate \<lparr>day = - 1, month = - 1, year = - 1\<rparr>)
      | None \<Rightarrow> Stored (VDate \<lparr>day = - 1, month = - 1, year = - 1\<rparr>))"

text \<open>The fraction of a second: at most six digits, scaled to microseconds.\<close>

fun micro_loop :: "byte list \<Rightarrow> int \<Rightarrow> int \<Rightarrow> int" where
  "micro_loop [] val scale = u32 (val * scale)"
| "micro_loop (c # cs) val scale =
     (if isdigit c \<and> scale > 1 then micro_loop cs (u32 (u32 (val * 10) + (uchar c - 0x30))) (scale div 10)
      else u32 (val * scale))"

definition no_time :: minmea_time where
  "no_time = \<lparr>hours = - 1, minutes = - 1, seconds = - 1, microseconds = - 1\<rparr>"

definition scan_time :: "byte list option \<Rightarrow> field_result" where
  "scan_time field =
     (case field of
        Some f \<Rightarrow>
          if minmea_isfield (byte_at f 0) then
            (if \<not> six_digits f then Parse_Error
             else Stored (VTime
               \<lparr>hours = two_digits f 0, minutes = two_digits f 2, seconds = two_digits f 4,
                microseconds = (if byte_at f 6 = CHR ''.'' then s32 (micro_loop (drop 7 f) 0 1000000) else 0)\<rparr>))
          else Stored (VTime no_time)
      | None \<Rightarrow> Stored (VTime no_time))"

definition scan_field :: "byte \<Rightarrow> byte list option \<Rightarrow> field_result" where
  "scan_field type field =
     (if type = CHR ''c'' then scan_char field
      else if type = CHR ''d'' then scan_direction field
      else if type = CHR ''f'' then scan_float field
      else if type = CHR ''i'' then scan_int field
      else if type = CHR ''s'' then scan_string field
      else if type = CHR ''t'' then scan_talker field
      else if type = CHR ''D'' then scan_date field
      else if type = CHR ''T'' then scan_time field
      else if type = CHR ''_'' then Skipped
      else Parse_Error)"

section \<open>The scanner\<close>

text \<open>\<open>next_field\<close>: the new \<open>sentence\<close> and \<open>field\<close> pointers; \<open>None\<close> is the null pointer.\<close>

definition next_field :: "byte list \<Rightarrow> byte list \<times> byte list option" where
  "next_field sentence =
     (let s = dropWhile minmea_isfield sentence
      in if byte_at s 0 = CHR '','' then (tl s, Some (tl s)) else (s, None))"

text \<open>
  The result carries the values in the order they are written through the argument pointers, also
  when the scan fails: the fields before the failing one have been written by then.
\<close>

fun scan_loop :: "byte list \<Rightarrow> bool \<Rightarrow> byte list option \<Rightarrow> byte list \<Rightarrow> bool \<times> sval list" where
  "scan_loop [] optional field sentence = (True, [])"
| "scan_loop (type # format) optional field sentence =
     (if type = CHR '';'' then scan_loop format True field sentence
      else if field = None \<and> \<not> optional then (False, [])
      else
        let (sentence', field') = next_field sentence
        in case scan_field type field of
             Parse_Error \<Rightarrow> (False, [])
           | Skipped \<Rightarrow> scan_loop format optional field' sentence'
           | Stored v \<Rightarrow>
               (let (ok, vs) = scan_loop format optional field' sentence' in (ok, v # vs)))"

definition minmea_scan :: "byte list \<Rightarrow> byte list \<Rightarrow> bool \<times> sval list" where
  "minmea_scan sentence format = scan_loop format False (Some sentence) sentence"

section \<open>Validity: which sentences \<open>minmea_check\<close> accepts\<close>

lemma xor_range: "0 \<le> x \<Longrightarrow> x < 256 \<Longrightarrow> 0 \<le> y \<Longrightarrow> y < 256 \<Longrightarrow> 0 \<le> x XOR y \<and> x XOR y < (256::int)"
  using XOR_upper [of x 8 y] by simp

lemma xor_bytes_range: "0 \<le> a \<Longrightarrow> a < 256 \<Longrightarrow> 0 \<le> xor_bytes a bs \<and> xor_bytes a bs < 256"
  by (induction bs arbitrary: a) (simp_all add: xor_bytes_def xor_range)

lemma xor_bytes_append: "xor_bytes a (xs @ ys) = xor_bytes (xor_bytes a xs) ys"
  by (simp add: xor_bytes_def)

text \<open>The bytes between the dollar sign and the star.\<close>

definition body_char :: "byte \<Rightarrow> bool" where
  "body_char c \<longleftrightarrow> c \<noteq> CHR ''*'' \<and> isprint c"

definition hex_pair :: "byte \<Rightarrow> byte \<Rightarrow> int option" where
  "hex_pair h l =
     (if hex2int h = - 1 \<or> hex2int l = - 1 then None else Some (push_bit 4 (hex2int h) OR hex2int l))"

definition checksum_tail :: "byte list \<Rightarrow> byte list \<Rightarrow> bool" where
  "checksum_tail body rest \<longleftrightarrow>
     (\<exists>h l nl. rest = CHR ''*'' # h # l # nl \<and> line_end nl \<and> hex_pair h l = Some (xor_bytes 0 body))"

definition valid_sentence :: "byte list \<Rightarrow> bool \<Rightarrow> bool" where
  "valid_sentence s strict \<longleftrightarrow> length s \<le> 83 \<and>
     (\<exists>body rest. s = CHR ''$'' # body @ rest \<and> list_all body_char body \<and>
        (checksum_tail body rest \<or> \<not> strict \<and> line_end rest))"

lemma hex2int_NUL [simp]: "hex2int NUL = - 1"
  by (simp add: hex2int_def uchar_def)

lemma star_split:
  "list_all body_char body \<Longrightarrow> \<not> body_char (byte_at rest 0) \<Longrightarrow>
     takeWhile body_char (body @ rest) = body \<and> dropWhile body_char (body @ rest) = rest"
  by (induction body) (cases rest; auto)+

lemma line_end_head: "line_end nl \<Longrightarrow> \<not> body_char (byte_at nl 0) \<and> byte_at nl 0 \<noteq> CHR ''*''"
  by (auto simp: line_end_def body_char_def isprint_def uchar_def)

lemma checksum_tail_at:
  "checksum_tail body rest \<longleftrightarrow> byte_at rest 0 = CHR ''*'' \<and> hex2int (byte_at rest 1) \<noteq> - 1 \<and> hex2int (byte_at rest 2) \<noteq> - 1
     \<and> xor_bytes 0 body = (push_bit 4 (hex2int (byte_at rest 1)) OR hex2int (byte_at rest 2)) \<and> line_end (drop 3 rest)"
  (is "?l \<longleftrightarrow> ?r")
proof
  assume ?l
  then show ?r by (auto simp: checksum_tail_def hex_pair_def byte_at_def split: if_splits)
next
  assume r: ?r
  then have "\<not> length rest \<le> 0" "\<not> length rest \<le> 1" "\<not> length rest \<le> 2"
    using at_ge [of rest 0] at_ge [of rest 1] at_ge [of rest 2] by auto
  then have "2 < length rest" by simp
  then obtain c h l nl where rest: "rest = c # h # l # nl"
    by (metis Cons_nth_drop_Suc drop0 length_greater_0_conv list.size(3) not_less_zero
        One_nat_def Suc_1 Suc_lessD)
  with r show ?l by (auto simp: checksum_tail_def hex_pair_def byte_at_def)
qed

lemma minmea_check_iff: "minmea_check s strict \<longleftrightarrow> valid_sentence s strict"
proof
  assume chk: "minmea_check s strict"
  define body where "body = takeWhile body_char (tl s)"
  define rest where "rest = dropWhile body_char (tl s)"
  from chk have len: "length s \<le> 83" and dollar: "byte_at s 0 = CHR ''$''"
    by (auto simp: minmea_check_def MINMEA_MAX_LENGTH_def split: if_splits)
  then have s: "s = CHR ''$'' # body @ rest"
    by (cases s) (auto simp: body_def rest_def)
  have "checksum_tail body rest \<or> \<not> strict \<and> line_end rest"
    using chk unfolding minmea_check_def body_def [symmetric, unfolded body_char_def [abs_def]]
      rest_def [symmetric, unfolded body_char_def [abs_def]]
    by (auto simp: checksum_tail_at Let_def split: if_splits)
  moreover have "list_all body_char body" by (auto simp: body_def list_all_iff dest: set_takeWhileD)
  ultimately show "valid_sentence s strict" using len s by (auto simp: valid_sentence_def)
next
  assume "valid_sentence s strict"
  then obtain body rest where len: "length s \<le> 83" and s: "s = CHR ''$'' # body @ rest"
    and body: "list_all body_char body" and tail: "checksum_tail body rest \<or> \<not> strict \<and> line_end rest"
    by (auto simp: valid_sentence_def)
  have "\<not> body_char (byte_at rest 0)"
    using tail line_end_head by (auto simp: checksum_tail_at body_char_def)
  from star_split [OF body this]
  have sp: "takeWhile (\<lambda>c. c \<noteq> CHR ''*'' \<and> isprint c) (tl s) = body"
      "dropWhile (\<lambda>c. c \<noteq> CHR ''*'' \<and> isprint c) (tl s) = rest"
    by (simp_all add: s body_char_def [abs_def])
  show "minmea_check s strict"
    unfolding minmea_check_def sp using len s tail line_end_head [of rest]
    by (auto simp: checksum_tail_at MINMEA_MAX_LENGTH_def Let_def)
qed

section \<open>The values written follow the format\<close>

fun letter_of :: "sval \<Rightarrow> byte" where
  "letter_of (VChar _) = CHR ''c''"
| "letter_of (VDir _) = CHR ''d''"
| "letter_of (VFloat _) = CHR ''f''"
| "letter_of (VInt _) = CHR ''i''"
| "letter_of (VStr _) = CHR ''s''"
| "letter_of (VType _) = CHR ''t''"
| "letter_of (VDate _) = CHR ''D''"
| "letter_of (VTime _) = CHR ''T''"

definition letters :: "byte list \<Rightarrow> byte list" where
  "letters format = filter (\<lambda>c. c \<noteq> CHR '';'' \<and> c \<noteq> CHR ''_'') format"

definition mf_ok :: "minmea_float \<Rightarrow> bool" where
  "mf_ok f \<longleftrightarrow> \<bar>mf_value f\<bar> \<le> INT_MAX \<and> in_s32 (mf_scale f) \<and> (mf_scale f = 0 \<longrightarrow> mf_value f = 0)"

text \<open>Numbers stored are 32-bit, directions are \<open>- 1\<close>, 0 or 1, a type has five characters.\<close>

fun sval_ok :: "sval \<Rightarrow> bool" where
  "sval_ok (VDir d) \<longleftrightarrow> d = - 1 \<or> d = 0 \<or> d = 1"
| "sval_ok (VFloat f) \<longleftrightarrow> mf_ok f"
| "sval_ok (VInt i) \<longleftrightarrow> in_s32 i"
| "sval_ok (VType t) \<longleftrightarrow> length t = 5 \<and> list_all minmea_isfield t"
| "sval_ok _ \<longleftrightarrow> True"

lemma float_guard:
  assumes "0 \<le> (digit::int)" "digit \<le> 9" "0 \<le> v"
  shows "v > (INT_MAX - digit) sdiv 10 \<longleftrightarrow> INT_MAX < 10 * v + digit"
  using assms by (auto simp: INT_MAX_def signed_divide_int_def)

lemma isdigit_isfield: "isdigit c \<Longrightarrow> minmea_isfield c"
  by (auto simp: isdigit_def minmea_isfield_def isprint_def uchar_def)

lemma scan_float_digit:
  assumes "isdigit c" "- 1 \<le> val"
  defines "v \<equiv> (if val = - 1 then 0 else val)" and "d \<equiv> uchar c - 48"
  shows "scan_float_loop (c # f) sign val scale =
    (if INT_MAX < 10 * v + d then (if scale \<noteq> 0 then Some (sign, v, scale) else None)
     else scan_float_loop f sign (10 * v + d) (if scale \<noteq> 0 then s32 (scale * 10) else 0))"
proof -
  have v: "0 \<le> v" and d: "0 \<le> d" "d \<le> 9"
    using assms(2) digit_bounds [OF assms(1)] by (auto simp: v_def d_def)
  have c: "c \<noteq> CHR ''+''" "c \<noteq> CHR ''-''" using assms(1) digit_not_special by auto
  have "\<not> INT_MAX < 10 * v + d \<Longrightarrow> s32 (s32 (10 * v) + d) = 10 * v + d"
    using v d by (simp add: INT_MAX_def s32_id)
  then show ?thesis
    using assms(1) isdigit_isfield [OF assms(1)] c float_guard [OF d v]
    by (simp add: Let_def flip: v_def d_def)
qed

lemma scan_float_nondigit:
  assumes "\<not> isdigit c"
  shows "scan_float_loop (c # f) sign val scale =
    (if \<not> minmea_isfield c then Some (sign, val, scale)
     else if c = CHR ''+'' \<and> sign = 0 \<and> val = - 1 then scan_float_loop f 1 val scale
     else if c = CHR ''-'' \<and> sign = 0 \<and> val = - 1 then scan_float_loop f (- 1) val scale
     else if c = CHR ''.'' \<and> scale = 0 then scan_float_loop f sign val 1
     else if c = CHR '' '' \<and> sign = 0 \<and> val = - 1 \<and> scale = 0 then scan_float_loop f sign val scale
     else None)"
  using assms by auto

declare scan_float_loop.simps(2) [simp del]

lemma scan_float_loop_ok:
  assumes "scan_float_loop f sign val scale = Some (sign', val', scale')"
    and "- 1 \<le> val" "val \<le> INT_MAX" "sign \<in> {- 1, 0, 1}" "in_s32 scale"
  shows "- 1 \<le> val' \<and> val' \<le> INT_MAX \<and> sign' \<in> {- 1, 0, 1} \<and> in_s32 scale'"
  using assms
proof (induction f arbitrary: sign val scale)
  case Nil
  then show ?case by simp
next
  case (Cons c f)
  have z: "in_s32 0" "in_s32 1" by (simp_all add: in_s32_def)
  show ?case
  proof (cases "isdigit c")
    case True
    let ?v = "if val = - 1 then 0 else val" and ?d = "uchar c - 48"
    show ?thesis
    proof (cases "INT_MAX < 10 * ?v + ?d")
      case over: True
      then show ?thesis
        using Cons.prems by (auto simp: scan_float_digit [OF True] INT_MAX_def split: if_splits)
    next
      case False
      have eq: "scan_float_loop f sign (10 * ?v + ?d) (if scale \<noteq> 0 then s32 (scale * 10) else 0)
          = Some (sign', val', scale')"
        using Cons.prems(1,2) False by (simp add: scan_float_digit [OF True] split del: if_split)
      have lo: "- 1 \<le> 10 * ?v + ?d" using digit_bounds [OF True] Cons.prems(2) by auto
      have sc: "in_s32 (if scale \<noteq> 0 then s32 (scale * 10) else 0)" using z by simp
      show ?thesis
        by (rule Cons.IH [OF eq lo _ Cons.prems(4) sc]) (use False in linarith)
    qed
  next
    case False
    then show ?thesis
      using Cons.prems z Cons.IH by (simp add: scan_float_nondigit split: if_splits)
  qed
qed

section \<open>The sentences accepted\<close>

text \<open>C20: \<open>minmea_check\<close>, written as a run over the bytes with early exits, accepts exactly the valid
  sentences: at most 83 bytes, a dollar sign, printable bytes without a star, then either a star, two
  hexadecimal digits that are the exclusive or of the body, and an optional line end, or, when the check
  is not strict, an optional line end alone.\<close>

theorem minmea_check_spec: "minmea_check s strict \<longleftrightarrow> valid_sentence s strict"
  by (rule minmea_check_iff)

lemma xor_bytes_left: "xor_bytes a bs = a XOR xor_bytes 0 bs"
proof (induction bs arbitrary: a)
  case (Cons c bs)
  have "xor_bytes a (c # bs) = xor_bytes (a XOR uchar c) bs" for a by (simp add: xor_bytes_def)
  then show ?case by (metis Cons.IH xor.assoc xor.left_neutral)
qed (simp add: xor_bytes_def)



end
