(* ===== verification/Minmea_Fields.thy ===== *)
theory Minmea_Fields
  imports Minmea_Scan
begin

text \<open>
  What \<open>minmea_scan\<close> promises, on the level of comma-separated fields: each field scanner reads only
  its own field, the scanner is the field-wise function \<open>scan_fields\<close> of the split sentence, and the
  numbers stored are the decimals written.
\<close>

section \<open>A field scanner stops byte_at its delimiter\<close>

definition delim :: "byte list \<Rightarrow> bool" where
  "delim rest \<longleftrightarrow> \<not> minmea_isfield (byte_at rest 0) \<and> \<not> isspace (byte_at rest 0)"

abbreviation is_field :: "byte list \<Rightarrow> bool" where
  "is_field w \<equiv> list_all minmea_isfield w"

lemma isfield_NUL [simp]: "\<not> minmea_isfield NUL"
  by (simp add: minmea_isfield_def)

lemma delim_Nil [simp]: "delim []"
  by (simp add: delim_def isspace_def uchar_def)

lemma at_append_left: "i < length w \<Longrightarrow> byte_at (w @ rest) i = byte_at w i"
  by (simp add: byte_at_def nth_append)

lemma at_append_length [simp]: "byte_at (w @ rest) (length w) = byte_at rest 0"
  by (cases rest) (simp_all add: byte_at_def nth_append)

lemma at_append_cong:
  assumes "i \<le> length w" "P (byte_at rest 0) = P NUL"
  shows "P (byte_at (w @ rest) i) = P (byte_at w i)"
  using assms by (cases "i = length w") (simp_all add: at_append_left del: at_less)

lemma not_field:
  assumes "\<not> minmea_isfield c"
  shows "\<not> isdigit c" "digit_value c = None" "c \<noteq> CHR ''+''" "c \<noteq> CHR ''-''" "c \<noteq> CHR ''$''" "c \<noteq> CHR ''.''"
proof -
  show d: "\<not> isdigit c" using assms isdigit_isfield by auto
  have "\<not> isalpha c" using assms
    by (auto simp: isalpha_def isupper_def minmea_isfield_def isprint_def uchar_def)
  with d show "digit_value c = None" by (simp add: digit_value_def)
  show "c \<noteq> CHR ''+''" "c \<noteq> CHR ''-''" "c \<noteq> CHR ''$''" "c \<noteq> CHR ''.''"
    using assms by (auto simp: minmea_isfield_def isprint_def uchar_def)
qed

lemma first_field_char_local:
  "delim rest \<Longrightarrow> first_field_char (Some (w @ rest)) = first_field_char (Some w)"
  using at_append_cong [of 0 w minmea_isfield rest]
  by (cases w) (auto simp: first_field_char_def delim_def)

lemma scan_float_loop_local:
  "delim rest \<Longrightarrow> scan_float_loop (w @ rest) sign val scale = scan_float_loop w sign val scale"
proof (induction w arbitrary: sign val scale)
  case Nil
  then show ?case by (cases rest) (simp_all add: delim_def scan_float_loop.simps(2))
next
  case (Cons c w)
  then show ?case by (simp add: scan_float_loop.simps(2) Let_def)
qed

lemma strtol_loop_local:
  "delim rest \<Longrightarrow> strtol_loop base ov lim (w @ rest) ret flag n = strtol_loop base ov lim w ret flag n"
proof (induction w arbitrary: ret flag n)
  case Nil
  then show ?case by (cases rest) (simp_all add: delim_def not_field)
next
  case (Cons c w)
  then show ?case by (simp split: option.splits)
qed

lemma takeWhile_local:
  "\<not> P (byte_at rest 0) \<Longrightarrow> takeWhile P (w @ rest) = takeWhile P w"
  by (induction w) (cases rest; simp)+

lemma strtol_loop_consumed:
  "fst (snd (strtol_loop base ov lim w ret flag n)) = 0 \<or> snd (snd (strtol_loop base ov lim w ret flag n)) \<le> n + length w"
proof (induction w arbitrary: ret flag n)
  case (Cons c w)
  show ?case
  proof (cases "digit_value c")
    case (Some ch)
    let ?G = "flag < 0 \<or> ret > ov \<or> ret = ov \<and> ch > lim"
    show ?thesis
      using Some Cons.IH [of ret "- 1" "Suc n"] Cons.IH [of "u32 (u32 (ret * base) + ch)" 1 "Suc n"]
      by (simp split: if_split)
  qed simp
qed simp

text \<open>Base 10: where the digits start, and the number read from there.\<close>

definition num_neg :: "byte list \<Rightarrow> bool" where
  "num_neg s \<longleftrightarrow> byte_at s (length (takeWhile isspace s)) = CHR ''-''"

definition num_start :: "byte list \<Rightarrow> nat" where
  "num_start s =
     (let i0 = length (takeWhile isspace s)
      in if byte_at s i0 = CHR ''-'' \<or> byte_at s i0 = CHR ''+'' then i0 + 1 else i0)"

definition num_value :: "bool \<Rightarrow> byte list \<Rightarrow> int \<times> int \<times> nat" where
  "num_value neg ds =
     (let limit = (if neg then u32 (- LONG_MIN) else LONG_MAX)
      in strtol_loop 10 (limit div 10) (limit mod 10) ds 0 0 0)"

lemma strtol_10:
  "strtol s 10 =
     (case num_value (num_neg s) (drop (num_start s) s) of (ret, flag, n) \<Rightarrow>
        (s32 (if flag < 0 then (if num_neg s then LONG_MIN else LONG_MAX)
              else if num_neg s then u32 (- ret) else ret),
         if flag = 0 then 0 else num_start s + n))"
  by (simp add: strtol_def num_value_def num_start_def num_neg_def Let_def prod.case_eq_if)

lemma num_start_le: "num_start w \<le> length w"
proof -
  let ?i0 = "length (takeWhile isspace w)"
  have "?i0 \<le> length w" by (simp add: length_takeWhile_le)
  moreover have "byte_at w ?i0 = CHR ''-'' \<or> byte_at w ?i0 = CHR ''+'' \<Longrightarrow> Suc ?i0 \<le> length w"
    using at_ge [of w ?i0] \<open>?i0 \<le> length w\<close> by (cases "?i0 = length w") auto
  ultimately show ?thesis by (simp add: num_start_def Let_def)
qed

lemma strtol_local:
  assumes "delim rest"
  shows "strtol (w @ rest) 10 = strtol w 10"
proof -
  let ?i0 = "length (takeWhile isspace w)"
  have i0: "takeWhile isspace (w @ rest) = takeWhile isspace w" "?i0 \<le> length w"
    using assms by (simp_all add: delim_def takeWhile_local length_takeWhile_le)
  have sg: "(byte_at (w @ rest) ?i0 = CHR ''-'') = (byte_at w ?i0 = CHR ''-'')"
      "(byte_at (w @ rest) ?i0 = CHR ''+'') = (byte_at w ?i0 = CHR ''+'')"
    using at_append_cong [OF i0(2), of "\<lambda>x. x = CHR ''-''" rest]
      at_append_cong [OF i0(2), of "\<lambda>x. x = CHR ''+''" rest] not_field [of "byte_at rest 0"] assms
    by (auto simp: delim_def)
  have "num_neg (w @ rest) = num_neg w" "num_start (w @ rest) = num_start w"
    by (simp_all add: num_neg_def num_start_def i0 sg)
  then show ?thesis
    using num_start_le [of w] strtol_loop_local [OF assms]
    by (simp add: strtol_10 num_value_def prod.case_eq_if)
qed

lemma strtol_end: "snd (strtol w 10) \<le> length w"
  using num_start_le [of w]
    strtol_loop_consumed [of 10 _ _ "drop (num_start w) w" 0 0 0]
  by (auto simp: strtol_10 num_value_def Let_def prod.case_eq_if le_diff_conv2 add.commute)


lemma at_isfield_local:
  "i \<le> length w \<Longrightarrow> delim rest \<Longrightarrow> minmea_isfield (byte_at (w @ rest) i) = minmea_isfield (byte_at w i)"
  by (rule at_append_cong) (simp_all add: delim_def)

lemma scan_int_local: "delim rest \<Longrightarrow> scan_int (Some (w @ rest)) = scan_int (Some w)"
  using at_isfield_local [OF strtol_end] by (simp add: scan_int_def strtol_local prod.case_eq_if)

lemma list_all_upt_local:
  assumes "\<not> P NUL" "\<not> P (byte_at rest 0)" "k \<le> length w"
  shows "list_all (\<lambda>i. P (byte_at (w @ rest) (k + i))) [0..<n] \<longleftrightarrow> list_all (\<lambda>i. P (byte_at w (k + i))) [0..<n]"
proof (cases "n + k \<le> length w")
  case True
  then show ?thesis by (simp add: list_all_iff at_append_left del: at_less)
next
  case False
  let ?i = "length w - k"
  have "?i \<in> set [0..<n]" "\<not> P (byte_at w (k + ?i))" "\<not> P (byte_at (w @ rest) (k + ?i))"
    using False assms by auto
  then show ?thesis unfolding list_all_iff by blast
qed

lemma list_all_upt_short:
  "\<not> P NUL \<Longrightarrow> list_all (\<lambda>i. P (byte_at w (k + i))) [0..<n] \<Longrightarrow> 0 < n \<Longrightarrow> n + k \<le> length w"
  by (rule ccontr) (auto simp: list_all_iff dest!: bspec [of _ _ "n - 1"])

lemma scan_talker_local:
  assumes "delim rest"
  shows "scan_talker (Some (w @ rest)) = scan_talker (Some w)"
proof (cases w)
  case Nil
  then show ?thesis using assms not_field by (cases rest) (auto simp: scan_talker_def delim_def)
next
  case (Cons c w')
  have eq: "list_all (\<lambda>i. minmea_isfield (byte_at (w @ rest) (1 + i))) [0..<5]
      \<longleftrightarrow> list_all (\<lambda>i. minmea_isfield (byte_at w (1 + i))) [0..<5]"
    by (rule list_all_upt_local) (use assms Cons in \<open>auto simp: delim_def\<close>)
  have "map (\<lambda>i. byte_at (w @ rest) (1 + i)) [0..<5] = map (\<lambda>i. byte_at w (1 + i)) [0..<5]"
    if "list_all (\<lambda>i. minmea_isfield (byte_at w (1 + i))) [0..<5]"
    using list_all_upt_short [of minmea_isfield w 1 5] that by (auto simp: at_append_left simp del: at_less)
  with eq show ?thesis by (cases "c = CHR ''$''") (auto simp: scan_talker_def Cons)
qed

lemma six_digits_length: "six_digits w \<Longrightarrow> 6 \<le> length w"
  using list_all_upt_short [of isdigit w 0 6] by (simp add: six_digits_def)

lemma six_digits_local: "delim rest \<Longrightarrow> six_digits (w @ rest) = six_digits w"
  using list_all_upt_local [of isdigit rest 0 w 6] not_field [of "byte_at rest 0"]
  by (simp add: six_digits_def delim_def)

lemma two_digits_local: "i + 2 \<le> length w \<Longrightarrow> two_digits (w @ rest) i = two_digits w i"
  by (simp add: two_digits_def at_append_left del: at_less)

lemma scan_date_local: "delim rest \<Longrightarrow> scan_date (Some (w @ rest)) = scan_date (Some w)"
  using at_isfield_local [of 0 w rest] six_digits_local [of rest w] six_digits_length [of w]
    two_digits_local [of 0 w rest] two_digits_local [of 2 w rest] two_digits_local [of 4 w rest]
  by (cases "six_digits w") (simp_all add: scan_date_def del: at_less)

lemma micro_loop_local: "delim rest \<Longrightarrow> micro_loop (w @ rest) v s = micro_loop w v s"
proof (induction w arbitrary: v s)
  case Nil
  then show ?case by (cases rest) (simp_all add: delim_def not_field)
qed simp

lemma scan_time_local:
  assumes "delim rest"
  shows "scan_time (Some (w @ rest)) = scan_time (Some w)"
proof (cases "six_digits w")
  case True
  then have "6 \<le> length w" by (rule six_digits_length)
  then have dot: "(byte_at (w @ rest) 6 = CHR ''.'') = (byte_at w 6 = CHR ''.'')"
    using at_append_cong [of 6 w "\<lambda>x. x = CHR ''.''" rest] assms not_field [of "byte_at rest 0"]
    by (simp add: delim_def)
  moreover have "byte_at w 6 = CHR ''.'' \<Longrightarrow> 7 \<le> length w"
    using at_ge [of w 6] by (cases "7 \<le> length w") auto
  ultimately show ?thesis
    using True \<open>6 \<le> length w\<close> at_isfield_local [of 0 w rest] assms micro_loop_local [of rest "drop 7 w"]
    by (auto simp: scan_time_def two_digits_local six_digits_local simp del: at_less)
next
  case False
  then show ?thesis
    using at_isfield_local [of 0 w rest] assms by (simp add: scan_time_def six_digits_local del: at_less)
qed

lemma scan_field_local:
  assumes "delim rest"
  shows "scan_field t (Some (w @ rest)) = scan_field t (Some w)"
proof -
  have "scan_string (Some (w @ rest)) = scan_string (Some w)"
    using assms by (simp add: scan_string_def delim_def takeWhile_local)
  moreover have "scan_float (Some (w @ rest)) = scan_float (Some w)"
    using assms by (simp add: scan_float_def scan_float_loop_local)
  ultimately show ?thesis
    using assms by (simp add: scan_field_def scan_char_def scan_direction_def first_field_char_local
        scan_int_local scan_talker_local scan_date_local scan_time_local)
qed

section \<open>The scanner on a sentence split byte_at its commas\<close>

fun join_fields :: "byte list list \<Rightarrow> byte list" where
  "join_fields [] = []"
| "join_fields [w] = w"
| "join_fields (w # ws) = w @ CHR '','' # join_fields ws"

fun scan_fields :: "byte list \<Rightarrow> bool \<Rightarrow> byte list list \<Rightarrow> bool \<times> sval list" where
  "scan_fields [] optional ws = (True, [])"
| "scan_fields (type # format) optional ws =
     (if type = CHR '';'' then scan_fields format True ws
      else if ws = [] \<and> \<not> optional then (False, [])
      else case scan_field type (case ws of [] \<Rightarrow> None | w # _ \<Rightarrow> Some w) of
             Parse_Error \<Rightarrow> (False, [])
           | Skipped \<Rightarrow> scan_fields format optional (tl ws)
           | Stored v \<Rightarrow> (let (ok, vs) = scan_fields format optional (tl ws) in (ok, v # vs)))"

text \<open>The end of the field list: a byte that is neither a field character, white space nor a comma.\<close>

definition end_fields :: "byte list \<Rightarrow> bool" where
  "end_fields rest \<longleftrightarrow> delim rest \<and> byte_at rest 0 \<noteq> CHR '',''"

lemma delim_comma: "delim (CHR '','' # s)"
  by (simp add: delim_def minmea_isfield_def isspace_def uchar_def)

lemma next_field_split:
  assumes "is_field w" "delim rest"
  shows "next_field (w @ rest) = (if byte_at rest 0 = CHR '','' then (tl rest, Some (tl rest)) else (rest, None))"
proof -
  have "dropWhile minmea_isfield (w @ rest) = rest"
    using assms by (induction w) (cases rest; auto simp: delim_def)+
  then show ?thesis by (simp add: next_field_def)
qed

text \<open>The scanner's two pointers, when the fields \<open>ws\<close> are still to be read.\<close>

fun field_ptr :: "byte list list \<Rightarrow> byte list \<Rightarrow> byte list option" where
  "field_ptr [] rest = None"
| "field_ptr ws rest = Some (join_fields ws @ rest)"

lemma join_fields_Cons: "ws \<noteq> [] \<Longrightarrow> join_fields (w # ws) = w @ CHR '','' # join_fields ws"
  by (cases ws) simp_all

lemma next_field_join:
  assumes "is_field w" "end_fields rest"
  shows "next_field (join_fields (w # ws) @ rest) = (join_fields ws @ rest, field_ptr ws rest)"
proof (cases "ws = []")
  case True
  then show ?thesis using next_field_split [OF assms(1)] assms(2) by (simp add: end_fields_def)
next
  case False
  then obtain x xs where "ws = x # xs" by (cases ws) auto
  then show ?thesis
    using next_field_split [OF assms(1) delim_comma, of "join_fields ws @ rest"]
    by (simp add: join_fields_Cons)
qed

lemma next_field_end: "end_fields rest \<Longrightarrow> next_field rest = (rest, None)"
  using next_field_split [of "[]" rest] by (simp add: end_fields_def)

lemma scan_field_join:
  assumes "end_fields rest"
  shows "scan_field t (Some (join_fields (w # ws) @ rest)) = scan_field t (Some w)"
proof (cases "ws = []")
  case True
  then show ?thesis using assms by (simp add: scan_field_local end_fields_def)
next
  case False
  then show ?thesis using scan_field_local [OF delim_comma] by (simp add: join_fields_Cons)
qed

theorem scan_loop_fields:
  assumes "list_all is_field ws" "end_fields rest"
  shows "scan_loop format optional (field_ptr ws rest) (join_fields ws @ rest) = scan_fields format optional ws"
  using assms(1)
proof (induction format arbitrary: optional ws)
  case (Cons t format)
  show ?case
  proof (cases ws)
    case Nil
    then show ?thesis
      using Cons.IH [where ws = "[]"] next_field_end [OF assms(2)] by (simp split: field_result.split)
  next
    case ws: (Cons w ws')
    have n: "next_field (join_fields (w # ws') @ rest) = (join_fields ws' @ rest, field_ptr ws' rest)"
      using next_field_join assms(2) Cons.prems ws by simp
    have "list_all is_field ws'" using Cons.prems ws by simp
    then show ?thesis
      using Cons.IH [where ws = ws'] Cons.IH [OF Cons.prems] scan_field_join [OF assms(2), of t w ws'] ws n
      by (simp split: field_result.split del: join_fields.simps)
  qed
qed simp

lemma minmea_scan_fields:
  assumes "list_all is_field ws" "ws \<noteq> []" "end_fields rest"
  shows "minmea_scan (join_fields ws @ rest) format = scan_fields format False ws"
proof -
  have "field_ptr ws rest = Some (join_fields ws @ rest)" using assms(2) by (cases ws) simp_all
  then show ?thesis
    using scan_loop_fields [OF assms(1,3), of format False] by (simp add: minmea_scan_def)
qed

section \<open>The values stored\<close>

theorem scan_field_ok:
  assumes "scan_field t field = Stored v"
  shows "sval_ok v \<and> letter_of v = t"
proof -
  have f: "sval_ok v" if s: "scan_float field = Stored v"
  proof -
    obtain sign val scale where sc:
      "(case field of None \<Rightarrow> Some (0, - 1, 0) | Some f \<Rightarrow> scan_float_loop f 0 (- 1) 0) = Some (sign, val, scale)"
      using s by (auto simp: scan_float_def split: option.splits prod.splits)
    then have r: "- 1 \<le> val \<and> val \<le> INT_MAX \<and> sign \<in> {- 1, 0, 1} \<and> in_s32 scale"
      using scan_float_loop_ok [of _ 0 "- 1" 0 sign val scale]
      by (auto simp: in_s32_def INT_MAX_def split: option.splits)
    have a: "0 \<le> x \<Longrightarrow> x \<le> INT_MAX \<Longrightarrow> \<bar>s32 (x * sign)\<bar> \<le> INT_MAX" for x
      using r by (auto simp: INT_MAX_def s32_id)
    show ?thesis
      using s r a [of val] unfolding scan_float_def sc
      by (auto simp: mf_ok_def Let_def in_s32_def INT_MAX_def s32_id split: if_splits)
  qed
  have i: "sval_ok v" if "scan_int field = Stored v"
    using that strtol_range [of _ 10]
    by (auto simp: scan_int_def in_s32_def split: option.splits prod.splits if_splits)
      (metis fst_conv strtol_range in_s32_def)+
  have t: "sval_ok v" if "scan_talker field = Stored v"
    using that by (auto simp: scan_talker_def list_all_iff split: option.splits if_splits)
  show ?thesis
    using assms f i t
    by (auto simp: scan_field_def scan_char_def scan_direction_def scan_float_def scan_int_def
        scan_string_def scan_talker_def scan_date_def scan_time_def Let_def
        split: if_splits option.splits prod.splits)
qed

lemma letters_Cons [simp]:
  "letters (t # format) = (if t = CHR '';'' \<or> t = CHR ''_'' then letters format else t # letters format)"
  by (simp add: letters_def)

lemma letter_of_not_special: "letter_of v \<noteq> CHR '';''" "letter_of v \<noteq> CHR ''_''"
  by (cases v; simp)+

lemma scan_loop_letters:
  assumes "scan_loop format optional field sentence = (ok, vs)"
  shows "list_all sval_ok vs \<and> (if ok then map letter_of vs = letters format else prefix (map letter_of vs) (letters format))"
  using assms
proof (induction format arbitrary: optional field sentence ok vs)
  case Nil
  then show ?case by (simp add: letters_def)
next
  case (Cons t format)
  obtain s' f' where nf: "next_field sentence = (s', f')" by fastforce
  show ?case
  proof (cases "t = CHR '';''")
    case True
    then show ?thesis using Cons.IH Cons.prems by simp
  next
    case notopt: False
    show ?thesis
    proof (cases "scan_field t field")
      case (Stored v)
      from scan_field_ok [OF this] have v: "sval_ok v" "letter_of v = t" by auto
      show ?thesis
      proof (cases "field = None \<and> \<not> optional")
        case True
        then show ?thesis using Cons.prems notopt by auto
      next
        case False
        obtain ok' ws where r: "scan_loop format optional f' s' = (ok', ws)" by fastforce
        then have "ok = ok'" "vs = v # ws" using Cons.prems Stored nf notopt False by auto
        with Cons.IH [OF r] v letter_of_not_special [of v] show ?thesis by auto
      qed
    next
      case Skipped
      then have "t = CHR ''_''"
        by (auto simp: scan_field_def scan_char_def scan_direction_def scan_float_def scan_int_def
            scan_string_def scan_talker_def scan_date_def scan_time_def Let_def
            split: if_splits option.splits prod.splits)
      then show ?thesis using Cons.prems Cons.IH [of optional f' s'] Skipped nf by (auto split: if_splits)
    next
      case Parse_Error
      then show ?thesis using Cons.prems nf notopt by (auto split: if_splits)
    qed
  qed
qed

lemma minmea_scan_letters:
  "minmea_scan s format = (ok, vs) \<Longrightarrow> list_all sval_ok vs
     \<and> (if ok then map letter_of vs = letters format else prefix (map letter_of vs) (letters format))"
  by (simp add: minmea_scan_def scan_loop_letters)

lemma minmea_scan_count:
  assumes "minmea_scan s format = (ok, vs)"
  shows "length vs \<le> length (letters format)" "ok \<Longrightarrow> length vs = length (letters format)"
proof -
  note l = minmea_scan_letters [OF assms]
  then show "length vs \<le> length (letters format)"
    by (cases ok) (auto dest: prefix_length_le arg_cong [where f = length])
  show "ok \<Longrightarrow> length vs = length (letters format)"
    using l by (auto dest: arg_cong [where f = length])
qed

section \<open>Decimal fields\<close>

lemma s32_mult_left: "s32 (s32 x * y) = s32 (x * y)"
proof -
  have "(s32 x * y) mod 2 ^ 32 = (x * y) mod 2 ^ 32"
  proof -
    have "s32 x mod 2 ^ 32 = x mod 2 ^ 32"
      unfolding s32_def by (metis add_diff_cancel_right' mod_diff_left_eq)
    then show ?thesis by (metis mod_mult_left_eq)
  qed
  then show ?thesis unfolding s32_def by (metis mod_add_left_eq)
qed

lemma s32_eq_0: "s32 x = 0 \<longleftrightarrow> 2 ^ 32 dvd x"
proof -
  have "s32 x = 0 \<longleftrightarrow> (x + 2 ^ 31) mod 2 ^ 32 = 2 ^ 31 mod 2 ^ 32" by (simp add: s32_def)
  also have "\<dots> \<longleftrightarrow> 2 ^ 32 dvd x + 2 ^ 31 - 2 ^ 31" by (rule mod_eq_dvd_iff)
  finally show ?thesis by simp
qed

lemma scale_nonzero: "k < 32 \<Longrightarrow> s32 (10 ^ k) \<noteq> 0"
proof
  assume "k < 32" and "s32 (10 ^ k) = 0"
  then have "(2::int) ^ 32 dvd 2 ^ k * 5 ^ k"
    by (simp add: s32_eq_0 flip: power_mult_distrib)
  moreover have "coprime (2::int) 5" by simp
  then have "coprime ((2::int) ^ 32) (5 ^ k)" by (simp only: coprime_power_left_iff coprime_power_right_iff) simp
  ultimately have "(2::int) ^ 32 dvd 2 ^ k" using coprime_dvd_mult_left_iff by blast
  then have "(2::int) ^ 32 \<le> 2 ^ k" by (rule zdvd_imp_le) simp
  with \<open>k < 32\<close> show False by (simp add: power_increasing_iff del: power_numeral)
qed

lemma dec_val_snoc: "dec_from a (xs @ [c]) = 10 * dec_from a xs + (uchar c - 48)"
  by (simp add: dec_from_append)

lemma float_digits:
  assumes "\<forall>c\<in>set ds. isdigit c" "0 \<le> v" "dec_from v ds \<le> INT_MAX"
  shows "scan_float_loop (ds @ rest) sign v 0 = scan_float_loop rest sign (dec_from v ds) 0"
  using assms
proof (induction ds arbitrary: v)
  case (Cons c ds)
  let ?n = "10 * v + (uchar c - 48)"
  have c: "isdigit c" and n: "0 \<le> ?n" using Cons.prems digit_bounds [of c] by auto
  have "?n \<le> dec_from ?n ds" using Cons.prems n by (intro dec_from_mono) auto
  then show ?case
    using Cons.prems n Cons.IH [of ?n] by (simp add: scan_float_digit [OF c] mult.commute)
qed simp

lemma fraction_digits:
  assumes "\<forall>c\<in>set ds. isdigit c" "0 \<le> v" "dec_from v ds \<le> INT_MAX" "k + length ds < 32"
  shows "scan_float_loop (ds @ rest) sign v (s32 (10 ^ k)) =
    scan_float_loop rest sign (dec_from v ds) (s32 (10 ^ (k + length ds)))"
  using assms
proof (induction ds arbitrary: v k)
  case (Cons c ds)
  let ?n = "10 * v + (uchar c - 48)"
  have c: "isdigit c" and n: "0 \<le> ?n" using Cons.prems digit_bounds [of c] by auto
  have "?n \<le> dec_from ?n ds" using Cons.prems n by (intro dec_from_mono) auto
  moreover have "s32 (s32 (10 ^ k) * 10) = s32 (10 ^ Suc k)"
    using s32_mult_left [of "10 ^ k" 10] by (simp add: mult.commute)
  ultimately show ?case
    using Cons.prems n Cons.IH [of ?n "Suc k"] scale_nonzero [of k]
    by (simp add: scan_float_digit [OF c] mult.commute)
qed simp

text \<open>The first digit replaces the marker \<open>- 1\<close>, in either part of the number.\<close>

lemma float_first:
  assumes "isdigit c"
  shows "scan_float_loop (c # f) sign (- 1) scale = scan_float_loop (c # f) sign 0 scale"
  using assms by (simp add: scan_float_digit)

definition decimal :: "byte list \<Rightarrow> byte list \<Rightarrow> bool" where
  "decimal ip fp \<longleftrightarrow> (\<forall>c\<in>set (ip @ fp). isdigit c) \<and> ip @ fp \<noteq> [] \<and> dec_val (ip @ fp) \<le> INT_MAX"

lemma dec_val_parts:
  assumes "\<forall>c\<in>set (ip @ fp). isdigit c" "dec_val (ip @ fp) \<le> INT_MAX"
  shows "0 \<le> dec_val ip \<and> dec_val ip \<le> INT_MAX"
proof -
  have "0 \<le> dec_val ip" using assms dec_from_mono [of ip 0] by auto
  moreover from this have "dec_val ip \<le> dec_from (dec_val ip) fp"
    using assms(1) dec_from_mono [of fp "dec_val ip"] by auto
  ultimately show ?thesis using assms by (simp add: dec_from_append)
qed

lemma float_loop_decimal:
  assumes "decimal ip fp" "length fp < 32"
  shows "scan_float_loop (ip @ CHR ''.'' # fp) sign (- 1) 0
    = Some (sign, dec_val (ip @ fp), s32 (10 ^ length fp))"
proof -
  have dot: "\<not> isdigit CHR ''.''" "minmea_isfield CHR ''.''"
    by (simp_all add: isdigit_def minmea_isfield_def isprint_def uchar_def)
  have ip: "\<forall>c\<in>set ip. isdigit c" and fp: "\<forall>c\<in>set fp. isdigit c" and m: "dec_val (ip @ fp) \<le> INT_MAX"
    using assms by (auto simp: decimal_def)
  have p: "0 \<le> dec_val ip" "dec_val ip \<le> INT_MAX"
    using dec_val_parts [of ip fp] assms by (auto simp: decimal_def)
  have one: "s32 1 = 1" by (simp add: s32_def)
  show ?thesis
  proof (cases ip)
    case Nil
    then obtain c fp' where fp': "fp = c # fp'" using assms(1) by (cases fp) (auto simp: decimal_def)
    then have "scan_float_loop fp sign (- 1) 1 = scan_float_loop fp sign 0 1"
      using fp float_first by simp
    also have "\<dots> = Some (sign, dec_val fp, s32 (10 ^ length fp))"
      using fraction_digits [OF fp, of 0 0 "[]" sign] one m assms(2) Nil by simp
    finally show ?thesis using Nil dot by (simp add: scan_float_nondigit)
  next
    case (Cons c ip')
    have "scan_float_loop (ip @ CHR ''.'' # fp) sign (- 1) 0 = scan_float_loop (ip @ CHR ''.'' # fp) sign 0 0"
      using ip Cons float_first by simp
    also have "\<dots> = scan_float_loop (CHR ''.'' # fp) sign (dec_val ip) 0"
      using float_digits [OF ip _ p(2)] by simp
    also have "\<dots> = scan_float_loop fp sign (dec_val ip) 1"
      using dot by (simp add: scan_float_nondigit)
    also have "\<dots> = Some (sign, dec_val (ip @ fp), s32 (10 ^ length fp))"
      using fraction_digits [OF fp p(1), of 0 "[]" sign] one m assms(2) by (simp add: dec_from_append)
    finally show ?thesis .
  qed
qed

lemma scan_float_decimal:
  assumes "decimal ip fp" "length fp < 32"
  shows "scan_float (Some (ip @ CHR ''.'' # fp))
    = Stored (VFloat \<lparr>mf_value = dec_val (ip @ fp), mf_scale = s32 (10 ^ length fp)\<rparr>)"
proof -
  have "0 \<le> dec_val (ip @ fp)" using assms(1) dec_from_mono [of "ip @ fp" 0] by (simp add: decimal_def)
  then show ?thesis
    using float_loop_decimal [OF assms, of 0] scale_nonzero [OF assms(2)]
    by (simp add: scan_float_def dec_from_append)
qed

lemma scan_float_negative:
  assumes "decimal ip fp" "length fp < 32"
  shows "scan_float (Some (CHR ''-'' # ip @ CHR ''.'' # fp))
    = Stored (VFloat \<lparr>mf_value = - dec_val (ip @ fp), mf_scale = s32 (10 ^ length fp)\<rparr>)"
proof -
  have minus: "\<not> isdigit CHR ''-''" "minmea_isfield CHR ''-''"
    by (simp_all add: isdigit_def minmea_isfield_def isprint_def uchar_def)
  have "0 \<le> dec_val (ip @ fp)" "dec_val (ip @ fp) \<le> INT_MAX"
    using assms(1) dec_from_mono [of "ip @ fp" 0] by (simp_all add: decimal_def)
  then show ?thesis
    using float_loop_decimal [OF assms, of "- 1"] scale_nonzero [OF assms(2)] minus
    by (simp add: scan_float_def dec_from_append scan_float_nondigit s32_id INT_MAX_def)
qed

lemma scan_float_integer:
  assumes "decimal ip []"
  shows "scan_float (Some ip) = Stored (VFloat \<lparr>mf_value = dec_val ip, mf_scale = 1\<rparr>)"
proof -
  obtain c ip' where "ip = c # ip'" using assms by (cases ip) (auto simp: decimal_def)
  then have "scan_float_loop ip 0 (- 1) 0 = Some (0, dec_val ip, 0)"
    using assms float_digits [of ip 0 "[]" 0] float_first [of c ip' 0 0] by (auto simp: decimal_def)
  moreover have "0 \<le> dec_val ip" using assms dec_from_mono [of ip 0] by (simp add: decimal_def)
  ultimately show ?thesis by (simp add: scan_float_def)
qed

lemma scan_float_empty [simp]: "scan_float (Some []) = Stored (VFloat \<lparr>mf_value = 0, mf_scale = 0\<rparr>)"
  by (simp add: scan_float_def)

text \<open>Up to nine decimals the scale is the power of ten itself.\<close>

lemma scale_exact: "n \<le> 9 \<Longrightarrow> s32 (10 ^ n) = 10 ^ n"
proof -
  assume "n \<le> 9"
  then have "(10::int) ^ n \<le> 10 ^ 9" by (intro power_increasing) auto
  moreover have "0 \<le> (10::int) ^ n" by simp
  ultimately show ?thesis by (simp add: s32_id del: zero_le_power)
qed

section \<open>Numbers with more digits than fit\<close>

lemma fraction_truncates:
  assumes "\<forall>c\<in>set ds. isdigit c" "0 \<le> v" "k + length ds < 32"
  shows "\<exists>n\<le>length ds. scan_float_loop ds sign v (s32 (10 ^ k)) =
      Some (sign, dec_from v (take n ds), s32 (10 ^ (k + n)))
    \<and> (n < length ds \<longrightarrow> INT_MAX < dec_from v (take (Suc n) ds))"
  using assms
proof (induction ds arbitrary: v k)
  case (Cons c ds)
  let ?v = "10 * v + (uchar c - 48)"
  have c: "isdigit c" and v: "0 \<le> ?v" using Cons.prems digit_bounds [of c] by auto
  have sc: "s32 (10 ^ k) \<noteq> 0" "s32 (s32 (10 ^ k) * 10) = s32 (10 ^ Suc k)"
    using scale_nonzero [of k] s32_mult_left [of "10 ^ k" 10] Cons.prems(3) by (simp_all add: mult.commute)
  show ?case
  proof (cases "INT_MAX < ?v")
    case True
    then show ?thesis using Cons.prems(2) c sc by (intro exI [of _ 0]) (simp add: scan_float_digit mult.commute)
  next
    case False
    obtain n where n: "n \<le> length ds" "scan_float_loop ds sign ?v (s32 (10 ^ Suc k)) =
        Some (sign, dec_from ?v (take n ds), s32 (10 ^ (Suc k + n)))"
      "n < length ds \<longrightarrow> INT_MAX < dec_from ?v (take (Suc n) ds)"
      using Cons.IH [OF _ v, of "Suc k"] Cons.prems by auto
    show ?thesis
      using False n c v sc Cons.prems(2) by (intro exI [of _ "Suc n"]) (simp add: scan_float_digit mult.commute)
  qed
qed (simp add: scan_float_nondigit)



section \<open>Claims\<close>

text \<open>C18: The scanner, one pass with two pointers into the sentence, computes the same result as reading the
  comma-separated fields one by one with the reference \<open>scan_fields\<close>, whatever the format: no field is
  read beyond its comma and none is skipped.\<close>

theorem scan_reads_fields:
  assumes "list_all is_field ws" "ws \<noteq> []" "end_fields rest"
  shows "minmea_scan (join_fields ws @ rest) format = scan_fields format False ws"
  by (rule minmea_scan_fields [OF assms])

theorem scan_reads_fields_witness:
  "minmea_scan ''$GNVTG,306.43,T,,M,7*2B'' ''tfcfci'' =
     (True, [VType ''GNVTG'', VFloat \<lparr>mf_value = 30643, mf_scale = 100\<rparr>, VChar CHR ''T'',
       VFloat \<lparr>mf_value = 0, mf_scale = 0\<rparr>, VChar CHR ''M'', VInt 7])"
proof -
  have f: "list_all is_field [''$GNVTG'', ''306.43'', ''T'', [], ''M'', ''7'']" "end_fields ''*2B''" by code_simp+
  have "scan_fields ''tfcfci'' False [''$GNVTG'', ''306.43'', ''T'', [], ''M'', ''7''] =
     (True, [VType ''GNVTG'', VFloat \<lparr>mf_value = 30643, mf_scale = 100\<rparr>, VChar CHR ''T'',
       VFloat \<lparr>mf_value = 0, mf_scale = 0\<rparr>, VChar CHR ''M'', VInt 7])" by code_simp
  with scan_reads_fields [OF f(1) _ f(2), of "''tfcfci''"] show ?thesis by simp
qed

text \<open>A decimal field is read exactly, with either sign: the value is the number its digits spell and
  the scale the power of ten of its decimals, up to the nine that a 32-bit scale can hold.\<close>

theorem scan_float_exact:
  assumes "decimal ip fp" "length fp \<le> 9"
  shows "scan_float (Some (ip @ CHR ''.'' # fp))
      = Stored (VFloat \<lparr>mf_value = dec_val (ip @ fp), mf_scale = 10 ^ length fp\<rparr>)
    \<and> scan_float (Some (CHR ''-'' # ip @ CHR ''.'' # fp))
      = Stored (VFloat \<lparr>mf_value = - dec_val (ip @ fp), mf_scale = 10 ^ length fp\<rparr>)"
  using scan_float_decimal [OF assms(1)] scan_float_negative [OF assms(1)] assms(2) by (simp add: scale_exact)

theorem scan_float_exact_witness:
  "scan_float (Some ''-2234.7758'') = Stored (VFloat \<lparr>mf_value = - 22347758, mf_scale = 10000\<rparr>)"
proof -
  have "decimal ''2234'' ''7758''" by (simp add: decimal_def isdigit_def uchar_def INT_MAX_def)
  from scan_float_exact [OF this] show ?thesis by (simp add: uchar_def)
qed

text \<open>With ten decimals the scale leaves its 32 bits: the field 0.0000000000 is stored with the scale
  1410065408, and with thirty-two zeros the scale has become zero and the field counts as an integer.\<close>

theorem scan_float_scale_wraps:
  "scan_float (Some ''0.0000000000'') = Stored (VFloat \<lparr>mf_value = 0, mf_scale = 1410065408\<rparr>)
    \<and> scan_float (Some (''0.'' @ replicate 32 CHR ''0'')) = Stored (VFloat \<lparr>mf_value = 0, mf_scale = 1\<rparr>)"
proof
  have "decimal ''0'' ''0000000000''" by (simp add: decimal_def isdigit_def uchar_def INT_MAX_def)
  from scan_float_decimal [OF this] show
    "scan_float (Some ''0.0000000000'') = Stored (VFloat \<lparr>mf_value = 0, mf_scale = 1410065408\<rparr>)"
    by (simp add: uchar_def s32_def)
  show "scan_float (Some (''0.'' @ replicate 32 CHR ''0'')) = Stored (VFloat \<lparr>mf_value = 0, mf_scale = 1\<rparr>)"
    by code_simp
qed

end
