(* ===== verification/Minmea_Parse.thy ===== *)
theory Minmea_Parse
  imports Minmea_Fields
begin

text \<open>
  The sentence parsers of \<^verbatim>\<open>firmware/libs/gps/minmea/src/minmea.c\<close>, with the frames and the
  fixed-point helpers of \<^verbatim>\<open>minmea.h\<close>. A parser maps the frame it is given to the frame it leaves:
  the scanner writes each field through its argument pointer as it goes, so a parse that fails has
  written the fields before the failing one.
\<close>

section \<open>Frames\<close>

datatype minmea_sentence_id_t =
    MINMEA_INVALID
  | MINMEA_UNKNOWN
  | MINMEA_SENTENCE_RMC
  | MINMEA_SENTENCE_GGA
  | MINMEA_SENTENCE_GSA
  | MINMEA_SENTENCE_GLL
  | MINMEA_SENTENCE_GST
  | MINMEA_SENTENCE_GSV
  | MINMEA_SENTENCE_VTG
  | MINMEA_SENTENCE_ZDA

record minmea_sentence_rmc =
  rmc_time :: minmea_time
  rmc_valid :: bool
  rmc_latitude :: minmea_float
  rmc_longitude :: minmea_float
  rmc_speed :: minmea_float
  rmc_course :: minmea_float
  rmc_date :: minmea_date
  rmc_variation :: minmea_float

record minmea_sentence_gga =
  gga_time :: minmea_time
  gga_latitude :: minmea_float
  gga_longitude :: minmea_float
  gga_fix_quality :: int
  gga_satellites_tracked :: int
  gga_hdop :: minmea_float
  gga_altitude :: minmea_float
  gga_altitude_units :: byte
  gga_height :: minmea_float
  gga_height_units :: byte
  gga_dgps_age :: minmea_float

record minmea_sentence_gll =
  gll_latitude :: minmea_float
  gll_longitude :: minmea_float
  gll_time :: minmea_time
  gll_status :: byte
  gll_mode :: byte

record minmea_sentence_gst =
  gst_time :: minmea_time
  gst_rms_deviation :: minmea_float
  gst_semi_major_deviation :: minmea_float
  gst_semi_minor_deviation :: minmea_float
  gst_semi_major_orientation :: minmea_float
  gst_latitude_error_deviation :: minmea_float
  gst_longitude_error_deviation :: minmea_float
  gst_altitude_error_deviation :: minmea_float

record minmea_sentence_gsa =
  gsa_mode :: byte
  gsa_fix_type :: int
  gsa_sats :: "int list"
  gsa_pdop :: minmea_float
  gsa_hdop :: minmea_float
  gsa_vdop :: minmea_float

record minmea_sat_info =
  sat_nr :: int
  sat_elevation :: int
  sat_azimuth :: int
  sat_snr :: int

record minmea_sentence_gsv =
  gsv_total_msgs :: int
  gsv_msg_nr :: int
  gsv_total_sats :: int
  gsv_sats :: "minmea_sat_info list"

record minmea_sentence_vtg =
  vtg_true_track_degrees :: minmea_float
  vtg_magnetic_track_degrees :: minmea_float
  vtg_speed_knots :: minmea_float
  vtg_speed_kph :: minmea_float
  vtg_faa_mode :: byte

record minmea_sentence_zda =
  zda_time :: minmea_time
  zda_date :: minmea_date
  zda_hour_offset :: int
  zda_minute_offset :: int

section \<open>Writing through the argument pointers\<close>

type_synonym 'f writer = "sval \<Rightarrow> 'f \<Rightarrow> 'f"

definition store :: "'f writer list \<Rightarrow> sval list \<Rightarrow> 'f \<Rightarrow> 'f" where
  "store args vs frame = fold (\<lambda>(w, v). w v) (zip args vs) frame"

text \<open>An argument that points to a local variable leaves the frame alone.\<close>

definition local_var :: "'f writer" where
  "local_var v frame = frame"

definition to_float :: "((minmea_float \<Rightarrow> minmea_float) \<Rightarrow> 'f \<Rightarrow> 'f) \<Rightarrow> 'f writer" where
  "to_float upd v = (case v of VFloat x \<Rightarrow> upd (\<lambda>_. x) | _ \<Rightarrow> id)"

definition to_int :: "((int \<Rightarrow> int) \<Rightarrow> 'f \<Rightarrow> 'f) \<Rightarrow> 'f writer" where
  "to_int upd v = (case v of VInt x \<Rightarrow> upd (\<lambda>_. x) | _ \<Rightarrow> id)"

definition to_char :: "((byte \<Rightarrow> byte) \<Rightarrow> 'f \<Rightarrow> 'f) \<Rightarrow> 'f writer" where
  "to_char upd v = (case v of VChar x \<Rightarrow> upd (\<lambda>_. x) | _ \<Rightarrow> id)"

definition to_time :: "((minmea_time \<Rightarrow> minmea_time) \<Rightarrow> 'f \<Rightarrow> 'f) \<Rightarrow> 'f writer" where
  "to_time upd v = (case v of VTime x \<Rightarrow> upd (\<lambda>_. x) | _ \<Rightarrow> id)"

definition to_date :: "((minmea_date \<Rightarrow> minmea_date) \<Rightarrow> 'f \<Rightarrow> 'f) \<Rightarrow> 'f writer" where
  "to_date upd v = (case v of VDate x \<Rightarrow> upd (\<lambda>_. x) | _ \<Rightarrow> id)"

fun dir_of :: "sval \<Rightarrow> int" where
  "dir_of (VDir d) = d"
| "dir_of _ = 0"

fun char_of_sval :: "sval \<Rightarrow> byte" where
  "char_of_sval (VChar c) = c"
| "char_of_sval _ = NUL"

fun type_of_sval :: "sval \<Rightarrow> byte list" where
  "type_of_sval (VType t) = t"
| "type_of_sval _ = []"

text \<open>\<open>frame->latitude.value *= latitude_direction\<close>\<close>

definition apply_dir :: "int \<Rightarrow> minmea_float \<Rightarrow> minmea_float" where
  "apply_dir d f = f\<lparr>mf_value := s32 (mf_value f * d)\<rparr>"

section \<open>Identification\<close>

definition minmea_talker_id :: "byte list \<Rightarrow> byte list option" where
  "minmea_talker_id sentence =
     (let (ok, vs) = minmea_scan sentence ''t''
      in if \<not> ok then None else Some (take 2 (type_of_sval (vs ! 0))))"

definition minmea_sentence_id :: "byte list \<Rightarrow> bool \<Rightarrow> minmea_sentence_id_t" where
  "minmea_sentence_id sentence strict =
     (if \<not> minmea_check sentence strict then MINMEA_INVALID
      else let (ok, vs) = minmea_scan sentence ''t''
      in if \<not> ok then MINMEA_INVALID
         else let id = drop 2 (type_of_sval (vs ! 0))
         in if id = ''RMC'' then MINMEA_SENTENCE_RMC
            else if id = ''GGA'' then MINMEA_SENTENCE_GGA
            else if id = ''GSA'' then MINMEA_SENTENCE_GSA
            else if id = ''GLL'' then MINMEA_SENTENCE_GLL
            else if id = ''GST'' then MINMEA_SENTENCE_GST
            else if id = ''GSV'' then MINMEA_SENTENCE_GSV
            else if id = ''VTG'' then MINMEA_SENTENCE_VTG
            else if id = ''ZDA'' then MINMEA_SENTENCE_ZDA
            else MINMEA_UNKNOWN)"

section \<open>The parsers\<close>

definition rmc_args :: "minmea_sentence_rmc writer list" where
  "rmc_args =
     [local_var, to_time rmc_time_update, local_var,
      to_float rmc_latitude_update, local_var, to_float rmc_longitude_update, local_var,
      to_float rmc_speed_update, to_float rmc_course_update, to_date rmc_date_update,
      to_float rmc_variation_update, local_var]"

definition minmea_parse_rmc :: "minmea_sentence_rmc \<Rightarrow> byte list \<Rightarrow> bool \<times> minmea_sentence_rmc" where
  "minmea_parse_rmc frame sentence =
     (let (ok, vs) = minmea_scan sentence ''tTcfdfdffDfd'';
          frame1 = store rmc_args vs frame
      in if \<not> ok then (False, frame1)
         else if drop 2 (type_of_sval (vs ! 0)) \<noteq> ''RMC'' then (False, frame1)
         else (True, frame1
                \<lparr>rmc_valid := (char_of_sval (vs ! 2) = CHR ''A''),
                 rmc_latitude := apply_dir (dir_of (vs ! 4)) (rmc_latitude frame1),
                 rmc_longitude := apply_dir (dir_of (vs ! 6)) (rmc_longitude frame1),
                 rmc_variation := apply_dir (dir_of (vs ! 11)) (rmc_variation frame1)\<rparr>))"

definition gga_args :: "minmea_sentence_gga writer list" where
  "gga_args =
     [local_var, to_time gga_time_update,
      to_float gga_latitude_update, local_var, to_float gga_longitude_update, local_var,
      to_int gga_fix_quality_update, to_int gga_satellites_tracked_update, to_float gga_hdop_update,
      to_float gga_altitude_update, to_char gga_altitude_units_update,
      to_float gga_height_update, to_char gga_height_units_update, to_float gga_dgps_age_update]"

definition minmea_parse_gga :: "minmea_sentence_gga \<Rightarrow> byte list \<Rightarrow> bool \<times> minmea_sentence_gga" where
  "minmea_parse_gga frame sentence =
     (let (ok, vs) = minmea_scan sentence ''tTfdfdiiffcfcf_'';
          frame1 = store gga_args vs frame
      in if \<not> ok then (False, frame1)
         else if drop 2 (type_of_sval (vs ! 0)) \<noteq> ''GGA'' then (False, frame1)
         else (True, frame1
                \<lparr>gga_latitude := apply_dir (dir_of (vs ! 3)) (gga_latitude frame1),
                 gga_longitude := apply_dir (dir_of (vs ! 5)) (gga_longitude frame1)\<rparr>))"

definition gsa_args :: "minmea_sentence_gsa writer list" where
  "gsa_args =
     [local_var, to_char gsa_mode_update, to_int gsa_fix_type_update] @
     map (\<lambda>i. to_int (\<lambda>f. gsa_sats_update (\<lambda>s. s[i := f (s ! i)]))) [0..<12] @
     [to_float gsa_pdop_update, to_float gsa_hdop_update, to_float gsa_vdop_update]"

definition minmea_parse_gsa :: "minmea_sentence_gsa \<Rightarrow> byte list \<Rightarrow> bool \<times> minmea_sentence_gsa" where
  "minmea_parse_gsa frame sentence =
     (let (ok, vs) = minmea_scan sentence ''tciiiiiiiiiiiiifff'';
          frame1 = store gsa_args vs frame
      in if \<not> ok then (False, frame1)
         else if drop 2 (type_of_sval (vs ! 0)) \<noteq> ''GSA'' then (False, frame1)
         else (True, frame1))"

definition gll_args :: "minmea_sentence_gll writer list" where
  "gll_args =
     [local_var, to_float gll_latitude_update, local_var, to_float gll_longitude_update, local_var,
      to_time gll_time_update, to_char gll_status_update, to_char gll_mode_update]"

definition minmea_parse_gll :: "minmea_sentence_gll \<Rightarrow> byte list \<Rightarrow> bool \<times> minmea_sentence_gll" where
  "minmea_parse_gll frame sentence =
     (let (ok, vs) = minmea_scan sentence ''tfdfdTc;c'';
          frame1 = store gll_args vs frame
      in if \<not> ok then (False, frame1)
         else if drop 2 (type_of_sval (vs ! 0)) \<noteq> ''GLL'' then (False, frame1)
         else (True, frame1
                \<lparr>gll_latitude := apply_dir (dir_of (vs ! 2)) (gll_latitude frame1),
                 gll_longitude := apply_dir (dir_of (vs ! 4)) (gll_longitude frame1)\<rparr>))"

definition gst_args :: "minmea_sentence_gst writer list" where
  "gst_args =
     [local_var, to_time gst_time_update, to_float gst_rms_deviation_update,
      to_float gst_semi_major_deviation_update, to_float gst_semi_minor_deviation_update,
      to_float gst_semi_major_orientation_update, to_float gst_latitude_error_deviation_update,
      to_float gst_longitude_error_deviation_update, to_float gst_altitude_error_deviation_update]"

definition minmea_parse_gst :: "minmea_sentence_gst \<Rightarrow> byte list \<Rightarrow> bool \<times> minmea_sentence_gst" where
  "minmea_parse_gst frame sentence =
     (let (ok, vs) = minmea_scan sentence ''tTfffffff'';
          frame1 = store gst_args vs frame
      in if \<not> ok then (False, frame1)
         else if drop 2 (type_of_sval (vs ! 0)) \<noteq> ''GST'' then (False, frame1)
         else (True, frame1))"

definition sat_field :: "nat \<Rightarrow> ((int \<Rightarrow> int) \<Rightarrow> minmea_sat_info \<Rightarrow> minmea_sat_info) \<Rightarrow> minmea_sentence_gsv writer" where
  "sat_field i upd = to_int (\<lambda>f. gsv_sats_update (\<lambda>s. s[i := upd f (s ! i)]))"

definition gsv_args :: "minmea_sentence_gsv writer list" where
  "gsv_args =
     [local_var, to_int gsv_total_msgs_update, to_int gsv_msg_nr_update, to_int gsv_total_sats_update] @
     concat (map (\<lambda>i. [sat_field i sat_nr_update, sat_field i sat_elevation_update,
                       sat_field i sat_azimuth_update, sat_field i sat_snr_update]) [0..<4])"

definition minmea_parse_gsv :: "minmea_sentence_gsv \<Rightarrow> byte list \<Rightarrow> bool \<times> minmea_sentence_gsv" where
  "minmea_parse_gsv frame sentence =
     (let (ok, vs) = minmea_scan sentence ''tiii;iiiiiiiiiiiiiiii'';
          frame1 = store gsv_args vs frame
      in if \<not> ok then (False, frame1)
         else if drop 2 (type_of_sval (vs ! 0)) \<noteq> ''GSV'' then (False, frame1)
         else (True, frame1))"

definition vtg_args :: "minmea_sentence_vtg writer list" where
  "vtg_args =
     [local_var, to_float vtg_true_track_degrees_update, local_var,
      to_float vtg_magnetic_track_degrees_update, local_var,
      to_float vtg_speed_knots_update, local_var, to_float vtg_speed_kph_update, local_var, local_var]"

definition minmea_parse_vtg :: "minmea_sentence_vtg \<Rightarrow> byte list \<Rightarrow> bool \<times> minmea_sentence_vtg" where
  "minmea_parse_vtg frame sentence =
     (let (ok, vs) = minmea_scan sentence ''tfcfcfcfc;c'';
          frame1 = store vtg_args vs frame
      in if \<not> ok then (False, frame1)
         else if drop 2 (type_of_sval (vs ! 0)) \<noteq> ''VTG'' then (False, frame1)
         else if char_of_sval (vs ! 2) \<noteq> CHR ''T'' \<or> char_of_sval (vs ! 4) \<noteq> CHR ''M''
               \<or> char_of_sval (vs ! 6) \<noteq> CHR ''N'' \<or> char_of_sval (vs ! 8) \<noteq> CHR ''K'' then (False, frame1)
         else (True, frame1\<lparr>vtg_faa_mode := char_of_sval (vs ! 9)\<rparr>))"

definition zda_args :: "minmea_sentence_zda writer list" where
  "zda_args =
     [local_var, to_time zda_time_update,
      to_int (\<lambda>f. zda_date_update (day_update f)), to_int (\<lambda>f. zda_date_update (month_update f)),
      to_int (\<lambda>f. zda_date_update (year_update f)),
      to_int zda_hour_offset_update, to_int zda_minute_offset_update]"

definition minmea_parse_zda :: "minmea_sentence_zda \<Rightarrow> byte list \<Rightarrow> bool \<times> minmea_sentence_zda" where
  "minmea_parse_zda frame sentence =
     (let (ok, vs) = minmea_scan sentence ''tTiiiii'';
          frame1 = store zda_args vs frame
      in if \<not> ok then (False, frame1)
         else if drop 2 (type_of_sval (vs ! 0)) \<noteq> ''ZDA'' then (False, frame1)
         else if \<bar>zda_hour_offset frame1\<bar> > 13 \<or> zda_minute_offset frame1 > 59
               \<or> zda_minute_offset frame1 < 0 then (False, frame1)
         else (True, frame1))"

section \<open>Time stamps\<close>

record tm =
  tm_sec :: int
  tm_min :: int
  tm_hour :: int
  tm_mday :: int
  tm_mon :: int
  tm_year :: int

record timespec =
  tv_sec :: int
  tv_nsec :: int

text \<open>\<open>timegm\<close> is a macro for the SDK's \<open>mktime\<close>; it is a parameter.\<close>

definition minmea_gettime ::
  "(tm \<Rightarrow> int) \<Rightarrow> timespec \<Rightarrow> minmea_date \<Rightarrow> minmea_time \<Rightarrow> int \<times> timespec" where
  "minmea_gettime timegm ts date tim =
     (if year date = - 1 \<or> hours tim = - 1 then (- 1, ts)
      else
        let y = (if year date < 80 then s32 (s32 (2000 + year date) - 1900)
                 else if year date \<ge> 1900 then year date - 1900 else year date);
            tm = \<lparr>tm_sec = seconds tim, tm_min = minutes tim, tm_hour = hours tim,
                  tm_mday = day date, tm_mon = s32 (month date - 1), tm_year = y\<rparr>;
            timestamp = timegm tm
        in if timestamp \<noteq> - 1
           then (0, \<lparr>tv_sec = timestamp, tv_nsec = s32 (microseconds tim * 1000)\<rparr>)
           else (- 1, ts))"

section \<open>Fixed-point values\<close>

text \<open>C division: undefined for a zero divisor, truncating otherwise.\<close>

definition cdiv :: "int \<Rightarrow> int \<Rightarrow> int result" where
  "cdiv a b = (if b = 0 then Inl Division_By_Zero else Inr (s32 (a sdiv b)))"

definition minmea_rescale :: "minmea_float \<Rightarrow> int \<Rightarrow> int result" where
  "minmea_rescale f new_scale =
     (let v = mf_value f; s = mf_scale f; sgn_v = (if v > 0 then 1 else 0) - (if v < 0 then 1 else 0)
      in if s = 0 then Inr 0
         else if s = new_scale then Inr v
         else if s > new_scale then
           (case cdiv (s32 (sgn_v * s)) new_scale of
              Inl e \<Rightarrow> Inl e
            | Inr a \<Rightarrow>
                (case cdiv s new_scale of
                   Inl e \<Rightarrow> Inl e
                 | Inr d \<Rightarrow> cdiv (s32 (v + a sdiv 2)) d))
         else (case cdiv new_scale s of Inl e \<Rightarrow> Inl e | Inr q \<Rightarrow> Inr (s32 (v * q))))"

text \<open>
  The two conversions to \<open>float\<close>, over any field of numbers: each operation rounds its exact result,
  \<open>rnd\<close> is that rounding; \<open>None\<close> is the NaN for an unknown value.
\<close>

definition minmea_tofloat :: "('f::field \<Rightarrow> 'f) \<Rightarrow> minmea_float \<Rightarrow> 'f option" where
  "minmea_tofloat rnd f =
     (if mf_scale f = 0 then None
      else Some (rnd (rnd (of_int (mf_value f)) / rnd (of_int (mf_scale f)))))"

definition minmea_tocoord :: "('f::field \<Rightarrow> 'f) \<Rightarrow> minmea_float \<Rightarrow> 'f option result" where
  "minmea_tocoord rnd f =
     (if mf_scale f = 0 then Inr None
      else
        let unit = s32 (mf_scale f * 100)
        in if unit = 0 then Inl Division_By_Zero
           else
             let degrees = mf_value f sdiv unit; minutes = mf_value f smod unit;
                 per_degree = s32 (60 * mf_scale f)
             in Inr (Some (rnd (rnd (of_int degrees) + rnd (rnd (of_int minutes) / rnd (of_int per_degree))))))"

section \<open>Frames stay within their types\<close>

lemma mf_ok_apply_dir: "mf_ok f \<Longrightarrow> d \<in> {- 1, 0, 1} \<Longrightarrow> mf_ok (apply_dir d f)"
  by (auto simp: mf_ok_def apply_dir_def INT_MAX_def s32_id)

lemma dir_of_ok: "sval_ok v \<Longrightarrow> dir_of v \<in> {- 1, 0, 1}"
  by (cases v) auto

lemma store_Nil [simp]: "store [] vs frame = frame" "store ws [] frame = frame"
  by (simp_all add: store_def)

lemma store_Cons [simp]: "store (w # ws) (v # vs) frame = store ws vs (w v frame)"
  by (simp add: store_def)

lemma store_inv:
  assumes "list_all sval_ok vs" "Inv frame"
    and "list_all (\<lambda>w. \<forall>v frame. sval_ok v \<longrightarrow> Inv frame \<longrightarrow> Inv (w v frame)) ws"
  shows "Inv (store ws vs frame)"
  using assms
proof (induction ws arbitrary: vs frame)
  case (Cons w ws)
  then show ?case by (cases vs) auto
qed simp

definition rmc_ok :: "minmea_sentence_rmc \<Rightarrow> bool" where
  "rmc_ok r \<longleftrightarrow> mf_ok (rmc_latitude r) \<and> mf_ok (rmc_longitude r) \<and> mf_ok (rmc_speed r)
     \<and> mf_ok (rmc_course r) \<and> mf_ok (rmc_variation r)"

definition gga_ok :: "minmea_sentence_gga \<Rightarrow> bool" where
  "gga_ok g \<longleftrightarrow> mf_ok (gga_latitude g) \<and> mf_ok (gga_longitude g) \<and> in_s32 (gga_fix_quality g)
     \<and> in_s32 (gga_satellites_tracked g) \<and> mf_ok (gga_hdop g) \<and> mf_ok (gga_altitude g)
     \<and> mf_ok (gga_height g) \<and> mf_ok (gga_dgps_age g)"

definition gsa_ok :: "minmea_sentence_gsa \<Rightarrow> bool" where
  "gsa_ok g \<longleftrightarrow> in_s32 (gsa_fix_type g) \<and> length (gsa_sats g) = 12 \<and> list_all in_s32 (gsa_sats g)
     \<and> mf_ok (gsa_pdop g) \<and> mf_ok (gsa_hdop g) \<and> mf_ok (gsa_vdop g)"

definition gll_ok :: "minmea_sentence_gll \<Rightarrow> bool" where
  "gll_ok g \<longleftrightarrow> mf_ok (gll_latitude g) \<and> mf_ok (gll_longitude g)"

definition sat_ok :: "minmea_sat_info \<Rightarrow> bool" where
  "sat_ok s \<longleftrightarrow> in_s32 (sat_nr s) \<and> in_s32 (sat_elevation s) \<and> in_s32 (sat_azimuth s) \<and> in_s32 (sat_snr s)"

definition gsv_ok :: "minmea_sentence_gsv \<Rightarrow> bool" where
  "gsv_ok g \<longleftrightarrow> in_s32 (gsv_total_msgs g) \<and> in_s32 (gsv_msg_nr g) \<and> in_s32 (gsv_total_sats g)
     \<and> length (gsv_sats g) = 4 \<and> list_all sat_ok (gsv_sats g)"

definition vtg_ok :: "minmea_sentence_vtg \<Rightarrow> bool" where
  "vtg_ok v \<longleftrightarrow> mf_ok (vtg_true_track_degrees v) \<and> mf_ok (vtg_magnetic_track_degrees v)
     \<and> mf_ok (vtg_speed_knots v) \<and> mf_ok (vtg_speed_kph v)"

definition gst_ok :: "minmea_sentence_gst \<Rightarrow> bool" where
  "gst_ok g \<longleftrightarrow> mf_ok (gst_rms_deviation g) \<and> mf_ok (gst_semi_major_deviation g)
     \<and> mf_ok (gst_semi_minor_deviation g) \<and> mf_ok (gst_semi_major_orientation g)
     \<and> mf_ok (gst_latitude_error_deviation g) \<and> mf_ok (gst_longitude_error_deviation g)
     \<and> mf_ok (gst_altitude_error_deviation g)"

definition zda_ok :: "minmea_sentence_zda \<Rightarrow> bool" where
  "zda_ok z \<longleftrightarrow> in_s32 (day (zda_date z)) \<and> in_s32 (month (zda_date z)) \<and> in_s32 (year (zda_date z))
     \<and> in_s32 (zda_hour_offset z) \<and> in_s32 (zda_minute_offset z)"

lemmas writer_defs = local_var_def to_float_def to_int_def to_char_def to_time_def to_date_def

lemma minmea_scan_ok: "minmea_scan s format = (ok, vs) \<Longrightarrow> list_all sval_ok vs"
  using minmea_scan_letters by blast

lemma minmea_scan_nth_ok:
  "minmea_scan s format = (True, vs) \<Longrightarrow> i < length (letters format) \<Longrightarrow> sval_ok (vs ! i)"
  using minmea_scan_ok [of s format True vs] minmea_scan_count(2) [of s format True vs]
  by (simp add: list_all_length)

lemma parse_rmc_type:
  assumes "rmc_ok frame"
  shows "rmc_ok (snd (minmea_parse_rmc frame sentence))"
proof -
  obtain ok vs where sc: "minmea_scan sentence ''tTcfdfdffDfd'' = (ok, vs)" by fastforce
  have st: "rmc_ok (store rmc_args vs frame)"
    by (rule store_inv [of _ rmc_ok, OF minmea_scan_ok [OF sc] assms])
      (auto simp: rmc_args_def writer_defs rmc_ok_def split: sval.split)
  have "ok \<Longrightarrow> i < 12 \<Longrightarrow> dir_of (vs ! i) \<in> {- 1, 0, 1}" for i
    using minmea_scan_nth_ok [of sentence "''tTcfdfdffDfd''" vs i] sc dir_of_ok by (simp add: letters_def)
  then show ?thesis
    using st mf_ok_apply_dir unfolding minmea_parse_rmc_def sc by (simp add: Let_def rmc_ok_def)
qed

lemma parse_gga_type:
  assumes "gga_ok frame"
  shows "gga_ok (snd (minmea_parse_gga frame sentence))"
proof -
  obtain ok vs where sc: "minmea_scan sentence ''tTfdfdiiffcfcf_'' = (ok, vs)" by fastforce
  have st: "gga_ok (store gga_args vs frame)"
    by (rule store_inv [of _ gga_ok, OF minmea_scan_ok [OF sc] assms])
      (auto simp: gga_args_def writer_defs gga_ok_def split: sval.split)
  have "ok \<Longrightarrow> i < 14 \<Longrightarrow> dir_of (vs ! i) \<in> {- 1, 0, 1}" for i
    using minmea_scan_nth_ok [of sentence "''tTfdfdiiffcfcf_''" vs i] sc dir_of_ok by (simp add: letters_def)
  then show ?thesis
    using st mf_ok_apply_dir unfolding minmea_parse_gga_def sc by (simp add: Let_def gga_ok_def)
qed

lemma parse_gll_type:
  assumes "gll_ok frame"
  shows "gll_ok (snd (minmea_parse_gll frame sentence))"
proof -
  obtain ok vs where sc: "minmea_scan sentence ''tfdfdTc;c'' = (ok, vs)" by fastforce
  have st: "gll_ok (store gll_args vs frame)"
    by (rule store_inv [of _ gll_ok, OF minmea_scan_ok [OF sc] assms])
      (auto simp: gll_args_def writer_defs gll_ok_def split: sval.split)
  have "ok \<Longrightarrow> i < 8 \<Longrightarrow> dir_of (vs ! i) \<in> {- 1, 0, 1}" for i
    using minmea_scan_nth_ok [of sentence "''tfdfdTc;c''" vs i] sc dir_of_ok by (simp add: letters_def)
  then show ?thesis
    using st mf_ok_apply_dir unfolding minmea_parse_gll_def sc by (simp add: Let_def gll_ok_def)
qed

lemma list_all_update: "list_all P s \<Longrightarrow> P x \<Longrightarrow> list_all P (s[i := x])"
  by (auto simp: list_all_iff dest: set_update_subset_insert [THEN subsetD])

lemma parse_gsa_type:
  assumes "gsa_ok frame"
  shows "gsa_ok (snd (minmea_parse_gsa frame sentence))"
proof -
  obtain ok vs where sc: "minmea_scan sentence ''tciiiiiiiiiiiiifff'' = (ok, vs)" by fastforce
  have "gsa_ok (store gsa_args vs frame)"
    by (rule store_inv [of _ gsa_ok, OF minmea_scan_ok [OF sc] assms])
      (auto simp: gsa_args_def writer_defs gsa_ok_def list_all_iff dest: set_update_subset_insert [THEN subsetD]
        split: sval.split)
  then show ?thesis unfolding minmea_parse_gsa_def sc by (simp add: Let_def)
qed

lemma sat_field_ok:
  assumes "upd \<in> {sat_nr_update, sat_elevation_update, sat_azimuth_update, sat_snr_update}"
    and "i < 4" "sval_ok v" "gsv_ok frame"
  shows "gsv_ok (sat_field i upd v frame)"
proof (cases v)
  case (VInt x)
  have "sat_ok (gsv_sats frame ! i)" using assms by (simp add: gsv_ok_def list_all_length)
  then have "sat_ok (upd (\<lambda>_. x) (gsv_sats frame ! i))"
    using assms(1,3) VInt by (auto simp: sat_ok_def)
  then show ?thesis
    using assms(4) VInt by (simp add: sat_field_def to_int_def gsv_ok_def list_all_update)
qed (use assms in \<open>simp_all add: sat_field_def to_int_def\<close>)

lemma parse_gsv_type:
  assumes "gsv_ok frame"
  shows "gsv_ok (snd (minmea_parse_gsv frame sentence))"
proof -
  obtain ok vs where sc: "minmea_scan sentence ''tiii;iiiiiiiiiiiiiiii'' = (ok, vs)" by fastforce
  have "gsv_ok (store gsv_args vs frame)"
  proof (rule store_inv [of _ gsv_ok, OF minmea_scan_ok [OF sc] assms])
    have "list_all (\<lambda>w. \<forall>v frame. sval_ok v \<longrightarrow> gsv_ok frame \<longrightarrow> gsv_ok (w v frame))
        [local_var, to_int gsv_total_msgs_update, to_int gsv_msg_nr_update, to_int gsv_total_sats_update]"
      by (auto simp: writer_defs gsv_ok_def split: sval.split)
    then show "list_all (\<lambda>w. \<forall>v frame. sval_ok v \<longrightarrow> gsv_ok frame \<longrightarrow> gsv_ok (w v frame)) gsv_args"
      using sat_field_ok by (auto simp: gsv_args_def list_all_iff)
  qed
  then show ?thesis unfolding minmea_parse_gsv_def sc by (simp add: Let_def)
qed

lemma parse_vtg_gst_type:
  shows "vtg_ok v \<Longrightarrow> vtg_ok (snd (minmea_parse_vtg v sentence))"
    and "gst_ok g \<Longrightarrow> gst_ok (snd (minmea_parse_gst g sentence))"
    and "zda_ok z \<Longrightarrow> zda_ok (snd (minmea_parse_zda z sentence))"
proof -
  obtain ok vs where sv: "minmea_scan sentence ''tfcfcfcfc;c'' = (ok, vs)" by fastforce
  have "vtg_ok v \<Longrightarrow> vtg_ok (store vtg_args vs v)"
    by (rule store_inv [of _ vtg_ok, OF minmea_scan_ok [OF sv]])
      (auto simp: vtg_args_def writer_defs vtg_ok_def split: sval.split)
  then show "vtg_ok v \<Longrightarrow> vtg_ok (snd (minmea_parse_vtg v sentence))"
    unfolding minmea_parse_vtg_def sv by (simp add: Let_def vtg_ok_def)
next
  obtain ok vs where sg: "minmea_scan sentence ''tTfffffff'' = (ok, vs)" by fastforce
  have "gst_ok g \<Longrightarrow> gst_ok (store gst_args vs g)"
    by (rule store_inv [of _ gst_ok, OF minmea_scan_ok [OF sg]])
      (auto simp: gst_args_def writer_defs gst_ok_def split: sval.split)
  then show "gst_ok g \<Longrightarrow> gst_ok (snd (minmea_parse_gst g sentence))"
    unfolding minmea_parse_gst_def sg by (simp add: Let_def)
next
  obtain ok vs where sz: "minmea_scan sentence ''tTiiiii'' = (ok, vs)" by fastforce
  have "zda_ok z \<Longrightarrow> zda_ok (store zda_args vs z)"
    by (rule store_inv [of _ zda_ok, OF minmea_scan_ok [OF sz]])
      (auto simp: zda_args_def writer_defs zda_ok_def split: sval.split)
  then show "zda_ok z \<Longrightarrow> zda_ok (snd (minmea_parse_zda z sentence))"
    unfolding minmea_parse_zda_def sz by (simp add: Let_def)
qed

section \<open>What a sentence of each kind leaves in its frame\<close>

lemma scan_talker_type:
  assumes "length tk = 2" "is_field tk" "length sid = 3" "is_field sid"
  shows "scan_talker (Some (CHR ''$'' # tk @ sid)) = Stored (VType (tk @ sid))"
proof -
  obtain a b where tk: "tk = [a, b]"
    using assms(1) by (auto simp: length_Suc_conv numeral_2_eq_2)
  obtain c d e where sid: "sid = [c, d, e]"
    using assms(3) by (auto simp: length_Suc_conv numeral_3_eq_3)
  show ?thesis
    using assms(2,4) by (simp add: tk sid scan_talker_def upt_rec byte_at_def)
qed

lemma scan_char_field: "minmea_isfield c \<Longrightarrow> scan_char (Some (c # w)) = Stored (VChar c)"
  by (simp add: scan_char_def first_field_char_def)

lemma scan_direction_field:
  "c \<in> {CHR ''N'', CHR ''E''} \<Longrightarrow> scan_direction (Some [c]) = Stored (VDir 1)"
  "c \<in> {CHR ''S'', CHR ''W''} \<Longrightarrow> scan_direction (Some [c]) = Stored (VDir (- 1))"
  "scan_direction (Some []) = Stored (VDir 0)"
  by (auto simp: scan_direction_def first_field_char_def minmea_isfield_def isprint_def uchar_def)

text \<open>The sign of a hemisphere letter.\<close>

definition hemi :: "byte \<Rightarrow> int" where
  "hemi c = (if c = CHR ''N'' \<or> c = CHR ''E'' then 1 else - 1)"

lemma scan_hemi: "c \<in> {CHR ''N'', CHR ''S'', CHR ''E'', CHR ''W''} \<Longrightarrow> scan_direction (Some [c]) = Stored (VDir (hemi c))"
  by (auto simp: hemi_def scan_direction_field)

lemma decimal_field: "decimal ip fp \<Longrightarrow> is_field (ip @ CHR ''.'' # fp)"
  by (auto simp: decimal_def list_all_iff isdigit_isfield)
    (auto simp: minmea_isfield_def isprint_def uchar_def)

lemma apply_dir_hemi:
  assumes "decimal ip fp"
  shows "apply_dir (hemi c) \<lparr>mf_value = dec_val (ip @ fp), mf_scale = s\<rparr>
    = \<lparr>mf_value = hemi c * dec_val (ip @ fp), mf_scale = s\<rparr>"
  using assms dec_from_mono [of "ip @ fp" 0]
  by (auto simp: apply_dir_def hemi_def decimal_def INT_MAX_def s32_id)

lemma field_letters [simp]:
  "minmea_isfield CHR ''$''" "minmea_isfield CHR ''N''" "minmea_isfield CHR ''S''"
  "minmea_isfield CHR ''E''" "minmea_isfield CHR ''W''" "minmea_isfield CHR ''M''"
  "minmea_isfield CHR ''R''" "minmea_isfield CHR ''C''" "minmea_isfield CHR ''G''" "minmea_isfield CHR ''A''"
  by (simp_all add: minmea_isfield_def isprint_def uchar_def)

lemma scan_decimal9:
  "decimal ip fp \<Longrightarrow> length fp \<le> 9 \<Longrightarrow>
     scan_float (Some (ip @ CHR ''.'' # fp)) = Stored (VFloat \<lparr>mf_value = dec_val (ip @ fp), mf_scale = 10 ^ length fp\<rparr>)"
  by (simp add: scan_float_decimal scale_exact)

lemma parse_rmc_fields:
  assumes "length tk = 2" "is_field tk"
    and "is_field t" "scan_time (Some t) = Stored (VTime tm)"
    and "minmea_isfield st"
    and lat: "decimal li lf" "length lf \<le> 9" "ns \<in> {CHR ''N'', CHR ''S''}"
    and lon: "decimal oi og" "length og \<le> 9" "ew \<in> {CHR ''E'', CHR ''W''}"
    and "is_field sp" "scan_float (Some sp) = Stored (VFloat sp')"
    and "is_field co" "scan_float (Some co) = Stored (VFloat co')"
    and "is_field dt" "scan_date (Some dt) = Stored (VDate dt')"
    and extra: "list_all is_field extra" "end_fields rest"
  shows "minmea_parse_rmc frame
      (join_fields ([CHR ''$'' # tk @ ''RMC'', t, [st], li @ CHR ''.'' # lf, [ns],
         oi @ CHR ''.'' # og, [ew], sp, co, dt, [], []] @ extra) @ rest)
    = (True, \<lparr>rmc_time = tm, rmc_valid = (st = CHR ''A''),
         rmc_latitude = \<lparr>mf_value = hemi ns * dec_val (li @ lf), mf_scale = 10 ^ length lf\<rparr>,
         rmc_longitude = \<lparr>mf_value = hemi ew * dec_val (oi @ og), mf_scale = 10 ^ length og\<rparr>,
         rmc_speed = sp', rmc_course = co', rmc_date = dt',
         rmc_variation = \<lparr>mf_value = 0, mf_scale = 0\<rparr>\<rparr>)"
proof -
  let ?ws = "[CHR ''$'' # tk @ ''RMC'', t, [st], li @ CHR ''.'' # lf, [ns],
         oi @ CHR ''.'' # og, [ew], sp, co, dt, [], []] @ extra"
  have "list_all is_field ?ws"
    using assms decimal_field [OF lat(1)] decimal_field [OF lon(1)] by auto
  from minmea_scan_fields [OF this _ extra(2), of "''tTcfdfdffDfd''"]
  have sc: "minmea_scan (join_fields ?ws @ rest) ''tTcfdfdffDfd''
      = scan_fields ''tTcfdfdffDfd'' False ?ws" by simp
  have dirs: "scan_direction (Some [ns]) = Stored (VDir (hemi ns))"
      "scan_direction (Some [ew]) = Stored (VDir (hemi ew))"
    using scan_hemi lat(3) lon(3) by auto
  have "scan_fields ''tTcfdfdffDfd'' False ?ws = (True,
      [VType (tk @ ''RMC''), VTime tm, VChar st, VFloat \<lparr>mf_value = dec_val (li @ lf), mf_scale = 10 ^ length lf\<rparr>,
       VDir (hemi ns), VFloat \<lparr>mf_value = dec_val (oi @ og), mf_scale = 10 ^ length og\<rparr>, VDir (hemi ew),
       VFloat sp', VFloat co', VDate dt', VFloat \<lparr>mf_value = 0, mf_scale = 0\<rparr>, VDir 0])"
    using assms by (simp add: scan_field_def scan_talker_type scan_char_field dirs scan_decimal9 scan_direction_field)
  then show ?thesis
    unfolding minmea_parse_rmc_def sc using assms(1)
    by (simp add: Let_def rmc_args_def writer_defs apply_dir_hemi [OF lat(1)] apply_dir_hemi [OF lon(1)])
      (simp add: apply_dir_def s32_def)
qed

lemma parse_gga_fields:
  assumes "length tk = 2" "is_field tk"
    and "is_field t" "scan_time (Some t) = Stored (VTime tm)"
    and lat: "decimal li lf" "length lf \<le> 9" "ns \<in> {CHR ''N'', CHR ''S''}"
    and lon: "decimal oi og" "length og \<le> 9" "ew \<in> {CHR ''E'', CHR ''W''}"
    and "is_field q" "scan_int (Some q) = Stored (VInt q')"
    and "is_field n" "scan_int (Some n) = Stored (VInt n')"
    and "is_field hp" "scan_float (Some hp) = Stored (VFloat hp')"
    and "is_field al" "scan_float (Some al) = Stored (VFloat al')"
    and "is_field he" "scan_float (Some he) = Stored (VFloat he')"
    and "is_field ag" "scan_float (Some ag) = Stored (VFloat ag')"
    and extra: "list_all is_field extra" "extra \<noteq> []" "end_fields rest"
  shows "minmea_parse_gga frame
      (join_fields ([CHR ''$'' # tk @ ''GGA'', t, li @ CHR ''.'' # lf, [ns],
         oi @ CHR ''.'' # og, [ew], q, n, hp, al, ''M'', he, ''M'', ag] @ extra) @ rest)
    = (True, \<lparr>gga_time = tm,
         gga_latitude = \<lparr>mf_value = hemi ns * dec_val (li @ lf), mf_scale = 10 ^ length lf\<rparr>,
         gga_longitude = \<lparr>mf_value = hemi ew * dec_val (oi @ og), mf_scale = 10 ^ length og\<rparr>,
         gga_fix_quality = q', gga_satellites_tracked = n', gga_hdop = hp',
         gga_altitude = al', gga_altitude_units = CHR ''M'',
         gga_height = he', gga_height_units = CHR ''M'', gga_dgps_age = ag'\<rparr>)"
proof -
  let ?ws = "[CHR ''$'' # tk @ ''GGA'', t, li @ CHR ''.'' # lf, [ns],
         oi @ CHR ''.'' # og, [ew], q, n, hp, al, ''M'', he, ''M'', ag] @ extra"
  have "list_all is_field ?ws"
    using assms decimal_field [OF lat(1)] decimal_field [OF lon(1)] by auto
  from minmea_scan_fields [OF this _ extra(3), of "''tTfdfdiiffcfcf_''"]
  have sc: "minmea_scan (join_fields ?ws @ rest) ''tTfdfdiiffcfcf_''
      = scan_fields ''tTfdfdiiffcfcf_'' False ?ws" by simp
  have dirs: "scan_direction (Some [ns]) = Stored (VDir (hemi ns))"
      "scan_direction (Some [ew]) = Stored (VDir (hemi ew))"
    using scan_hemi lat(3) lon(3) by auto
  obtain x xs where "extra = x # xs" using extra(2) by (cases extra) auto
  then have "scan_fields ''tTfdfdiiffcfcf_'' False ?ws = (True,
      [VType (tk @ ''GGA''), VTime tm, VFloat \<lparr>mf_value = dec_val (li @ lf), mf_scale = 10 ^ length lf\<rparr>,
       VDir (hemi ns), VFloat \<lparr>mf_value = dec_val (oi @ og), mf_scale = 10 ^ length og\<rparr>, VDir (hemi ew),
       VInt q', VInt n', VFloat hp', VFloat al', VChar CHR ''M'', VFloat he', VChar CHR ''M'', VFloat ag'])"
    using assms by (simp add: scan_field_def scan_talker_type scan_char_field dirs scan_decimal9)
  then show ?thesis
    unfolding minmea_parse_gga_def sc using assms(1)
    by (simp add: Let_def gga_args_def writer_defs apply_dir_hemi [OF lat(1)] apply_dir_hemi [OF lon(1)])
qed

section \<open>The type field decides\<close>

lemma minmea_scan_type:
  assumes "minmea_scan s (CHR ''t'' # format) = (True, vs)"
  shows "\<exists>t. vs ! 0 = VType t \<and> minmea_scan s ''t'' = (True, [VType t])"
proof -
  obtain s' f' where nf: "next_field s = (s', f')" by fastforce
  from assms obtain v ws where v: "scan_field CHR ''t'' (Some s) = Stored v" and vs: "vs = v # ws"
    by (auto simp: minmea_scan_def nf scan_field_def scan_talker_def split: field_result.splits prod.splits if_splits)
  then obtain t where "v = VType t"
    by (auto simp: scan_field_def scan_talker_def split: if_splits)
  then show ?thesis using v vs by (simp add: minmea_scan_def nf)
qed

lemma sentence_id_type:
  assumes "minmea_check s strict" "minmea_scan s (CHR ''t'' # format) = (True, vs)"
  defines "sid \<equiv> drop 2 (type_of_sval (vs ! 0))"
  shows "sid = ''RMC'' \<Longrightarrow> minmea_sentence_id s strict = MINMEA_SENTENCE_RMC"
    and "sid = ''GGA'' \<Longrightarrow> minmea_sentence_id s strict = MINMEA_SENTENCE_GGA"
    and "sid = ''GSA'' \<Longrightarrow> minmea_sentence_id s strict = MINMEA_SENTENCE_GSA"
    and "sid = ''GLL'' \<Longrightarrow> minmea_sentence_id s strict = MINMEA_SENTENCE_GLL"
    and "sid = ''GST'' \<Longrightarrow> minmea_sentence_id s strict = MINMEA_SENTENCE_GST"
    and "sid = ''GSV'' \<Longrightarrow> minmea_sentence_id s strict = MINMEA_SENTENCE_GSV"
    and "sid = ''VTG'' \<Longrightarrow> minmea_sentence_id s strict = MINMEA_SENTENCE_VTG"
    and "sid = ''ZDA'' \<Longrightarrow> minmea_sentence_id s strict = MINMEA_SENTENCE_ZDA"
proof -
  obtain t where t: "vs ! 0 = VType t" "minmea_scan s ''t'' = (True, [VType t])"
    using minmea_scan_type [OF assms(2)] by auto
  have i: "minmea_sentence_id s strict = (if drop 2 t = ''RMC'' then MINMEA_SENTENCE_RMC
            else if drop 2 t = ''GGA'' then MINMEA_SENTENCE_GGA
            else if drop 2 t = ''GSA'' then MINMEA_SENTENCE_GSA
            else if drop 2 t = ''GLL'' then MINMEA_SENTENCE_GLL
            else if drop 2 t = ''GST'' then MINMEA_SENTENCE_GST
            else if drop 2 t = ''GSV'' then MINMEA_SENTENCE_GSV
            else if drop 2 t = ''VTG'' then MINMEA_SENTENCE_VTG
            else if drop 2 t = ''ZDA'' then MINMEA_SENTENCE_ZDA
            else MINMEA_UNKNOWN)"
    unfolding minmea_sentence_id_def t(2) using assms(1) by (simp add: Let_def)
  show "sid = ''RMC'' \<Longrightarrow> minmea_sentence_id s strict = MINMEA_SENTENCE_RMC"
    "sid = ''GGA'' \<Longrightarrow> minmea_sentence_id s strict = MINMEA_SENTENCE_GGA"
    "sid = ''GSA'' \<Longrightarrow> minmea_sentence_id s strict = MINMEA_SENTENCE_GSA"
    "sid = ''GLL'' \<Longrightarrow> minmea_sentence_id s strict = MINMEA_SENTENCE_GLL"
    "sid = ''GST'' \<Longrightarrow> minmea_sentence_id s strict = MINMEA_SENTENCE_GST"
    "sid = ''GSV'' \<Longrightarrow> minmea_sentence_id s strict = MINMEA_SENTENCE_GSV"
    "sid = ''VTG'' \<Longrightarrow> minmea_sentence_id s strict = MINMEA_SENTENCE_VTG"
    "sid = ''ZDA'' \<Longrightarrow> minmea_sentence_id s strict = MINMEA_SENTENCE_ZDA"
    unfolding sid_def i t(1) type_of_sval.simps by simp_all
qed

text \<open>A parser that succeeds on a valid sentence is the one the sentence's identifier selects.\<close>

lemma parse_selects_id:
  assumes "minmea_check s strict"
  shows "fst (minmea_parse_rmc r s) \<Longrightarrow> minmea_sentence_id s strict = MINMEA_SENTENCE_RMC"
    and "fst (minmea_parse_gga g s) \<Longrightarrow> minmea_sentence_id s strict = MINMEA_SENTENCE_GGA"
    and "fst (minmea_parse_gsa a s) \<Longrightarrow> minmea_sentence_id s strict = MINMEA_SENTENCE_GSA"
    and "fst (minmea_parse_gll l s) \<Longrightarrow> minmea_sentence_id s strict = MINMEA_SENTENCE_GLL"
    and "fst (minmea_parse_gst t s) \<Longrightarrow> minmea_sentence_id s strict = MINMEA_SENTENCE_GST"
    and "fst (minmea_parse_gsv v s) \<Longrightarrow> minmea_sentence_id s strict = MINMEA_SENTENCE_GSV"
    and "fst (minmea_parse_vtg w s) \<Longrightarrow> minmea_sentence_id s strict = MINMEA_SENTENCE_VTG"
    and "fst (minmea_parse_zda z s) \<Longrightarrow> minmea_sentence_id s strict = MINMEA_SENTENCE_ZDA"
  unfolding minmea_parse_rmc_def minmea_parse_gga_def minmea_parse_gsa_def minmea_parse_gll_def
    minmea_parse_gst_def minmea_parse_gsv_def minmea_parse_vtg_def minmea_parse_zda_def
  by (auto simp: Let_def split: prod.splits if_splits intro: sentence_id_type [OF assms])

section \<open>Time stamps and rescaling\<close>

text \<open>Two-digit years below 80 are in this century, the others in the last one.\<close>

lemma gettime_year:
  assumes "0 \<le> year d" "year d < 100" "hours t \<noteq> - 1" "in_s32 (month d - 1)"
    and "0 \<le> microseconds t" "microseconds t < 1000000"
  shows "minmea_gettime timegm ts d t =
    (let stamp = timegm \<lparr>tm_sec = seconds t, tm_min = minutes t, tm_hour = hours t, tm_mday = day d,
           tm_mon = month d - 1, tm_year = (if year d < 80 then 2000 + year d else 1900 + year d) - 1900\<rparr>
     in if stamp = - 1 then (- 1, ts) else (0, \<lparr>tv_sec = stamp, tv_nsec = microseconds t * 1000\<rparr>))"
  using assms by (simp add: minmea_gettime_def Let_def s32_id in_s32_def)

lemma sdiv_pos: "0 \<le> a \<Longrightarrow> 0 < b \<Longrightarrow> a sdiv b = a div (b::int)"
  by (cases "a = 0") (simp_all add: signed_divide_int_def)

lemma sdiv_neg: "a < 0 \<Longrightarrow> 0 < b \<Longrightarrow> a sdiv b = - ((- a) div (b::int))"
  by (simp add: signed_divide_int_def)

text \<open>
  Towards a coarser scale that divides the old one, the result is the quotient rounded to the
  nearest integer, halves away from zero; towards a finer one it is exact.
\<close>

lemma rescale_coarser:
  assumes "0 < new_scale" "1 < k" "mf_scale f = new_scale * k" "mf_scale f \<le> 1000000000"
    and "\<bar>mf_value f\<bar> \<le> 1000000000"
  shows "minmea_rescale f new_scale =
    Inr (if 0 \<le> mf_value f then (mf_value f + k div 2) div k else - ((- mf_value f + k div 2) div k))"
proof -
  have k: "k \<le> 1000000000" "0 < k"
  proof -
    have "1 * k \<le> new_scale * k" using assms(1,2) by (intro mult_right_mono) auto
    then show "k \<le> 1000000000" "0 < k" using assms(2-4) by linarith+
  qed
  have gt: "new_scale < mf_scale f" "0 < mf_scale f" using assms by auto
  have d: "mf_scale f sdiv new_scale = k" using assms gt by (simp add: sdiv_pos)
  have half: "0 \<le> k div 2" "k div 2 \<le> 500000000" using k by auto
  have nd: "new_scale * k sdiv new_scale = k" "k sdiv 2 = k div 2"
    using assms(1) k by (simp_all add: sdiv_pos)
  have sk: "s32 (new_scale * k) = new_scale * k" "s32 (- (new_scale * k)) = - (new_scale * k)" "s32 k = k" "s32 (- k) = - k"
    using gt assms(3,4) k by (auto simp: s32_id)
  have q: "0 \<le> x \<Longrightarrow> x \<le> 1500000000 \<Longrightarrow> 0 \<le> x div k \<and> x div k \<le> 1500000000" for x :: int
    using k by (auto simp: pos_imp_zdiv_nonneg_iff intro: order.trans [OF zdiv_mono2 [of x 1 k, simplified]])
  consider "mf_value f > 0" | "mf_value f = 0" | "mf_value f < 0" by linarith
  then show ?thesis
  proof cases
    case 1
    then show ?thesis
      using assms gt d k half q [of "mf_value f + k div 2"]
      by (simp add: minmea_rescale_def cdiv_def Let_def s32_id sdiv_pos sk nd)
  next
    case 2
    then show ?thesis
      using assms gt d k by (simp add: minmea_rescale_def cdiv_def Let_def s32_id sdiv_pos sk nd)
  next
    case 3
    have "0 \<le> k div 2 - mf_value f" "k div 2 - mf_value f \<le> 1500000000"
      using 3 half assms(5) by linarith+
    from q [OF this] show ?thesis
      using 3 assms gt d k half
      by (simp add: minmea_rescale_def cdiv_def Let_def s32_id sdiv_neg sk nd)
  qed
qed

section \<open>Claims\<close>

text \<open>C19: A GGA sentence is read completely: time, position with its hemispheres, fix quality, satellites,
  dilution, altitude, height and correction age of the record are those of its fields, for every talker
  and whatever the record held before.\<close>

theorem gga_read_back:
  assumes "length tk = 2" "is_field tk"
    and "is_field t" "scan_time (Some t) = Stored (VTime tm)"
    and lat: "decimal li lf" "length lf \<le> 9" "ns \<in> {CHR ''N'', CHR ''S''}"
    and lon: "decimal oi og" "length og \<le> 9" "ew \<in> {CHR ''E'', CHR ''W''}"
    and "is_field q" "scan_int (Some q) = Stored (VInt q')"
    and "is_field n" "scan_int (Some n) = Stored (VInt n')"
    and "is_field hp" "scan_float (Some hp) = Stored (VFloat hp')"
    and "is_field al" "scan_float (Some al) = Stored (VFloat al')"
    and "is_field he" "scan_float (Some he) = Stored (VFloat he')"
    and "is_field ag" "scan_float (Some ag) = Stored (VFloat ag')"
    and extra: "list_all is_field extra" "extra \<noteq> []" "end_fields rest"
  shows "minmea_parse_gga frame
      (join_fields ([CHR ''$'' # tk @ ''GGA'', t, li @ CHR ''.'' # lf, [ns],
         oi @ CHR ''.'' # og, [ew], q, n, hp, al, ''M'', he, ''M'', ag] @ extra) @ rest)
    = (True, \<lparr>gga_time = tm,
         gga_latitude = \<lparr>mf_value = hemi ns * dec_val (li @ lf), mf_scale = 10 ^ length lf\<rparr>,
         gga_longitude = \<lparr>mf_value = hemi ew * dec_val (oi @ og), mf_scale = 10 ^ length og\<rparr>,
         gga_fix_quality = q', gga_satellites_tracked = n', gga_hdop = hp',
         gga_altitude = al', gga_altitude_units = CHR ''M'',
         gga_height = he', gga_height_units = CHR ''M'', gga_dgps_age = ag'\<rparr>)"
  by (rule parse_gga_fields [OF assms])

theorem gga_read_back_witness:
  "\<forall>frame. minmea_parse_gga frame ''$GNGGA,084257.000,2234.7758,N,11354.9654,W,2,12,1.00,59.4,M,-2.8,M,,*56'' =
    (True, \<lparr>gga_time = \<lparr>hours = 8, minutes = 42, seconds = 57, microseconds = 0\<rparr>,
         gga_latitude = \<lparr>mf_value = 22347758, mf_scale = 10000\<rparr>,
         gga_longitude = \<lparr>mf_value = - 113549654, mf_scale = 10000\<rparr>,
         gga_fix_quality = 2, gga_satellites_tracked = 12, gga_hdop = \<lparr>mf_value = 100, mf_scale = 100\<rparr>,
         gga_altitude = \<lparr>mf_value = 594, mf_scale = 10\<rparr>, gga_altitude_units = CHR ''M'',
         gga_height = \<lparr>mf_value = - 28, mf_scale = 10\<rparr>, gga_height_units = CHR ''M'',
         gga_dgps_age = \<lparr>mf_value = 0, mf_scale = 0\<rparr>\<rparr>)"
proof -
  have d: "decimal ''2234'' ''7758''" "decimal ''11354'' ''9654''" by code_simp+
  have s: "scan_time (Some ''084257.000'') = Stored (VTime \<lparr>hours = 8, minutes = 42, seconds = 57, microseconds = 0\<rparr>)"
    "scan_int (Some ''2'') = Stored (VInt 2)" "scan_int (Some ''12'') = Stored (VInt 12)"
    "scan_float (Some ''1.00'') = Stored (VFloat \<lparr>mf_value = 100, mf_scale = 100\<rparr>)"
    "scan_float (Some ''59.4'') = Stored (VFloat \<lparr>mf_value = 594, mf_scale = 10\<rparr>)"
    "scan_float (Some ''-2.8'') = Stored (VFloat \<lparr>mf_value = - 28, mf_scale = 10\<rparr>)"
    "scan_float (Some []) = Stored (VFloat \<lparr>mf_value = 0, mf_scale = 0\<rparr>)" by code_simp+
  have f: "is_field ''GN''" "is_field ''084257.000''" "is_field ''2''" "is_field ''12''" "is_field ''1.00''"
    "is_field ''59.4''" "is_field ''-2.8''" "is_field []" "list_all is_field [[]]" "end_fields ''*56''"
    by code_simp+
  show ?thesis
    using gga_read_back [OF _ f(1,2) s(1) d(1) _ _ d(2) _ _ f(3) s(2) f(4) s(3) f(5) s(4) f(6) s(5) f(7) s(6)
      f(8) s(7) f(9) _ f(10), of "CHR ''N''" "CHR ''W''"]
    by (simp add: hemi_def uchar_def)
qed

text \<open>C24: The sentence identifier and the eight parsers agree: on a sentence that passes the check, a parser
  succeeds only if \<open>minmea_sentence_id\<close> names its sentence type, so the dispatcher never calls another.\<close>

theorem parser_agrees_with_id:
  assumes "minmea_check s strict"
  shows "(fst (minmea_parse_rmc r s) \<longrightarrow> minmea_sentence_id s strict = MINMEA_SENTENCE_RMC)
    \<and> (fst (minmea_parse_gga g s) \<longrightarrow> minmea_sentence_id s strict = MINMEA_SENTENCE_GGA)
    \<and> (fst (minmea_parse_gsa a s) \<longrightarrow> minmea_sentence_id s strict = MINMEA_SENTENCE_GSA)
    \<and> (fst (minmea_parse_gll l s) \<longrightarrow> minmea_sentence_id s strict = MINMEA_SENTENCE_GLL)
    \<and> (fst (minmea_parse_gst t s) \<longrightarrow> minmea_sentence_id s strict = MINMEA_SENTENCE_GST)
    \<and> (fst (minmea_parse_gsv v s) \<longrightarrow> minmea_sentence_id s strict = MINMEA_SENTENCE_GSV)
    \<and> (fst (minmea_parse_vtg w s) \<longrightarrow> minmea_sentence_id s strict = MINMEA_SENTENCE_VTG)
    \<and> (fst (minmea_parse_zda z s) \<longrightarrow> minmea_sentence_id s strict = MINMEA_SENTENCE_ZDA)"
  using parse_selects_id [OF assms] by blast

theorem parser_agrees_with_id_witness:
  "minmea_sentence_id ''$GNVTG,306.43,T,,M,0.032,N,0.059,K,D*29'' True = MINMEA_SENTENCE_VTG
     \<and> \<not> fst (minmea_parse_rmc undefined ''$GNVTG,306.43,T,,M,0.032,N,0.059,K,D*29'')"
proof -
  have c: "minmea_check ''$GNVTG,306.43,T,,M,0.032,N,0.059,K,D*29'' True" by code_simp
  have i: "minmea_sentence_id ''$GNVTG,306.43,T,,M,0.032,N,0.059,K,D*29'' True = MINMEA_SENTENCE_VTG" by code_simp
  show ?thesis using parser_agrees_with_id [OF c, of undefined] i by auto
qed

text \<open>Rescaling towards a coarser scale that divides the old one rounds to the nearest value, halves
  away from zero, for both signs, without an intermediate overflow up to a thousand million.\<close>

theorem rescale_rounds:
  assumes "0 < new_scale" "1 < k" "mf_scale f = new_scale * k" "mf_scale f \<le> 1000000000"
    and "\<bar>mf_value f\<bar> \<le> 1000000000"
  shows "minmea_rescale f new_scale =
    Inr (if 0 \<le> mf_value f then (mf_value f + k div 2) div k else - ((- mf_value f + k div 2) div k))"
  by (rule rescale_coarser [OF assms])

theorem rescale_rounds_witness:
  "minmea_rescale \<lparr>mf_value = - 12345, mf_scale = 1000\<rparr> 100 = Inr (- 1235)"
  using rescale_rounds [of 100 10 "\<lparr>mf_value = - 12345, mf_scale = 1000\<rparr>"] by simp

text \<open>A position field \<open>dddmm.mmmm\<close> of up to seven decimals converts to signed degrees: with exact
  arithmetic \<open>minmea_tocoord\<close> is the degrees plus a sixtieth of the minutes, negated as a whole for the
  southern and the western hemisphere.\<close>

theorem tocoord_exact:
  assumes "0 \<le> d" "d \<le> 180" "0 \<le> m" "m < 100 * 10 ^ n" "n \<le> 7" "\<sigma> \<in> {1, - 1}"
  shows "minmea_tocoord (\<lambda>x. x) \<lparr>mf_value = \<sigma> * (d * (100 * 10 ^ n) + m), mf_scale = 10 ^ n\<rparr>
    = Inr (Some (of_int \<sigma> * (of_int d + of_int m / of_int (60 * 10 ^ n)) ::'f::field_char_0))"
proof -
  let ?s = "(10::int) ^ n"
  have s: "1 \<le> ?s" "?s \<le> 10 ^ 7" using power_increasing [OF assms(5), of "10::int"] by simp_all
  have wrap: "1 \<le> x \<Longrightarrow> x \<le> 10 ^ 7 \<Longrightarrow> s32 (x * 100) = x * 100 \<and> s32 (60 * x) = 60 * x" for x
    by (simp add: s32_id)
  note w = wrap [OF s, THEN conjunct1] wrap [OF s, THEN conjunct2]
  let ?v = "d * (?s * 100) + m"
  have q: "?v div (?s * 100) = d" "?v mod (?s * 100) = m" using assms(3,4) s
    by (simp_all add: mult.commute div_pos_pos_trivial mod_pos_pos_trivial)
  have smod_pos: "0 \<le> a \<Longrightarrow> 0 < b \<Longrightarrow> a smod b = a mod b" for a b :: int
    by (cases "a = 0") (simp_all add: signed_modulo_int_def)
  have pos: "?v sdiv (?s * 100) = d \<and> ?v smod (?s * 100) = m"
    using q s assms(1,3) by (simp add: sdiv_pos smod_pos)
  have neg: "(- ?v) sdiv (?s * 100) = - d \<and> (- ?v) smod (?s * 100) = - m"
  proof (cases "?v = 0")
    case True
    then have "d = 0" "m = 0" using s assms(1,3) by (auto simp: add_nonneg_eq_0_iff)
    then show ?thesis by simp
  next
    case False
    moreover have "0 \<le> ?v" using s assms(1,3) by simp
    ultimately show ?thesis using q s by (simp add: sdiv_neg signed_modulo_int_def)
  qed
  show ?thesis
    using assms(6) pos neg w s
    by (auto simp: minmea_tocoord_def Let_def mult.commute [of 100] field_simps)
qed

theorem tocoord_exact_witness:
  "minmea_tocoord (\<lambda>x. x) \<lparr>mf_value = - 113549654, mf_scale = 10000\<rparr> = Inr (Some (- (113 + 549654 / 600000 ::'f::field_char_0)))"
  using tocoord_exact [of 113 549654 4 "- 1"] by simp

text \<open>A two-digit year below 80 is taken as 20xx and any other as 19xx, so that a date before 1980 or
  after 2079 cannot be told apart from its neighbour a century away; the fraction of the second becomes
  nanoseconds without overflow.\<close>

theorem gettime_century:
  assumes "0 \<le> year d" "year d < 100" "hours t \<noteq> - 1" "in_s32 (month d - 1)"
    and "0 \<le> microseconds t" "microseconds t < 1000000"
  shows "minmea_gettime timegm ts d t =
    (let stamp = timegm \<lparr>tm_sec = seconds t, tm_min = minutes t, tm_hour = hours t, tm_mday = day d,
           tm_mon = month d - 1, tm_year = (if year d < 80 then 2000 + year d else 1900 + year d) - 1900\<rparr>
     in if stamp = - 1 then (- 1, ts) else (0, \<lparr>tv_sec = stamp, tv_nsec = microseconds t * 1000\<rparr>))"
  by (rule gettime_year [OF assms])

theorem gettime_century_witness:
  "\<forall>ts. minmea_gettime (\<lambda>t. tm_year t * 10000 + tm_mon t * 100 + tm_mday t) ts
      \<lparr>day = 14, month = 6, year = 18\<rparr> \<lparr>hours = 8, minutes = 42, seconds = 57, microseconds = 999999\<rparr>
    = (0, \<lparr>tv_sec = 1180514, tv_nsec = 999999000\<rparr>)"
  by (intro allI, subst gettime_century) (simp_all add: in_s32_def)

end
