(* ===== verification/Gps_Parse.thy ===== *)
theory Gps_Parse
  imports Minmea_Parse
begin

text \<open>
  \<^verbatim>\<open>firmware/libs/gps/src/gps_parse.c\<close>: the global GPS information, the dispatcher \<open>ParseOneNmea\<close> and
  the frame parser \<open>GPS_Parse\<close>. The function-local static variables are part of the state.
\<close>

section \<open>State\<close>

definition GPS_PARSE_MAX_GSA_NUMBER :: nat where
  "GPS_PARSE_MAX_GSA_NUMBER = 2"

definition GPS_PARSE_MAX_GSV_NUMBER :: nat where
  "GPS_PARSE_MAX_GSV_NUMBER = 20"

record GPS_Info =
  g_rmc :: minmea_sentence_rmc
  g_gsa :: "minmea_sentence_gsa list"
  g_gga :: minmea_sentence_gga
  g_gll :: minmea_sentence_gll
  g_gst :: minmea_sentence_gst
  g_gsv :: "minmea_sentence_gsv list"
  g_vtg :: minmea_sentence_vtg
  g_zda :: minmea_sentence_zda

text \<open>\<open>g_gps_info\<close>, the statics of \<open>ParseOneNmea\<close>, and the static \<open>flag\<close> of \<open>GPS_Parse\<close>.\<close>

record parse_state =
  g_gps_info :: GPS_Info
  flag_old :: int
  gsv_count :: nat
  gsa_count :: nat
  parse_flag :: int

section \<open>One sentence\<close>

definition new_frame :: "int \<Rightarrow> parse_state \<Rightarrow> parse_state" where
  "new_frame flag st =
     (if flag \<noteq> flag_old st then st\<lparr>flag_old := flag, gsv_count := 0, gsa_count := 0\<rparr> else st)"

definition ParseOneNmea :: "byte list \<Rightarrow> int \<Rightarrow> parse_state \<Rightarrow> bool \<times> parse_state" where
  "ParseOneNmea line flag st0 =
     (let st = new_frame flag st0; info = g_gps_info st
      in case minmea_sentence_id line False of
           MINMEA_SENTENCE_RMC \<Rightarrow>
             (True, st\<lparr>g_gps_info := info\<lparr>g_rmc := snd (minmea_parse_rmc (g_rmc info) line)\<rparr>\<rparr>)
         | MINMEA_SENTENCE_GGA \<Rightarrow>
             (True, st\<lparr>g_gps_info := info\<lparr>g_gga := snd (minmea_parse_gga (g_gga info) line)\<rparr>\<rparr>)
         | MINMEA_SENTENCE_GST \<Rightarrow>
             (True, st\<lparr>g_gps_info := info\<lparr>g_gst := snd (minmea_parse_gst (g_gst info) line)\<rparr>\<rparr>)
         | MINMEA_SENTENCE_GSV \<Rightarrow>
             (True,
              if gsv_count st < GPS_PARSE_MAX_GSV_NUMBER then
                st\<lparr>g_gps_info := info\<lparr>g_gsv := (g_gsv info)
                     [gsv_count st := snd (minmea_parse_gsv (g_gsv info ! gsv_count st) line)]\<rparr>,
                   gsv_count := gsv_count st + 1\<rparr>
              else st)
         | MINMEA_SENTENCE_VTG \<Rightarrow>
             (True, st\<lparr>g_gps_info := info\<lparr>g_vtg := snd (minmea_parse_vtg (g_vtg info) line)\<rparr>\<rparr>)
         | MINMEA_SENTENCE_ZDA \<Rightarrow>
             (True, st\<lparr>g_gps_info := info\<lparr>g_zda := snd (minmea_parse_zda (g_zda info) line)\<rparr>\<rparr>)
         | MINMEA_SENTENCE_GSA \<Rightarrow>
             (True,
              if gsa_count st < GPS_PARSE_MAX_GSA_NUMBER then
                st\<lparr>g_gps_info := info\<lparr>g_gsa := (g_gsa info)
                     [gsa_count st := snd (minmea_parse_gsa (g_gsa info ! gsa_count st) line)]\<rparr>,
                   gsa_count := gsa_count st + 1\<rparr>
              else st)
         | MINMEA_SENTENCE_GLL \<Rightarrow>
             (True, st\<lparr>g_gps_info := info\<lparr>g_gll := snd (minmea_parse_gll (g_gll info) line)\<rparr>\<rparr>)
         | _ \<Rightarrow> (False, st))"

section \<open>A frame of sentences\<close>

text \<open>
  The loop over \<open>nmeas\<close>. The sentence runs from the dollar sign through the line end; the pointer
  advances by the sentence's length from where it stood, not from the dollar sign.
\<close>

function GPS_Parse_loop :: "byte list \<Rightarrow> bool \<Rightarrow> int \<Rightarrow> parse_state \<Rightarrow> bool \<times> parse_state" where
  "GPS_Parse_loop nmeas retFlag flag st =
     (case find_sub ''$'' nmeas of
        None \<Rightarrow> (retFlag, st)
      | Some i1 \<Rightarrow>
          (case find_sub CRLF (drop i1 nmeas) of
             None \<Rightarrow> (retFlag, st)
           | Some n \<Rightarrow>
               (let (ok, st') = ParseOneNmea (take (n + 2) (drop i1 nmeas)) flag st
                in GPS_Parse_loop (drop (n + 2) nmeas) ok flag st')))"
  by pat_completeness auto
termination
proof (relation "measure (\<lambda>(nmeas, _). length nmeas)")
  fix nmeas :: "byte list" and flag i1 n x ok st'
  assume "find_sub CRLF (drop i1 nmeas) = Some n"
  then have "n + 2 \<le> length nmeas" using find_sub_bound by fastforce
  then show "((drop (n + 2) nmeas, ok, flag, st'), (nmeas, retFlag, flag, st)) \<in> measure (\<lambda>(nmeas, _). length nmeas)"
    for retFlag st by simp
qed simp

declare GPS_Parse_loop.simps [simp del]

definition GPS_Parse :: "byte list \<Rightarrow> parse_state \<Rightarrow> bool \<times> parse_state" where
  "GPS_Parse nmeas st =
     (let (ret, st') = GPS_Parse_loop nmeas False (parse_flag st) st
      in (ret, st'\<lparr>parse_flag := u8 (parse_flag st + 1)\<rparr>))"

definition Gps_GetInfo :: "parse_state \<Rightarrow> GPS_Info" where
  "Gps_GetInfo st = g_gps_info st"

section \<open>The information stays well-formed\<close>

definition gps_info_ok :: "GPS_Info \<Rightarrow> bool" where
  "gps_info_ok g \<longleftrightarrow> rmc_ok (g_rmc g) \<and> gga_ok (g_gga g) \<and> gll_ok (g_gll g) \<and> gst_ok (g_gst g)
     \<and> vtg_ok (g_vtg g) \<and> zda_ok (g_zda g)
     \<and> length (g_gsa g) = GPS_PARSE_MAX_GSA_NUMBER \<and> list_all gsa_ok (g_gsa g)
     \<and> length (g_gsv g) = GPS_PARSE_MAX_GSV_NUMBER \<and> list_all gsv_ok (g_gsv g)"

definition parse_ok :: "parse_state \<Rightarrow> bool" where
  "parse_ok st \<longleftrightarrow> gps_info_ok (g_gps_info st) \<and> gsv_count st \<le> GPS_PARSE_MAX_GSV_NUMBER
     \<and> gsa_count st \<le> GPS_PARSE_MAX_GSA_NUMBER \<and> 0 \<le> parse_flag st \<and> parse_flag st < 256"

lemmas parse_types = parse_rmc_type parse_gga_type parse_gll_type parse_gsa_type parse_gsv_type parse_vtg_gst_type

lemma new_frame_ok [wf_intros]: "parse_ok st \<Longrightarrow> parse_ok (new_frame flag st)"
  by (simp add: parse_ok_def new_frame_def)

lemma ParseOneNmea_ok [wf_intros]:
  assumes "parse_ok st"
  shows "parse_ok (snd (ParseOneNmea line flag st))"
proof -
  let ?s = "new_frame flag st"
  have s: "parse_ok ?s" using assms by (rule new_frame_ok)
  have gsv: "gsv_count ?s < GPS_PARSE_MAX_GSV_NUMBER \<Longrightarrow> gsv_ok (g_gsv (g_gps_info ?s) ! gsv_count ?s)"
    using s by (simp add: parse_ok_def gps_info_ok_def list_all_length)
  have gsa: "gsa_count ?s < GPS_PARSE_MAX_GSA_NUMBER \<Longrightarrow> gsa_ok (g_gsa (g_gps_info ?s) ! gsa_count ?s)"
    using s by (simp add: parse_ok_def gps_info_ok_def list_all_length)
  show ?thesis
    using s gsv gsa parse_types
    by (simp add: ParseOneNmea_def Let_def parse_ok_def gps_info_ok_def list_all_update
        split: minmea_sentence_id_t.split)
qed

text \<open>The loop is a fold of \<open>ParseOneNmea\<close> over the lines it cuts out, in their order.\<close>

fun parse_lines :: "byte list list \<Rightarrow> bool \<Rightarrow> int \<Rightarrow> parse_state \<Rightarrow> bool \<times> parse_state" where
  "parse_lines [] ret flag st = (ret, st)"
| "parse_lines (l # ls) ret flag st =
     (let (ok, st') = ParseOneNmea l flag st in parse_lines ls ok flag st')"

function lines_of :: "byte list \<Rightarrow> byte list list" where
  "lines_of nmeas =
     (case find_sub ''$'' nmeas of
        None \<Rightarrow> []
      | Some i \<Rightarrow>
          (case find_sub CRLF (drop i nmeas) of
             None \<Rightarrow> []
           | Some n \<Rightarrow> take (n + 2) (drop i nmeas) # lines_of (drop (n + 2) nmeas)))"
  by pat_completeness auto
termination
proof (relation "measure length")
  fix nmeas :: "byte list" and i n
  assume "find_sub CRLF (drop i nmeas) = Some n"
  then show "(drop (n + 2) nmeas, nmeas) \<in> measure length" using find_sub_bound by fastforce
qed simp

declare lines_of.simps [simp del]

lemma GPS_Parse_loop_lines: "GPS_Parse_loop nmeas ret flag st = parse_lines (lines_of nmeas) ret flag st"
proof (induction nmeas arbitrary: ret st rule: lines_of.induct)
  case (1 nmeas)
  show ?case
  proof (cases "find_sub ''$'' nmeas")
    case None
    then show ?thesis by (simp add: GPS_Parse_loop.simps [of nmeas] lines_of.simps [of nmeas])
  next
    case i: (Some i)
    show ?thesis
    proof (cases "find_sub CRLF (drop i nmeas)")
      case None
      then show ?thesis using i by (simp add: GPS_Parse_loop.simps [of nmeas] lines_of.simps [of nmeas])
    next
      case (Some n)
      show ?thesis
        using i Some 1 [OF i Some]
        by (simp add: GPS_Parse_loop.simps [of nmeas] lines_of.simps [of nmeas] prod.case_eq_if Let_def)
    qed
  qed
qed

lemma GPS_Parse_lines:
  "GPS_Parse nmeas st =
     (let (ret, st') = parse_lines (lines_of nmeas) False (parse_flag st) st
      in (ret, st'\<lparr>parse_flag := u8 (parse_flag st + 1)\<rparr>))"
  by (simp add: GPS_Parse_def GPS_Parse_loop_lines)

lemma parse_lines_ok: "parse_ok st \<Longrightarrow> parse_ok (snd (parse_lines ls ret flag st))"
proof (induction ls arbitrary: ret st)
  case (Cons l ls)
  then show ?case using ParseOneNmea_ok [OF Cons.prems] by (simp add: prod.case_eq_if Let_def)
qed simp

lemma GPS_Parse_ok [wf_intros]: "parse_ok st \<Longrightarrow> parse_ok (snd (GPS_Parse nmeas st))"
  using parse_lines_ok [of st "lines_of nmeas" False "parse_flag st"]
  by (simp add: GPS_Parse_lines prod.case_eq_if parse_ok_def)

lemma parse_lines_append:
  "parse_lines (xs @ ys) ret flag st =
     (let (r, st') = parse_lines xs ret flag st in parse_lines ys r flag st')"
  by (induction xs arbitrary: ret st) (simp_all add: prod.case_eq_if Let_def)

section \<open>Which lines a clean frame is cut into\<close>

definition clean_line :: "byte list \<Rightarrow> bool" where
  "clean_line s \<longleftrightarrow> byte_at s 0 = CHR ''$'' \<and> CHR 0x0D \<notin> set s"

lemma find_CRLF_line: "CHR 0x0D \<notin> set s \<Longrightarrow> find_sub CRLF (s @ CRLF @ t) = Some (length s)"
  using find_sub_skip [of CRLF s "CRLF @ t"] by simp

lemma find_CRLF_none: "CHR 0x0D \<notin> set s \<Longrightarrow> find_sub CRLF s = None"
proof -
  assume "CHR 0x0D \<notin> set s"
  then have "find_sub CRLF (s @ []) = map_option ((+) (length s)) (find_sub CRLF [])"
    by (intro find_sub_skip) simp_all
  then show ?thesis by simp
qed

lemma lines_of_clean:
  assumes "list_all clean_line ss" "CHR 0x0D \<notin> set tail"
  shows "lines_of (concat (map (\<lambda>s. s @ CRLF) ss) @ tail) = map (\<lambda>s. s @ CRLF) ss"
  using assms(1)
proof (induction ss)
  case Nil
  have "find_sub CRLF (drop i tail) = None" for i
    using assms(2) find_CRLF_none set_drop_subset [of i tail] by blast
  then show ?case by (subst lines_of.simps) (simp split: option.split)
next
  case (Cons s ss)
  then obtain s' where s: "s = CHR ''$'' # s'" by (cases s) (auto simp: clean_line_def byte_at_def)
  have cr: "CHR 0x0D \<notin> set s" using Cons.prems by (simp add: clean_line_def)
  let ?t = "concat (map (\<lambda>s. s @ CRLF) ss) @ tail"
  have "find_sub ''$'' (s @ CRLF @ ?t) = Some 0" using s by simp
  moreover have "find_sub CRLF (s @ CRLF @ ?t) = Some (length s)" by (rule find_CRLF_line [OF cr])
  ultimately show ?case
    using Cons by (subst lines_of.simps) simp
qed

section \<open>Slots of a frame\<close>

text \<open>The kind of each line decides which counter it moves.\<close>

abbreviation is_gsv :: "byte list \<Rightarrow> bool" where
  "is_gsv l \<equiv> minmea_sentence_id l False = MINMEA_SENTENCE_GSV"

abbreviation is_gsa :: "byte list \<Rightarrow> bool" where
  "is_gsa l \<equiv> minmea_sentence_id l False = MINMEA_SENTENCE_GSA"

lemma ParseOneNmea_counts:
  assumes "flag_old st = flag"
  shows "flag_old (snd (ParseOneNmea l flag st)) = flag"
    and "gsv_count (snd (ParseOneNmea l flag st)) =
      (if is_gsv l \<and> gsv_count st < GPS_PARSE_MAX_GSV_NUMBER then gsv_count st + 1 else gsv_count st)"
    and "gsa_count (snd (ParseOneNmea l flag st)) =
      (if is_gsa l \<and> gsa_count st < GPS_PARSE_MAX_GSA_NUMBER then gsa_count st + 1 else gsa_count st)"
  using assms by (simp_all add: ParseOneNmea_def new_frame_def Let_def split: minmea_sentence_id_t.split)

lemma parse_lines_counts:
  assumes "flag_old st = flag" "gsv_count st \<le> GPS_PARSE_MAX_GSV_NUMBER" "gsa_count st \<le> GPS_PARSE_MAX_GSA_NUMBER"
  shows "gsv_count (snd (parse_lines ls ret flag st))
      = min GPS_PARSE_MAX_GSV_NUMBER (gsv_count st + length (filter is_gsv ls))
    \<and> gsa_count (snd (parse_lines ls ret flag st))
      = min GPS_PARSE_MAX_GSA_NUMBER (gsa_count st + length (filter is_gsa ls))"
  using assms
proof (induction ls arbitrary: ret st)
  case (Cons l ls)
  let ?st = "snd (ParseOneNmea l flag st)"
  note c = ParseOneNmea_counts [OF Cons.prems(1), of l]
  have "gsv_count ?st \<le> GPS_PARSE_MAX_GSV_NUMBER" "gsa_count ?st \<le> GPS_PARSE_MAX_GSA_NUMBER"
    using c Cons.prems by auto
  from Cons.IH [OF c(1) this, of "fst (ParseOneNmea l flag st)"] show ?case
    using c Cons.prems by (auto simp: prod.case_eq_if Let_def)
qed simp

text \<open>The first line of a frame resets the counters when the flag is new.\<close>

lemma ParseOneNmea_new_frame:
  "ParseOneNmea l flag st = ParseOneNmea l flag (new_frame flag st)"
  by (simp add: ParseOneNmea_def new_frame_def Let_def)

lemma parse_lines_new_frame:
  "ls \<noteq> [] \<Longrightarrow> parse_lines ls ret flag st = parse_lines ls ret flag (new_frame flag st)"
  by (cases ls) (simp_all add: ParseOneNmea_new_frame [symmetric])

lemma flag_old_new_frame [simp]: "flag_old (new_frame flag st) = flag"
  by (simp add: new_frame_def)

text \<open>Lines of one kind do not disturb the record of another.\<close>

lemma ParseOneNmea_rmc_frame:
  "minmea_sentence_id l False \<noteq> MINMEA_SENTENCE_RMC \<Longrightarrow>
     g_rmc (g_gps_info (snd (ParseOneNmea l flag st))) = g_rmc (g_gps_info st)"
  by (simp add: ParseOneNmea_def new_frame_def Let_def split: minmea_sentence_id_t.split)

lemma ParseOneNmea_gga_frame:
  "minmea_sentence_id l False \<noteq> MINMEA_SENTENCE_GGA \<Longrightarrow>
     g_gga (g_gps_info (snd (ParseOneNmea l flag st))) = g_gga (g_gps_info st)"
  by (simp add: ParseOneNmea_def new_frame_def Let_def split: minmea_sentence_id_t.split)

text \<open>The record after a frame is the one its last sentence of that kind wrote.\<close>

lemma parse_lines_rmc:
  assumes "\<forall>l\<in>set ls. minmea_sentence_id l False \<noteq> MINMEA_SENTENCE_RMC"
  shows "g_rmc (g_gps_info (snd (parse_lines ls ret flag st))) = g_rmc (g_gps_info st)"
  using assms ParseOneNmea_rmc_frame
  by (induction ls arbitrary: ret st) (simp_all add: prod.case_eq_if Let_def)

lemma parse_lines_gga:
  assumes "\<forall>l\<in>set ls. minmea_sentence_id l False \<noteq> MINMEA_SENTENCE_GGA"
  shows "g_gga (g_gps_info (snd (parse_lines ls ret flag st))) = g_gga (g_gps_info st)"
  using assms ParseOneNmea_gga_frame
  by (induction ls arbitrary: ret st) (simp_all add: prod.case_eq_if Let_def)

lemma parse_lines_last_rmc:
  assumes "minmea_sentence_id l False = MINMEA_SENTENCE_RMC"
    and "\<forall>l\<in>set post. minmea_sentence_id l False \<noteq> MINMEA_SENTENCE_RMC"
  shows "\<exists>r. g_rmc (g_gps_info (snd (parse_lines (pre @ l # post) ret flag st))) = snd (minmea_parse_rmc r l)"
  using assms(1)
  by (auto simp: parse_lines_append prod.case_eq_if Let_def parse_lines_rmc [OF assms(2)] ParseOneNmea_def)

lemma parse_lines_last_gga:
  assumes "minmea_sentence_id l False = MINMEA_SENTENCE_GGA"
    and "\<forall>l\<in>set post. minmea_sentence_id l False \<noteq> MINMEA_SENTENCE_GGA"
  shows "\<exists>r. g_gga (g_gps_info (snd (parse_lines (pre @ l # post) ret flag st))) = snd (minmea_parse_gga r l)"
  using assms(1)
  by (auto simp: parse_lines_append prod.case_eq_if Let_def parse_lines_gga [OF assms(2)] ParseOneNmea_def)

section \<open>The state at power-on\<close>

text \<open>Globals and statics are zero, but for \<open>flag_old\<close>, which starts as \<open>0xff\<close>.\<close>

definition zero_float :: minmea_float where
  "zero_float = \<lparr>mf_value = 0, mf_scale = 0\<rparr>"

definition zero_time :: minmea_time where
  "zero_time = \<lparr>hours = 0, minutes = 0, seconds = 0, microseconds = 0\<rparr>"

definition zero_date :: minmea_date where
  "zero_date = \<lparr>day = 0, month = 0, year = 0\<rparr>"

definition zero_info :: GPS_Info where
  "zero_info =
     \<lparr>g_rmc = \<lparr>rmc_time = zero_time, rmc_valid = False, rmc_latitude = zero_float, rmc_longitude = zero_float,
        rmc_speed = zero_float, rmc_course = zero_float, rmc_date = zero_date, rmc_variation = zero_float\<rparr>,
      g_gsa = replicate GPS_PARSE_MAX_GSA_NUMBER
        \<lparr>gsa_mode = NUL, gsa_fix_type = 0, gsa_sats = replicate 12 0,
         gsa_pdop = zero_float, gsa_hdop = zero_float, gsa_vdop = zero_float\<rparr>,
      g_gga = \<lparr>gga_time = zero_time, gga_latitude = zero_float, gga_longitude = zero_float,
        gga_fix_quality = 0, gga_satellites_tracked = 0, gga_hdop = zero_float, gga_altitude = zero_float,
        gga_altitude_units = NUL, gga_height = zero_float, gga_height_units = NUL, gga_dgps_age = zero_float\<rparr>,
      g_gll = \<lparr>gll_latitude = zero_float, gll_longitude = zero_float, gll_time = zero_time,
        gll_status = NUL, gll_mode = NUL\<rparr>,
      g_gst = \<lparr>gst_time = zero_time, gst_rms_deviation = zero_float, gst_semi_major_deviation = zero_float,
        gst_semi_minor_deviation = zero_float, gst_semi_major_orientation = zero_float,
        gst_latitude_error_deviation = zero_float, gst_longitude_error_deviation = zero_float,
        gst_altitude_error_deviation = zero_float\<rparr>,
      g_gsv = replicate GPS_PARSE_MAX_GSV_NUMBER
        \<lparr>gsv_total_msgs = 0, gsv_msg_nr = 0, gsv_total_sats = 0,
         gsv_sats = replicate 4 \<lparr>sat_nr = 0, sat_elevation = 0, sat_azimuth = 0, sat_snr = 0\<rparr>\<rparr>,
      g_vtg = \<lparr>vtg_true_track_degrees = zero_float, vtg_magnetic_track_degrees = zero_float,
        vtg_speed_knots = zero_float, vtg_speed_kph = zero_float, vtg_faa_mode = NUL\<rparr>,
      g_zda = \<lparr>zda_time = zero_time, zda_date = zero_date, zda_hour_offset = 0, zda_minute_offset = 0\<rparr>\<rparr>"

definition parse_state0 :: parse_state where
  "parse_state0 = \<lparr>g_gps_info = zero_info, flag_old = 255, gsv_count = 0, gsa_count = 0, parse_flag = 0\<rparr>"

lemma zero_float_ok [simp]: "mf_ok zero_float"
  by (simp add: mf_ok_def zero_float_def INT_MAX_def in_s32_def)

lemma parse_state0_ok [wf_intros]: "parse_ok parse_state0"
  by (simp add: parse_ok_def parse_state0_def gps_info_ok_def zero_info_def rmc_ok_def gga_ok_def gll_ok_def
      gst_ok_def vtg_ok_def zda_ok_def gsa_ok_def gsv_ok_def sat_ok_def zero_date_def in_s32_def list_all_iff)

section \<open>Claims\<close>

definition parse_all :: "byte list list \<Rightarrow> parse_state \<Rightarrow> parse_state" where
  "parse_all frames st = fold (\<lambda>f st. snd (GPS_Parse f st)) frames st"


text \<open>The satellite slots: the \<open>k\<close>-th line of a kind is parsed into slot \<open>k\<close>, on top of what it held.\<close>

lemma ParseOneNmea_gsv_slot:
  assumes "flag_old st = flag" "length (g_gsv (g_gps_info st)) = GPS_PARSE_MAX_GSV_NUMBER"
    and "k < GPS_PARSE_MAX_GSV_NUMBER"
  shows "g_gsv (g_gps_info (snd (ParseOneNmea l flag st))) ! k =
      (if is_gsv l \<and> gsv_count st = k then snd (minmea_parse_gsv (g_gsv (g_gps_info st) ! k) l)
       else g_gsv (g_gps_info st) ! k)"
    and "length (g_gsv (g_gps_info (snd (ParseOneNmea l flag st)))) = GPS_PARSE_MAX_GSV_NUMBER"
  using assms by (simp_all add: ParseOneNmea_def new_frame_def Let_def nth_list_update split: minmea_sentence_id_t.split)

lemma parse_lines_gsv_slots:
  assumes "flag_old st = flag" "length (g_gsv (g_gps_info st)) = GPS_PARSE_MAX_GSV_NUMBER"
    and "k < GPS_PARSE_MAX_GSV_NUMBER"
  shows "g_gsv (g_gps_info (snd (parse_lines ls ret flag st))) ! k =
      (if gsv_count st \<le> k \<and> k - gsv_count st < length (filter is_gsv ls)
       then snd (minmea_parse_gsv (g_gsv (g_gps_info st) ! k) (filter is_gsv ls ! (k - gsv_count st)))
       else g_gsv (g_gps_info st) ! k)"
  using assms(1,2)
proof (induction ls arbitrary: ret st)
  case (Cons l ls)
  let ?st = "snd (ParseOneNmea l flag st)"
  note c = ParseOneNmea_counts [OF Cons.prems(1), of l]
  note s = ParseOneNmea_gsv_slot [OF Cons.prems assms(3), of l]
  note IH = Cons.IH [OF c(1) s(2), of "fst (ParseOneNmea l flag st)"]
  have rest: "parse_lines (l # ls) ret flag st = parse_lines ls (fst (ParseOneNmea l flag st)) flag ?st"
    by (simp add: prod.case_eq_if Let_def)
  consider "\<not> is_gsv l" | "is_gsv l" "gsv_count st < k" | "is_gsv l" "gsv_count st = k" | "is_gsv l" "k < gsv_count st"
    by linarith
  then show ?case
  proof cases
    case 2
    then have "k - gsv_count st = Suc (k - Suc (gsv_count st))" by simp
    then show ?thesis unfolding rest IH using 2 s(1) c(2) assms(3) by simp
  qed (use rest IH s(1) c(2) assms(3) in auto)
qed simp

text \<open>C16: Within one frame of sentences the satellites in view are kept in order: the \<open>k\<close>-th GSV sentence
  is parsed into slot \<open>k\<close>, slots without a sentence keep what they held, sentences beyond the twenty slots
  are dropped, and GSA sentences are counted the same way. The slots start over with every new frame.\<close>

theorem frame_fills_slots:
  assumes "parse_ok st" "flag_old st \<noteq> parse_flag st" "lines_of frame \<noteq> []" "k < GPS_PARSE_MAX_GSV_NUMBER"
  shows "g_gsv (g_gps_info (snd (GPS_Parse frame st))) ! k =
      (let gsv = filter is_gsv (lines_of frame)
       in if k < length gsv then snd (minmea_parse_gsv (g_gsv (g_gps_info st) ! k) (gsv ! k))
          else g_gsv (g_gps_info st) ! k)
    \<and> gsv_count (snd (GPS_Parse frame st)) = min GPS_PARSE_MAX_GSV_NUMBER (length (filter is_gsv (lines_of frame)))
    \<and> gsa_count (snd (GPS_Parse frame st)) = min GPS_PARSE_MAX_GSA_NUMBER (length (filter is_gsa (lines_of frame)))
    \<and> flag_old (snd (GPS_Parse frame st)) \<noteq> parse_flag (snd (GPS_Parse frame st))"
proof -
  let ?fl = "parse_flag st"
  let ?n = "new_frame ?fl st"
  have eq: "parse_lines (lines_of frame) False ?fl st = parse_lines (lines_of frame) False ?fl ?n"
    by (rule parse_lines_new_frame [OF assms(3)])
  have n: "gsv_count ?n = 0" "gsa_count ?n = 0" "g_gps_info ?n = g_gps_info st" using assms(2) by (simp_all add: new_frame_def)
  have len: "length (g_gsv (g_gps_info ?n)) = GPS_PARSE_MAX_GSV_NUMBER"
    using assms(1) n by (simp add: parse_ok_def gps_info_ok_def)
  have fo: "flag_old s = ?fl \<Longrightarrow> flag_old (snd (parse_lines ls r ?fl s)) = ?fl" for ls r s
    by (induction ls arbitrary: r s) (simp_all add: prod.case_eq_if Let_def ParseOneNmea_counts(1))
  have "0 \<le> ?fl" "?fl < 256" using assms(1) by (simp_all add: parse_ok_def)
  then have u: "u8 (?fl + 1) \<noteq> ?fl" by (cases "?fl = 255") (simp_all add: u8_def)
  show ?thesis
    using parse_lines_gsv_slots [OF flag_old_new_frame len assms(4), of "lines_of frame" False]
      parse_lines_counts [of ?n ?fl "lines_of frame" False] fo [of ?n "lines_of frame" False] n u
    by (simp add: GPS_Parse_lines eq prod.case_eq_if Let_def)
qed

definition two_gsv :: "byte list" where
  "two_gsv = ''$GPGSV,2,1,05,193,60,100,40'' @ CRLF @ ''$GPGSV,2,2,05,19,46,346,13'' @ CRLF"

theorem frame_fills_slots_witness:
  "gsv_count (snd (GPS_Parse two_gsv parse_state0)) = 2
    \<and> sat_nr (gsv_sats (g_gsv (g_gps_info (snd (GPS_Parse two_gsv parse_state0))) ! 1) ! 0) = 19"
proof -
  have l: "filter is_gsv (lines_of two_gsv) = [''$GPGSV,2,1,05,193,60,100,40'' @ CRLF, ''$GPGSV,2,2,05,19,46,346,13'' @ CRLF]"
    "lines_of two_gsv \<noteq> []" by code_simp+
  have p: "flag_old parse_state0 \<noteq> parse_flag parse_state0" by (simp add: parse_state0_def)
  have v: "sat_nr (gsv_sats (snd (minmea_parse_gsv (g_gsv (g_gps_info parse_state0) ! 1)
      (''$GPGSV,2,2,05,19,46,346,13'' @ CRLF))) ! 0) = 19" by code_simp
  show ?thesis
    using frame_fills_slots [OF parse_state0_ok p l(2), of 1] l(1) v
    by (simp add: GPS_PARSE_MAX_GSV_NUMBER_def)
qed

end
