(* ===== verification/Gps_Ack.thy ===== *)
theory Gps_Ack
  imports Minmea_Scan
begin

text \<open>
  The command protocol of \<^verbatim>\<open>firmware/libs/gps/src/gps.c\<close> on byte blocks: parity trailers, the
  acknowledgement parsers and the trailer that \<open>GPS_CMDSend\<close> appends. A block is the bytes of an
  array; reading behind it is the fault \<open>Out_Of_Bounds\<close>. The copy of an acknowledgement has no
  terminating NUL, so a search that does not end within the block runs out of it.
\<close>

section \<open>Blocks\<close>

definition rbind :: "'a result \<Rightarrow> ('a \<Rightarrow> 'b result) \<Rightarrow> 'b result" where
  "rbind r f = (case r of Inl e \<Rightarrow> Inl e | Inr x \<Rightarrow> f x)"

lemma rbind_simps [simp]: "rbind (Inr x) f = f x" "rbind (Inl e) f = Inl e"
  by (simp_all add: rbind_def)

definition blk_at :: "byte list \<Rightarrow> nat \<Rightarrow> byte result" where
  "blk_at b i = (if i < length b then Inr (b ! i) else Inl Out_Of_Bounds)"

text \<open>\<open>strstr(b + from, pat)\<close>, as an offset into the block.\<close>

definition strstr_blk :: "byte list \<Rightarrow> byte list \<Rightarrow> nat \<Rightarrow> nat option result" where
  "strstr_blk pat b from =
     (if length b < from then Inl Out_Of_Bounds
      else case find_sub pat (cstr (drop from b)) of
        Some i \<Rightarrow> Inr (Some (from + i))
      | None \<Rightarrow> if NUL \<in> set (drop from b) then Inr None else Inl Out_Of_Bounds)"

section \<open>Commands and results\<close>

datatype GPS_CMD_t =
    GPS_CMD_FAIL
  | GPS_CMD_ACK
  | GPS_CMD_ACK_GPD
  | GPS_CMD_REBOOT
  | GPS_CMD_ERASE_INFO_IN_FLASH
  | GPS_CMD_STANDBY_MODE
  | GPS_CMD_NMEA_OUTPUT_INTERVAL
  | GPS_CMD_LP_MODE
  | GPS_CMD_NMEA_OUTPUT_QZSS
  | GPS_CMD_QZSS
  | GPS_CMD_SEARCH_MODE
  | GPS_CMD_FORMAT
  | GPS_CMD_SBAS
  | GPS_CMD_NMEA_OUTPUT_FREQ
  | GPS_CMD_SET_RTC_TIME
  | GPS_CMD_GET_VERSION
  | GPS_CMD_ACK_VERSION
  | GPS_CMD_GPD_PACK
  | GPS_CMD_SET_LOCATION_TIME
  | GPS_CMD_FIX_MODE

fun cmd_code :: "GPS_CMD_t \<Rightarrow> int" where
  "cmd_code GPS_CMD_FAIL = 0"
| "cmd_code GPS_CMD_ACK = 1"
| "cmd_code GPS_CMD_ACK_GPD = 3"
| "cmd_code GPS_CMD_REBOOT = 30"
| "cmd_code GPS_CMD_ERASE_INFO_IN_FLASH = 40"
| "cmd_code GPS_CMD_STANDBY_MODE = 51"
| "cmd_code GPS_CMD_NMEA_OUTPUT_INTERVAL = 101"
| "cmd_code GPS_CMD_LP_MODE = 105"
| "cmd_code GPS_CMD_NMEA_OUTPUT_QZSS = 113"
| "cmd_code GPS_CMD_QZSS = 114"
| "cmd_code GPS_CMD_SEARCH_MODE = 115"
| "cmd_code GPS_CMD_FORMAT = 149"
| "cmd_code GPS_CMD_SBAS = 239"
| "cmd_code GPS_CMD_NMEA_OUTPUT_FREQ = 242"
| "cmd_code GPS_CMD_SET_RTC_TIME = 278"
| "cmd_code GPS_CMD_GET_VERSION = 462"
| "cmd_code GPS_CMD_ACK_VERSION = 463"
| "cmd_code GPS_CMD_GPD_PACK = 614"
| "cmd_code GPS_CMD_SET_LOCATION_TIME = 639"
| "cmd_code GPS_CMD_FIX_MODE = 786"

text \<open>The commands \<open>GPS_IsCMDValid\<close> lists; a valid code is cast to its enumerator.\<close>

definition valid_cmds :: "GPS_CMD_t list" where
  "valid_cmds =
     [GPS_CMD_ACK, GPS_CMD_ACK_GPD, GPS_CMD_REBOOT, GPS_CMD_ERASE_INFO_IN_FLASH, GPS_CMD_STANDBY_MODE,
      GPS_CMD_NMEA_OUTPUT_INTERVAL, GPS_CMD_LP_MODE, GPS_CMD_NMEA_OUTPUT_QZSS, GPS_CMD_QZSS,
      GPS_CMD_SEARCH_MODE, GPS_CMD_FORMAT, GPS_CMD_SBAS, GPS_CMD_NMEA_OUTPUT_FREQ,
      GPS_CMD_SET_RTC_TIME, GPS_CMD_GET_VERSION, GPS_CMD_ACK_VERSION, GPS_CMD_GPD_PACK,
      GPS_CMD_SET_LOCATION_TIME, GPS_CMD_FIX_MODE]"

definition GPS_IsCMDValid :: "int \<Rightarrow> bool" where
  "GPS_IsCMDValid cmd \<longleftrightarrow> cmd \<in> set (map cmd_code valid_cmds)"

definition cmd_of_code :: "int \<Rightarrow> GPS_CMD_t" where
  "cmd_of_code c = (case find (\<lambda>k. cmd_code k = c) valid_cmds of None \<Rightarrow> GPS_CMD_FAIL | Some k \<Rightarrow> k)"

datatype GPS_CMD_Ack_t =
    GPS_CMD_ACK_FAIL
  | GPS_CMD_ACK_NOT_SUPPORT
  | GPS_CMD_ACK_EXEC_FAIL
  | GPS_CMD_ACK_EXEC_SUCCESS

fun ack_code :: "GPS_CMD_Ack_t \<Rightarrow> int" where
  "ack_code GPS_CMD_ACK_FAIL = 0"
| "ack_code GPS_CMD_ACK_NOT_SUPPORT = 1"
| "ack_code GPS_CMD_ACK_EXEC_FAIL = 2"
| "ack_code GPS_CMD_ACK_EXEC_SUCCESS = 3"

definition GPS_IsCMDACKValid :: "int \<Rightarrow> bool" where
  "GPS_IsCMDACKValid ack \<longleftrightarrow> ack = 0 \<or> ack = 1 \<or> ack = 2 \<or> ack = 3"

definition ack_of_code :: "int \<Rightarrow> GPS_CMD_Ack_t" where
  "ack_of_code r = (if r = 1 then GPS_CMD_ACK_NOT_SUPPORT else if r = 2 then GPS_CMD_ACK_EXEC_FAIL
     else if r = 3 then GPS_CMD_ACK_EXEC_SUCCESS else GPS_CMD_ACK_FAIL)"

abbreviation GPS_CMD_HEADER :: "byte list" where
  "GPS_CMD_HEADER \<equiv> ''$PGKC''"

abbreviation GPS_CMD_BINARY_HEADER :: "byte list" where
  "GPS_CMD_BINARY_HEADER \<equiv> [CHR 0xAA, CHR 0xF0]"

section \<open>Parity\<close>

definition Hex_Str :: "int \<Rightarrow> byte" where
  "Hex_Str n = ''0123456789ABCDEF'' ! nat n"

text \<open>
  \<open>Hex_Str[result >> 4]\<close>: \<open>result\<close> is a signed \<open>char\<close>, so a parity with its top bit set indexes in
  front of the table.
\<close>

definition parity_hex :: "int \<Rightarrow> (byte \<times> byte) result" where
  "parity_hex r = (if r \<ge> 128 then Inl Out_Of_Bounds else Inr (Hex_Str (r div 16), Hex_Str (r mod 16)))"

text \<open>\<open>str\<close> is a pointer to a block; \<open>None\<close> is the null pointer.\<close>

definition GPS_CheckParity :: "byte list option \<Rightarrow> bool result" where
  "GPS_CheckParity str =
     (case str of
        None \<Rightarrow> Inr False
      | Some s \<Rightarrow>
          rbind (strstr_blk ''*'' s 0) (\<lambda>star.
          if star = None then Inr False
          else rbind (blk_at s 1) (\<lambda>c1.
            let body = takeWhile (\<lambda>c. c \<noteq> CHR ''*'') (drop 2 s); i = 2 + length body;
                r = xor_bytes (uchar c1) body
            in if length s \<le> i then Inl Out_Of_Bounds
               else rbind (parity_hex r) (\<lambda>(hi, lo).
                 rbind (blk_at s (i + 1)) (\<lambda>h.
                 if hi \<noteq> h then Inr False
                 else rbind (blk_at s (i + 2)) (\<lambda>l. Inr (lo = l)))))))"

text \<open>The length field of a binary message, less the trailer, as \<open>uint16_t\<close>.\<close>

definition binary_len :: "byte list \<Rightarrow> nat" where
  "binary_len data = nat (u16 (uchar (data ! 2) + 256 * uchar (data ! 3) - 3))"

definition binary_parity :: "byte list \<Rightarrow> int" where
  "binary_parity data = xor_bytes (uchar (data ! 2)) (take (binary_len data - 3) (drop 3 data))"

definition GPS_CheckParityBinary :: "byte list \<Rightarrow> bool result" where
  "GPS_CheckParityBinary data =
     (if length data < 4 \<or> length data \<le> binary_len data then Inl Out_Of_Bounds
      else Inr (binary_parity data = uchar (data ! binary_len data)))"

section \<open>Acknowledgements\<close>

definition GPS_GetAckCmd :: "byte list \<Rightarrow> GPS_CMD_t result" where
  "GPS_GetAckCmd str =
     rbind (strstr_blk GPS_CMD_HEADER str 0) (\<lambda>index.
     case index of
       None \<Rightarrow> Inr GPS_CMD_FAIL
     | Some i \<Rightarrow>
         rbind (blk_at str (i + 5)) (\<lambda>a. rbind (blk_at str (i + 6)) (\<lambda>b. rbind (blk_at str (i + 7)) (\<lambda>c.
           let ackCmd0 = u16 ((schar a - 48) * 100 + (schar b - 48) * 10 + (schar c - 48))
           in Inr (if \<not> GPS_IsCMDValid ackCmd0 then GPS_CMD_FAIL else cmd_of_code ackCmd0)))))"

definition GPS_GetAckCmdBinary :: "byte list \<Rightarrow> GPS_CMD_t result" where
  "GPS_GetAckCmdBinary data =
     (if length data < 6 then Inl Out_Of_Bounds
      else if take 2 data \<noteq> GPS_CMD_BINARY_HEADER then Inr GPS_CMD_FAIL
      else let ackCmd0 = uchar (data ! 4) + 256 * uchar (data ! 5)
           in Inr (if \<not> GPS_IsCMDValid ackCmd0 then GPS_CMD_FAIL else cmd_of_code ackCmd0))"

definition digits_u16 :: "byte list \<Rightarrow> int" where
  "digits_u16 cs = foldl (\<lambda>a c. u16 (a * 10 + (schar c - 48))) 0 cs"

definition ack_verdict :: "int \<Rightarrow> int \<Rightarrow> GPS_CMD_t \<Rightarrow> GPS_CMD_Ack_t" where
  "ack_verdict ackCmd res cmdSend =
     (if \<not> GPS_IsCMDValid ackCmd then GPS_CMD_ACK_FAIL
      else if ackCmd \<noteq> cmd_code cmdSend then GPS_CMD_ACK_FAIL
      else if \<not> GPS_IsCMDACKValid res then GPS_CMD_ACK_FAIL
      else ack_of_code res)"

definition GPS_AckCheck :: "byte list \<Rightarrow> GPS_CMD_t \<Rightarrow> GPS_CMD_Ack_t result" where
  "GPS_AckCheck ackStr cmdSend =
     rbind (blk_at ackStr 0) (\<lambda>h0. rbind (blk_at ackStr 1) (\<lambda>h1.
     if [h0, h1] = GPS_CMD_BINARY_HEADER then
       rbind (blk_at ackStr 6) (\<lambda>lo. rbind (blk_at ackStr 7) (\<lambda>hi. rbind (blk_at ackStr 8) (\<lambda>r.
         Inr (ack_verdict (uchar lo + 256 * uchar hi) (uchar r) cmdSend))))
     else
       rbind (strstr_blk GPS_CMD_HEADER ackStr 0) (\<lambda>i0.
       case i0 of None \<Rightarrow> Inr GPS_CMD_ACK_FAIL | Some i \<Rightarrow>
       rbind (strstr_blk '','' ackStr (i + 5)) (\<lambda>c1.
       case c1 of None \<Rightarrow> Inr GPS_CMD_ACK_FAIL | Some j \<Rightarrow>
       rbind (strstr_blk '','' ackStr (j + 1)) (\<lambda>c2.
       case c2 of None \<Rightarrow> Inr GPS_CMD_ACK_FAIL | Some k \<Rightarrow>
       rbind (blk_at ackStr (k + 1)) (\<lambda>r.
         Inr (ack_verdict (digits_u16 (take (k - (j + 1)) (drop (j + 1) ackStr)))
                (u8 (schar r - 48)) cmdSend)))))))"

section \<open>The trailer of a command\<close>

datatype GPS_Format_t = GPS_FORMAT_NMEA | GPS_FORMAT_BINARY

text \<open>\<open>GPS_CMDSend\<close> for a command string: parity from the second character on, then the line end.\<close>

definition nmea_trailer :: "byte list \<Rightarrow> byte list result" where
  "nmea_trailer str =
     (if length str < 2 then Inl Out_Of_Bounds
      else rbind (parity_hex (xor_bytes (uchar (str ! 1)) (drop 2 str))) (\<lambda>(hi, lo).
        Inr (str @ [CHR ''*'', hi, lo] @ CRLF)))"

text \<open>The binary form: the three bytes behind the payload are overwritten in the array.\<close>

definition binary_trailer :: "byte list \<Rightarrow> byte list result" where
  "binary_trailer data =
     (if length data < 4 \<or> length data < binary_len data + 3 then Inl Out_Of_Bounds
      else let len = binary_len data
           in Inr (take (len + 3) (data[len := byte_of (binary_parity data), len + 1 := CHR 0x0D, len + 2 := CHR 0x0A])))"

section \<open>Parity round trips\<close>

lemma xor_bytes_small:
  "0 \<le> a \<Longrightarrow> a < 128 \<Longrightarrow> \<forall>c\<in>set bs. uchar c < 128 \<Longrightarrow> 0 \<le> xor_bytes a bs \<and> xor_bytes a bs < 128"
proof (induction bs arbitrary: a)
  case Nil
  then show ?case by (simp add: xor_bytes_def)
next
  case (Cons c bs)
  then have "0 \<le> a XOR uchar c \<and> a XOR uchar c < 128" using XOR_upper [of a 7 "uchar c"] by simp
  with Cons show ?case by (simp add: xor_bytes_def)
qed

lemma takeWhile_stop: "\<forall>c\<in>set xs. P c \<Longrightarrow> \<not> P y \<Longrightarrow> takeWhile P (xs @ y # ys) = xs"
  by (induction xs) simp_all

lemma cstr_append: "NUL \<notin> set xs \<Longrightarrow> cstr (xs @ ys) = xs @ cstr ys"
  by (induction xs) (auto simp: cstr_def)

lemma find_sub_single: "c \<notin> set xs \<Longrightarrow> find_sub [c] (xs @ c # ys) = Some (length xs)"
  using find_sub_skip [of "[c]" xs "c # ys"] by simp

lemma nmea_trailer_ok:
  assumes "2 \<le> length s" "\<forall>c\<in>set s. uchar c < 128"
  defines "r \<equiv> xor_bytes (uchar (s ! 1)) (drop 2 s)"
  shows "0 \<le> r \<and> r < 128"
    and "nmea_trailer s = Inr (s @ [CHR ''*'', Hex_Str (r div 16), Hex_Str (r mod 16)] @ CRLF)"
proof -
  show r: "0 \<le> r \<and> r < 128"
    unfolding r_def using assms(1,2) by (intro xor_bytes_small) (auto dest: in_set_dropD)
  show "nmea_trailer s = Inr (s @ [CHR ''*'', Hex_Str (r div 16), Hex_Str (r mod 16)] @ CRLF)"
    using assms(1) r by (simp add: nmea_trailer_def parity_hex_def r_def)
qed

text \<open>What \<open>GPS_CMDSend\<close> puts on the wire, \<open>GPS_CheckParity\<close> accepts.\<close>

lemma trailer_parity:
  assumes "2 \<le> length s" "\<forall>c\<in>set s. uchar c < 128" "CHR ''*'' \<notin> set s" "NUL \<notin> set s"
    and "nmea_trailer s = Inr out"
  shows "GPS_CheckParity (Some (out @ rest)) = Inr True"
proof -
  define r where "r = xor_bytes (uchar (s ! 1)) (drop 2 s)"
  define t where "t = [Hex_Str (r div 16), Hex_Str (r mod 16)] @ CRLF @ rest"
  note ok = nmea_trailer_ok [OF assms(1,2), folded r_def]
  have out: "out @ rest = s @ CHR ''*'' # t" using ok(2) assms(5) by (simp add: t_def)
  have "cstr (s @ CHR ''*'' # t) = s @ CHR ''*'' # cstr t"
    using assms(4) by (simp add: cstr_append) (simp add: cstr_def)
  then have star: "strstr_blk ''*'' (s @ CHR ''*'' # t) 0 = Inr (Some (length s))"
    using find_sub_single [OF assms(3)] by (simp add: strstr_blk_def)
  have body: "takeWhile (\<lambda>c. c \<noteq> CHR ''*'') (drop 2 (s @ CHR ''*'' # t)) = drop 2 s"
    using assms(1,3) by (simp, intro takeWhile_stop) (auto dest: in_set_dropD)
  have at: "blk_at (s @ CHR ''*'' # t) 1 = Inr (s ! 1)"
    "blk_at (s @ CHR ''*'' # t) (length s + 1) = Inr (Hex_Str (r div 16))"
    "blk_at (s @ CHR ''*'' # t) (length s + 2) = Inr (Hex_Str (r mod 16))"
    using assms(1) by (auto simp: blk_at_def nth_append t_def)
  have len: "Suc (Suc (length s - 2)) = length s" using assms(1) by simp
  have "parity_hex (xor_bytes (uchar (s ! 1)) (drop 2 s)) = Inr (Hex_Str (r div 16), Hex_Str (r mod 16))"
    using ok(1) by (simp add: parity_hex_def r_def)
  then show ?thesis
    unfolding out GPS_CheckParity_def
    using star body at assms(1) by (simp add: Let_def len)
qed

lemma hex2int_Hex_Str:
  assumes "0 \<le> n" "n < 16"
  shows "hex2int (Hex_Str n) = n"
proof -
  have "n = int (nat n)" "nat n < 16" using assms by auto
  moreover have "k < 16 \<Longrightarrow> hex2int (''0123456789ABCDEF'' ! k) = int k" for k :: nat
    by (simp add: numeral_eq_Suc less_Suc_eq; elim disjE; simp add: hex2int_def uchar_def)
  ultimately show ?thesis by (simp add: Hex_Str_def)
qed

lemma push_or_nibbles:
  assumes "0 \<le> r" "r < (256::int)"
  shows "(push_bit 4 (r div 16) OR (r mod 16)) = r"
proof -
  have "r mod 16 = take_bit 4 r" "r div 16 = drop_bit 4 r"
    by (simp_all add: take_bit_eq_mod drop_bit_eq_div)
  then have eq: "(push_bit 4 (r div 16) OR (r mod 16)) = (push_bit 4 (drop_bit 4 r) OR take_bit 4 r)"
    by simp
  show ?thesis
    unfolding eq by (rule bit_eqI) (auto simp: bit_or_iff bit_push_bit_iff bit_drop_bit_eq bit_take_bit_iff)
qed

text \<open>The same trailer is a checksum in the sense of the NMEA parser.\<close>

lemma trailer_valid_sentence:
  assumes "nmea_trailer (CHR ''$'' # body) = Inr out" "body \<noteq> []" "list_all body_char body" "length body \<le> 77"
  shows "minmea_check out True"
proof -
  obtain b bs where body: "body = b # bs" using assms(2) by (cases body) auto
  have "uchar CHR ''$'' < 128" by (simp add: uchar_def)
  moreover have "c \<in> set body \<Longrightarrow> uchar c < 128" for c
    using assms(3) by (auto simp: list_all_iff body_char_def isprint_def dest!: bspec [of _ _ c])
  ultimately have ascii: "\<forall>c\<in>set (CHR ''$'' # body). uchar c < 128" by simp
  let ?r = "xor_bytes 0 body"
  have r: "xor_bytes (uchar ((CHR ''$'' # body) ! 1)) (drop 2 (CHR ''$'' # body)) = ?r"
    by (simp add: body xor_bytes_def)
  note ok = nmea_trailer_ok [of "CHR ''$'' # body", OF _ ascii, unfolded r]
  have b: "0 \<le> ?r" "?r < 128" using ok(1) body by auto
  have out: "out = CHR ''$'' # body @ CHR ''*'' # Hex_Str (?r div 16) # Hex_Str (?r mod 16) # CRLF"
    using ok(2) assms(1) body by simp
  have "hex_pair (Hex_Str (?r div 16)) (Hex_Str (?r mod 16)) = Some ?r"
    using b push_or_nibbles [of ?r] pos_mod_sign [of 16 ?r] pos_imp_zdiv_nonneg_iff [of 16 ?r]
    by (auto simp: hex_pair_def hex2int_Hex_Str simp del: pos_mod_sign)
  then have "checksum_tail body (CHR ''*'' # Hex_Str (?r div 16) # Hex_Str (?r mod 16) # CRLF)"
    unfolding checksum_tail_def by (auto simp: line_end_def)
  then show ?thesis
    unfolding minmea_check_iff valid_sentence_def using assms(3,4) out by auto
qed

section \<open>Reading an acknowledgement\<close>

lemma dec_val_fmt_u: "dec_val (fmt_u n) = int n"
proof (induction n rule: fmt_u.induct)
  case (1 n)
  show ?case
  proof (cases "n < 10")
    case True
    then show ?thesis by (subst fmt_u.simps) (simp add: uchar_digit_char)
  next
    case False
    have "dec_val (fmt_u n) = dec_val (fmt_u (n div 10) @ [digit_char (n mod 10)])"
      using False by (subst fmt_u.simps) simp
    also have "\<dots> = int (n div 10) * 10 + int (n mod 10)"
      using 1 False by (simp add: dec_from_append uchar_digit_char)
    also have "\<dots> = int (n div 10 * 10 + n mod 10)" by (simp only: of_nat_add of_nat_mult of_nat_numeral)
    finally show ?thesis by (simp only: div_mult_mod_eq)
  qed
qed

lemma schar_digit: "isdigit c \<Longrightarrow> schar c = uchar c"
  by (simp add: schar_def isdigit_def)

lemma digits_u16_dec:
  assumes "\<forall>c\<in>set cs. isdigit c" "dec_val cs < 65536"
  shows "digits_u16 cs = dec_val cs"
proof -
  have "foldl (\<lambda>a c. u16 (a * 10 + (schar c - 48))) a cs = dec_from a cs"
    if "0 \<le> a" "dec_from a cs < 65536" for a
    using assms(1) that
  proof (induction cs arbitrary: a)
    case (Cons c cs)
    have d: "0 \<le> uchar c - 48 \<and> uchar c - 48 \<le> 9" using Cons.prems(1) digit_bounds by simp
    have "a * 10 + (uchar c - 48) \<le> dec_from (a * 10 + (uchar c - 48)) cs"
      using Cons.prems d by (intro dec_from_mono) auto
    then have "u16 (a * 10 + (schar c - 48)) = a * 10 + (uchar c - 48)"
      using Cons.prems d by (simp add: schar_digit u16_id)
    then show ?case using Cons d by simp
  qed simp
  from this [of 0] assms(2) show ?thesis by (simp add: digits_u16_def)
qed

lemma strstr_blk_hit:
  assumes "NUL \<notin> set xs" "c \<notin> set xs" "c \<noteq> NUL"
    and "b = pre @ xs @ c # ys" "n = length pre" "m = length pre + length xs"
  shows "strstr_blk [c] b n = Inr (Some m)"
proof -
  have "cstr (xs @ c # ys) = xs @ c # cstr ys"
    using assms(1,3) by (simp add: cstr_append) (simp add: cstr_def)
  then show ?thesis using find_sub_single [OF assms(2)] by (simp add: strstr_blk_def assms(4-6))
qed

text \<open>The text of a normal acknowledgement, with what follows the result digit.\<close>

definition ack_text :: "GPS_CMD_t \<Rightarrow> GPS_CMD_Ack_t \<Rightarrow> byte list \<Rightarrow> byte list" where
  "ack_text cmd res tail =
     ''$PGKC001,'' @ fmt_u (nat (cmd_code cmd)) @ '','' @ digit_char (nat (ack_code res)) # tail"

lemma cmd_code_bounds: "0 \<le> cmd_code c \<and> cmd_code c < 1000"
  by (cases c) simp_all

lemma ack_code_bounds: "0 \<le> ack_code r \<and> ack_code r < 4"
  by (cases r) simp_all

lemma ack_of_ack_code [simp]: "ack_of_code (ack_code r) = r" "GPS_IsCMDACKValid (ack_code r)"
  by (cases r; simp add: ack_of_code_def GPS_IsCMDACKValid_def)+

lemma header_at_0: "strstr_blk GPS_CMD_HEADER (''$PGKC'' @ t) 0 = Inr (Some 0)"
  by (simp add: strstr_blk_def cstr_def)

lemma GetAckCmd_ack: "GPS_GetAckCmd (ack_text cmd res tail) = Inr GPS_CMD_ACK"
proof -
  have "strstr_blk GPS_CMD_HEADER (ack_text cmd res tail) 0 = Inr (Some 0)"
    using header_at_0 [of "''001,'' @ fmt_u (nat (cmd_code cmd)) @ '','' @ digit_char (nat (ack_code res)) # tail"]
    by (simp add: ack_text_def)
  then show ?thesis
    by (simp add: GPS_GetAckCmd_def)
      (simp add: ack_text_def blk_at_def schar_def uchar_def u16_def GPS_IsCMDValid_def valid_cmds_def cmd_of_code_def)
qed

lemma fmt_u_no: "\<not> isdigit c \<Longrightarrow> c \<notin> set (fmt_u n)"
  using fmt_u_digits by blast

lemma AckCheck_ack:
  assumes "sent \<in> set valid_cmds"
  shows "GPS_AckCheck (ack_text cmd res tail) sent = Inr (if cmd = sent then res else GPS_CMD_ACK_FAIL)"
proof -
  let ?n = "fmt_u (nat (cmd_code cmd))"
  let ?d = "digit_char (nat (ack_code res))"
  let ?b = "ack_text cmd res tail"
  have nodig: "\<not> isdigit CHR '',''" by (simp add: isdigit_def uchar_def)
  have h: "strstr_blk GPS_CMD_HEADER ?b 0 = Inr (Some 0)"
    using header_at_0 [of "''001,'' @ ?n @ '','' @ ?d # tail"] by (simp add: ack_text_def)
  have c1: "strstr_blk '','' ?b 5 = Inr (Some 8)"
    by (rule strstr_blk_hit [of "''001''" _ _ "''$PGKC''" "?n @ '','' @ ?d # tail"]) (simp_all add: ack_text_def)
  have c2: "strstr_blk '','' ?b 9 = Inr (Some (9 + length ?n))"
    using fmt_u_no [OF nodig] fmt_u_no [OF isdigit_NUL]
    by (intro strstr_blk_hit [of ?n _ _ "''$PGKC001,''" "?d # tail"]) (simp_all add: ack_text_def)
  have b: "?b = (''$PGKC001,'' @ ?n @ '','') @ ?d # tail" by (simp add: ack_text_def)
  have "drop 9 ?b = ?n @ '','' @ ?d # tail" by (simp add: ack_text_def)
  then have parts: "take (length ?n) (drop 9 ?b) = ?n" by simp
  have len: "10 + length ?n = length (''$PGKC001,'' @ ?n @ '','')" by simp
  have res: "blk_at ?b (10 + length ?n) = Inr ?d"
    unfolding b len blk_at_def by (simp add: nth_append)
  have code: "digits_u16 ?n = cmd_code cmd"
    using digits_u16_dec [of ?n] fmt_u_digits cmd_code_bounds [of cmd] by (auto simp: dec_val_fmt_u)
  have dig: "u8 (schar ?d - 48) = ack_code res"
    by (cases res) (simp_all add: schar_def uchar_digit_char u8_def)
  have b0: "blk_at ?b 0 = Inr CHR ''$''" "blk_at ?b 1 = Inr CHR ''P''"
    by (simp_all add: ack_text_def blk_at_def)
  have inj: "cmd_code cmd = cmd_code sent \<Longrightarrow> cmd = sent"
    by (cases cmd; cases sent; simp)
  have "GPS_AckCheck ?b sent = Inr (ack_verdict (cmd_code cmd) (ack_code res) sent)"
    using h c1 c2 parts res code dig b0 by (simp add: GPS_AckCheck_def)
  also have "\<dots> = Inr (if cmd = sent then res else GPS_CMD_ACK_FAIL)"
    using assms inj by (auto simp: ack_verdict_def GPS_IsCMDValid_def)
  finally show ?thesis .
qed

section \<open>Claims\<close>

lemma xor_top_bit:
  assumes "0 \<le> x" "x < 256" "0 \<le> y" "y < (256::int)"
  shows "128 \<le> x XOR y \<longleftrightarrow> (128 \<le> x) \<noteq> (128 \<le> y)"
proof -
  have top: "128 \<le> z \<longleftrightarrow> bit z 7" if "0 \<le> z" "z < 256" for z :: int
  proof -
    have "z div 128 = (if 128 \<le> z then 1 else 0)" using that by auto
    then show ?thesis by (simp add: bit_iff_odd)
  qed
  show ?thesis using xor_range [OF assms] assms by (simp add: top bit_xor_iff)
qed

lemma xor_bytes_top_bit:
  assumes "0 \<le> a" "a < 256"
  shows "128 \<le> xor_bytes a bs \<longleftrightarrow> (128 \<le> a) \<noteq> odd (length (filter (\<lambda>c. 128 \<le> uchar c) bs))"
  using assms
proof (induction bs arbitrary: a)
  case (Cons c bs)
  have "xor_bytes a (c # bs) = xor_bytes (a XOR uchar c) bs" by (simp add: xor_bytes_def)
  then show ?case
    using Cons.IH [of "a XOR uchar c"] xor_range [OF Cons.prems, of "uchar c"] xor_top_bit [OF Cons.prems, of "uchar c"]
    by auto
qed (simp add: xor_bytes_def)



end
