(* ===== verification/Gps_Driver.thy ===== *)
theory Gps_Driver
  imports Ring_Buffer Gps_Parse Gps_Ack
begin

text \<open>
  The driver part of \<^verbatim>\<open>firmware/libs/gps/src/gps.c\<close>: its static state, the receive handler
  \<open>GPS_Update\<close> and the command exchange. The file system, the allocator and the schedule of the
  callbacks that run while a command waits are the environment. A computation ends in a value, in a
  fault, or, written \<open>None\<close>, does not end.
\<close>

section \<open>State\<close>

datatype fs_event =
    FS_Open "byte list option" int
  | FS_Write int "byte list"
  | FS_Close int

definition GPS_NMEA_FRAME_BUFFER_LENGTH :: nat where
  "GPS_NMEA_FRAME_BUFFER_LENGTH = 1024"

definition GPS_DATA_BUFFER_MAX_LENGTH :: nat where
  "GPS_DATA_BUFFER_MAX_LENGTH = 2048"

text \<open>
  \<open>semCmdSending\<close> is \<open>None\<close> for the null handle, else the semaphore's count. \<open>gpsAckMsg\<close> is the
  block it points to. \<open>uart_tx\<close>, \<open>fs_trace\<close> and \<open>live_blocks\<close> record what the driver did to the UART,
  the file system and the heap.
\<close>

record gps_state =
  gpsNmeaBuffer :: Buffer_t
  isCmdSendTimeOut :: bool
  semCmdSending :: "nat option"
  gpsAckMsg :: "byte list option"
  isSaveLog :: bool
  gpsLogPath :: "byte list option"
  gps_parser :: parse_state
  uart_tx :: "byte list list"
  fs_trace :: "fs_event list"
  live_blocks :: int

text \<open>What the SDK answers: allocation, \<open>API_FS_Open\<close> and \<open>API_FS_Write\<close>.\<close>

record gps_env =
  env_malloc :: "nat \<Rightarrow> bool"
  env_open :: "byte list option \<Rightarrow> int"
  env_write :: "int \<Rightarrow> byte list \<Rightarrow> int"

section \<open>Initialisation and the log file\<close>

definition GPS_Init :: "gps_state \<Rightarrow> gps_state" where
  "GPS_Init st = st\<lparr>gpsNmeaBuffer := Buffer_Init GPS_DATA_BUFFER_MAX_LENGTH\<rparr>"

definition GPS_SaveLog :: "bool \<Rightarrow> byte list option \<Rightarrow> gps_state \<Rightarrow> gps_state" where
  "GPS_SaveLog save path st = st\<lparr>isSaveLog := save, gpsLogPath := path\<rparr>"

definition GPS_IsSaveLog :: "gps_state \<Rightarrow> bool" where
  "GPS_IsSaveLog st = isSaveLog st"

definition fs_do :: "fs_event list \<Rightarrow> gps_state \<Rightarrow> gps_state" where
  "fs_do evs st = st\<lparr>fs_trace := fs_trace st @ evs\<rparr>"

definition GPS_ClearLog :: "gps_env \<Rightarrow> gps_state \<Rightarrow> bool \<times> gps_state" where
  "GPS_ClearLog env st =
     (let fd = env_open env (gpsLogPath st)
      in if fd < 0 then (False, fs_do [FS_Open (gpsLogPath st) fd] st)
         else (True, fs_do [FS_Open (gpsLogPath st) fd, FS_Close fd] st))"

definition SaveToTFCard :: "gps_env \<Rightarrow> byte list \<Rightarrow> gps_state \<Rightarrow> bool \<times> gps_state" where
  "SaveToTFCard env str st =
     (let fd = env_open env (gpsLogPath st)
      in if fd < 0 then (False, fs_do [FS_Open (gpsLogPath st) fd] st)
         else (let ret = env_write env fd str
               in (\<not> ret \<le> 0, fs_do [FS_Open (gpsLogPath st) fd, FS_Write fd str, FS_Close fd] st)))"

definition GPS_Send :: "byte list \<Rightarrow> gps_state \<Rightarrow> gps_state" where
  "GPS_Send cmd st = st\<lparr>uart_tx := uart_tx st @ [cmd]\<rparr>"

section \<open>Receiving\<close>

text \<open>Take the bytes up to slot \<open>index\<close> and one more out of the ring, at most the size of \<open>tmp\<close>.\<close>

definition take_frame :: "gps_state \<Rightarrow> int \<Rightarrow> byte list option \<times> gps_state" where
  "take_frame st index =
     (let b = gpsNmeaBuffer st; len = Buffer_Size2 b (nat index) + 1;
          (got, b') = Buffer_Gets b (if len > GPS_NMEA_FRAME_BUFFER_LENGTH then GPS_NMEA_FRAME_BUFFER_LENGTH else len)
      in (got, st\<lparr>gpsNmeaBuffer := b'\<rparr>))"

text \<open>A complete frame: logged when logging is on, then parsed. \<open>tmp\<close> is read as a C string.\<close>

definition handle_frame :: "gps_env \<Rightarrow> byte list \<Rightarrow> gps_state \<Rightarrow> gps_state" where
  "handle_frame env frame st =
     (let st1 = (if isSaveLog st then snd (SaveToTFCard env (cstr frame) st) else st)
      in st1\<lparr>gps_parser := snd (GPS_Parse (cstr frame) (gps_parser st1))\<rparr>)"

abbreviation query :: "gps_state \<Rightarrow> byte list \<Rightarrow> nat \<Rightarrow> int" where
  "query st pat start \<equiv> Buffer_Query (gpsNmeaBuffer st) pat (length pat) start"

abbreviation query_start :: "gps_state \<Rightarrow> byte list \<Rightarrow> int" where
  "query_start st pat \<equiv> query st pat (Buffer_StartPostion (gpsNmeaBuffer st))"

text \<open>The loop of the receive handler. It has no exit for a frame head whose line is not complete.\<close>

partial_function (option) frame_loop :: "gps_env \<Rightarrow> gps_state \<Rightarrow> gps_state option" where
  "frame_loop env st =
     (let index = query_start st ''VTG''
      in if index \<ge> 0 then
           (let index = query st CRLF (nat index)
            in if index \<ge> 0 then
                 (case take_frame st index of
                    (None, st') \<Rightarrow> Some st'
                  | (Some frame, st') \<Rightarrow> frame_loop env (handle_frame env frame st'))
               else frame_loop env st)
         else Some st)"

text \<open>
  An acknowledgement message is copied from its header to the end of the frame into a block of
  exactly that length, and the waiting task is released.
\<close>

definition release_sem :: "gps_state \<Rightarrow> gps_state" where
  "release_sem st = st\<lparr>semCmdSending := map_option Suc (semCmdSending st)\<rparr>"

definition keep_ack :: "gps_env \<Rightarrow> byte list \<Rightarrow> nat option \<Rightarrow> gps_state \<Rightarrow> gps_state result" where
  "keep_ack env frame index0 st =
     (case index0 of
        None \<Rightarrow> Inl Null_Dereference
      | Some i \<Rightarrow>
          (let msg = drop i frame
           in if env_malloc env (length msg)
              then Inr (release_sem (st\<lparr>gpsAckMsg := Some msg, live_blocks := live_blocks st + 1\<rparr>))
              else Inr (st\<lparr>gpsAckMsg := None\<rparr>)))"

definition ack_update :: "gps_env \<Rightarrow> gps_state \<Rightarrow> gps_state result" where
  "ack_update env st =
     (let index = query_start st GPS_CMD_HEADER
      in if index \<ge> 0 then
           (let index2 = query st CRLF (nat index)
            in if index2 \<ge> 0 then
                 (case take_frame st index2 of
                    (None, st') \<Rightarrow> Inr st'
                  | (Some frame, st') \<Rightarrow> keep_ack env frame (find_sub GPS_CMD_HEADER (cstr frame)) st')
               else Inr st)
         else
           (let index = query_start st GPS_CMD_BINARY_HEADER
            in if index \<ge> 0 then
                 (let index2 = query st CRLF (nat index)
                  in if index2 \<ge> 0 then
                       (case take_frame st index2 of
                          (None, st') \<Rightarrow> Inr st'
                        | (Some frame, st') \<Rightarrow> keep_ack env frame (find_sub GPS_CMD_BINARY_HEADER frame) st')
                     else Inr st)
               else Inr st))"

definition buffer_data :: "byte list \<Rightarrow> gps_state \<Rightarrow> gps_state" where
  "buffer_data data st =
     st\<lparr>gpsNmeaBuffer := snd (Buffer_Puts (gpsNmeaBuffer st) data (nat (u16 (int (length data)))))\<rparr>"

definition GPS_Update :: "gps_env \<Rightarrow> byte list \<Rightarrow> gps_state \<Rightarrow> gps_state result option" where
  "GPS_Update env data st =
     (let st1 = buffer_data data st
      in if semCmdSending st1 = None then map_option Inr (frame_loop env st1)
         else Some (ack_update env st1))"

section \<open>Sending a command and waiting for its acknowledgement\<close>

definition GPS_CMDSend :: "byte list \<Rightarrow> GPS_Format_t \<Rightarrow> gps_state \<Rightarrow> gps_state result" where
  "GPS_CMDSend str format st =
     (case format of
        GPS_FORMAT_NMEA \<Rightarrow>
          rbind (nmea_trailer str) (\<lambda>out.
            Inr (GPS_Send out (st\<lparr>gpsNmeaBuffer := Buffer_Clear (gpsNmeaBuffer st)\<rparr>)))
      | GPS_FORMAT_BINARY \<Rightarrow> rbind (binary_trailer str) (\<lambda>out. Inr (GPS_Send out st)))"

definition OnCmdAckFail :: "gps_state \<Rightarrow> gps_state" where
  "OnCmdAckFail st = release_sem (st\<lparr>isCmdSendTimeOut := True\<rparr>)"

text \<open>
  What happens while the task waits: data from the module, the callback timer, and the moments at
  which the scheduler would run the task again, which it can once the semaphore has been released.
\<close>

datatype gps_event = Uart_Data "byte list" | Ack_Timer | Run_Task

fun wait_sem :: "gps_env \<Rightarrow> gps_event list \<Rightarrow> gps_state \<Rightarrow> (gps_event list \<times> gps_state) result option" where
  "wait_sem env [] st = None"
| "wait_sem env (Run_Task # evs) st =
     (case semCmdSending st of
        Some (Suc n) \<Rightarrow> Some (Inr (evs, st\<lparr>semCmdSending := Some n\<rparr>))
      | _ \<Rightarrow> wait_sem env evs st)"
| "wait_sem env (Ack_Timer # evs) st = wait_sem env evs (OnCmdAckFail st)"
| "wait_sem env (Uart_Data d # evs) st =
     (case GPS_Update env d st of
        None \<Rightarrow> None
      | Some (Inl e) \<Rightarrow> Some (Inl e)
      | Some (Inr st') \<Rightarrow> wait_sem env evs st')"

text \<open>What is made of the acknowledgement: the command it carries and the pointer \<open>*ackStr\<close>.\<close>

definition read_ack :: "byte list option \<Rightarrow> (GPS_CMD_t \<times> byte list option) result" where
  "read_ack msg =
     (case msg of
        None \<Rightarrow> Inl Null_Dereference
      | Some m \<Rightarrow>
          rbind (blk_at m 0) (\<lambda>h0. rbind (blk_at m 1) (\<lambda>h1.
          if [h0, h1] = GPS_CMD_BINARY_HEADER then
            rbind (GPS_CheckParityBinary m) (\<lambda>ok.
            if \<not> ok then Inr (GPS_CMD_FAIL, None)
            else rbind (GPS_GetAckCmdBinary m) (\<lambda>c. Inr (c, Some m)))
          else
            rbind (strstr_blk GPS_CMD_HEADER m 0) (\<lambda>i.
            let ack = map_option (\<lambda>k. drop k m) i
            in rbind (GPS_CheckParity ack) (\<lambda>ok.
               if \<not> ok then Inr (GPS_CMD_FAIL, None)
               else rbind (GPS_GetAckCmd (the ack)) (\<lambda>c. Inr (c, ack)))))))"

definition GPS_SendCMDWaitAck ::
  "gps_env \<Rightarrow> byte list \<Rightarrow> GPS_Format_t \<Rightarrow> gps_event list \<Rightarrow> gps_state \<Rightarrow>
     ((GPS_CMD_t \<times> byte list option) \<times> gps_event list \<times> gps_state) result option" where
  "GPS_SendCMDWaitAck env cmdStr format evs st =
     (let st1 = st\<lparr>isCmdSendTimeOut := False, semCmdSending := Some 0\<rparr>
      in case GPS_CMDSend cmdStr format st1 of
           Inl e \<Rightarrow> Some (Inl e)
         | Inr st2 \<Rightarrow>
             (case wait_sem env evs st2 of
                None \<Rightarrow> None
              | Some (Inl e) \<Rightarrow> Some (Inl e)
              | Some (Inr (evs', st3)) \<Rightarrow>
                  (let st4 = st3\<lparr>semCmdSending := None\<rparr>
                   in if isCmdSendTimeOut st4 then Some (Inr ((GPS_CMD_FAIL, None), evs', st4))
                      else Some (rbind (read_ack (gpsAckMsg st4)) (\<lambda>r. Inr (r, evs', st4))))))"

definition free_ack :: "gps_state \<Rightarrow> gps_state" where
  "free_ack st =
     st\<lparr>gpsAckMsg := None, live_blocks := (if gpsAckMsg st = None then live_blocks st else live_blocks st - 1)\<rparr>"

text \<open>The verdict of \<open>GPS_SendWaiteNormalAck\<close> on the acknowledgement it got.\<close>

definition normal_ack :: "GPS_CMD_t \<Rightarrow> byte list \<Rightarrow> GPS_CMD_t \<times> byte list option \<Rightarrow> bool result" where
  "normal_ack cmdSend cmdStr r =
     (case r of (ackCmd, ackStr) \<Rightarrow>
        if ackCmd \<noteq> GPS_CMD_ACK \<and> ackCmd \<noteq> GPS_CMD_ACK_GPD then Inr False
        else case ackStr of
          None \<Rightarrow> Inl Null_Dereference
        | Some a \<Rightarrow>
            if ackCmd = GPS_CMD_ACK_GPD then
              rbind (blk_at cmdStr 6) (\<lambda>c6. rbind (blk_at a 6) (\<lambda>a6.
              if c6 \<noteq> a6 then Inr False
              else rbind (blk_at cmdStr 7) (\<lambda>c7. rbind (blk_at a 7) (\<lambda>a7.
              if c7 \<noteq> a7 then Inr False
              else rbind (blk_at a 8) (\<lambda>a8. Inr (schar a8 = 1))))))
            else rbind (GPS_AckCheck a cmdSend) (\<lambda>res. Inr (res = GPS_CMD_ACK_EXEC_SUCCESS)))"

definition GPS_SendWaiteNormalAck ::
  "gps_env \<Rightarrow> GPS_CMD_t \<Rightarrow> byte list \<Rightarrow> GPS_Format_t \<Rightarrow> gps_event list \<Rightarrow> gps_state \<Rightarrow>
     (bool \<times> gps_event list \<times> gps_state) result option" where
  "GPS_SendWaiteNormalAck env cmdSend cmdStr format evs st =
     map_option (\<lambda>r. rbind r (\<lambda>(ack, evs', st').
         rbind (normal_ack cmdSend cmdStr ack) (\<lambda>ok. Inr (ok, evs', free_ack st'))))
       (GPS_SendCMDWaitAck env cmdStr format evs st)"

section \<open>The receive loop takes complete frames\<close>

abbreviation wf_gps :: "gps_state \<Rightarrow> bool" where
  "wf_gps st \<equiv> wf_buf (gpsNmeaBuffer st)"

abbreviation rx :: "gps_state \<Rightarrow> byte list" where
  "rx st \<equiv> contents (gpsNmeaBuffer st)"

lemma query_head_none: "wf_gps st \<Longrightarrow> unbordered h \<Longrightarrow> find_sub h (rx st) = None \<Longrightarrow> query_start st h < 0"
  by (simp add: start_slot ring.head_missing)

lemma query_head_some:
  assumes "wf_gps st" "unbordered h" "find_sub h (rx st) = Some i"
  shows "query_start st h = int (slot (gpsNmeaBuffer st) i)"
    and "query st CRLF (slot (gpsNmeaBuffer st) i) < 0 \<longleftrightarrow> message_end h (rx st) = None"
  using ring.tail_missing [OF assms] by (simp_all add: start_slot)

lemma query_message:
  assumes "wf_gps st" "unbordered h" "find_sub h (rx st) = Some i" "message_end h (rx st) = Some n"
  shows "Buffer_Size2 (gpsNmeaBuffer st) (nat (query st CRLF (slot (gpsNmeaBuffer st) i))) + 1 = n"
  using ring.message_size [OF assms] by simp

text \<open>The frame taken: the message, cut at the size of \<open>tmp\<close>.\<close>

definition frame_len :: "nat \<Rightarrow> nat" where
  "frame_len n = min n GPS_NMEA_FRAME_BUFFER_LENGTH"

lemma frame_len_pos: "2 \<le> n \<Longrightarrow> 0 < frame_len n"
  by (simp add: frame_len_def GPS_NMEA_FRAME_BUFFER_LENGTH_def)

lemma take_frame_spec:
  assumes "wf_gps st" "Buffer_Size2 (gpsNmeaBuffer st) (nat index) + 1 = n" "n \<le> length (rx st)"
  shows "\<exists>st'. take_frame st index = (Some (take (frame_len n) (rx st)), st') \<and> wf_gps st'
    \<and> rx st' = drop (frame_len n) (rx st) \<and> maxSize (gpsNmeaBuffer st') = maxSize (gpsNmeaBuffer st)
    \<and> st' = st\<lparr>gpsNmeaBuffer := gpsNmeaBuffer st'\<rparr>"
proof -
  let ?b = "gpsNmeaBuffer st"
  have n: "(if n > GPS_NMEA_FRAME_BUFFER_LENGTH then GPS_NMEA_FRAME_BUFFER_LENGTH else n) = frame_len n"
    by (simp add: frame_len_def)
  have le: "frame_len n \<le> fill ?b" using assms(3) by (simp add: frame_len_def)
  note g = Buffer_Gets_ok [OF assms(1) le]
  obtain got b' where gb: "Buffer_Gets ?b (frame_len n) = (got, b')" by fastforce
  have "take_frame st index = (got, st\<lparr>gpsNmeaBuffer := b'\<rparr>)"
    unfolding take_frame_def Let_def assms(2) n gb by simp
  then show ?thesis using g gb by simp
qed

lemma handle_frame_simps [simp]:
  "gpsNmeaBuffer (handle_frame env f st) = gpsNmeaBuffer st"
  "gps_parser (handle_frame env f st) = snd (GPS_Parse (cstr f) (gps_parser st))"
  "semCmdSending (handle_frame env f st) = semCmdSending st"
  "live_blocks (handle_frame env f st) = live_blocks st"
  "gpsAckMsg (handle_frame env f st) = gpsAckMsg st"
  by (simp_all add: handle_frame_def SaveToTFCard_def fs_do_def Let_def)

text \<open>
  The frames in a byte sequence and what is left; \<open>None\<close> when a frame head is left without its
  line end.
\<close>

function drain :: "byte list \<Rightarrow> (byte list list \<times> byte list) option" where
  "drain s =
     (case message_end ''VTG'' s of
        None \<Rightarrow> if find_sub ''VTG'' s = None then Some ([], s) else None
      | Some n \<Rightarrow>
          map_option (\<lambda>(fs, r). (take (frame_len n) s # fs, r)) (drain (drop (frame_len n) s)))"
  by pat_completeness auto
termination
proof (relation "measure length")
  fix s n assume "message_end ''VTG'' s = Some n"
  from message_end_bound [OF this] frame_len_pos [of n]
  show "(drop (frame_len n) s, s) \<in> measure length" by auto
qed simp

declare drain.simps [simp del]

lemma unbordered_heads: "unbordered ''VTG''" "unbordered GPS_CMD_HEADER" "unbordered GPS_CMD_BINARY_HEADER"
  by (simp_all add: unbordered_def)

lemma message_end_find: "message_end h s = Some n \<Longrightarrow> \<exists>i. find_sub h s = Some i"
  by (auto simp: message_end_def split: option.splits)

lemma frame_loop_message:
  assumes "wf_gps st" "message_end ''VTG'' (rx st) = Some n"
  shows "\<exists>st'. frame_loop env st = frame_loop env (handle_frame env (take (frame_len n) (rx st)) st')
    \<and> wf_gps st' \<and> rx st' = drop (frame_len n) (rx st) \<and> maxSize (gpsNmeaBuffer st') = maxSize (gpsNmeaBuffer st)
    \<and> st' = st\<lparr>gpsNmeaBuffer := gpsNmeaBuffer st'\<rparr>"
proof -
  obtain i where i: "find_sub ''VTG'' (rx st) = Some i" using message_end_find assms(2) by blast
  note q = query_head_some [OF assms(1) unbordered_heads(1) i]
  let ?ix = "query st CRLF (slot (gpsNmeaBuffer st) i)"
  have "n \<le> length (rx st)" using message_end_bound assms(2) by blast
  from take_frame_spec [OF assms(1) query_message [OF assms(1) unbordered_heads(1) i assms(2)] this]
  obtain st' where st': "take_frame st ?ix = (Some (take (frame_len n) (rx st)), st')" "wf_gps st'"
    "rx st' = drop (frame_len n) (rx st)" "maxSize (gpsNmeaBuffer st') = maxSize (gpsNmeaBuffer st)"
    "st' = st\<lparr>gpsNmeaBuffer := gpsNmeaBuffer st'\<rparr>" by blast
  have "\<not> ?ix < 0" using q(2) assms(2) by simp
  then have "frame_loop env st = frame_loop env (handle_frame env (take (frame_len n) (rx st)) st')"
    using q(1) st'(1) by (subst frame_loop.simps) (simp add: Let_def)
  with st' show ?thesis by blast
qed

definition parse_frames :: "byte list list \<Rightarrow> parse_state \<Rightarrow> parse_state" where
  "parse_frames fs p = fold (\<lambda>f p. snd (GPS_Parse (cstr f) p)) fs p"

theorem frame_loop_drain:
  assumes "wf_gps st" "drain (rx st) = Some (fs, rest)"
  shows "\<exists>st'. frame_loop env st = Some st' \<and> wf_gps st' \<and> rx st' = rest
    \<and> gps_parser st' = parse_frames fs (gps_parser st) \<and> semCmdSending st' = semCmdSending st
    \<and> live_blocks st' = live_blocks st \<and> gpsAckMsg st' = gpsAckMsg st
    \<and> maxSize (gpsNmeaBuffer st') = maxSize (gpsNmeaBuffer st)"
  using assms
proof (induction "rx st" arbitrary: st fs rule: drain.induct)
  case 1
  show ?case
  proof (cases "message_end ''VTG'' (rx st)")
    case None
    then have "find_sub ''VTG'' (rx st) = None" "fs = []" "rest = rx st"
      using 1(3) by (auto simp: drain.simps [of "rx st"] split: if_splits)
    then show ?thesis
      using query_head_none [OF 1(2) unbordered_heads(1)] 1(2)
      by (subst frame_loop.simps) (simp add: Let_def parse_frames_def)
  next
    case (Some n)
    then obtain fs' where fs': "drain (drop (frame_len n) (rx st)) = Some (fs', rest)"
      "fs = take (frame_len n) (rx st) # fs'"
      using 1(3) by (auto simp: drain.simps [of "rx st"])
    obtain st' where st': "frame_loop env st = frame_loop env (handle_frame env (take (frame_len n) (rx st)) st')"
      "wf_gps st'" "rx st' = drop (frame_len n) (rx st)" "maxSize (gpsNmeaBuffer st') = maxSize (gpsNmeaBuffer st)"
      "st' = st\<lparr>gpsNmeaBuffer := gpsNmeaBuffer st'\<rparr>"
      using frame_loop_message [OF 1(2) Some] by blast
    let ?h = "handle_frame env (take (frame_len n) (rx st)) st'"
    have eq: "gps_parser st' = gps_parser st" "semCmdSending st' = semCmdSending st"
      "live_blocks st' = live_blocks st" "gpsAckMsg st' = gpsAckMsg st"
      by (subst st'(5), simp)+
    have "\<exists>st''. frame_loop env ?h = Some st'' \<and> wf_gps st'' \<and> rx st'' = rest
      \<and> gps_parser st'' = parse_frames fs' (gps_parser ?h) \<and> semCmdSending st'' = semCmdSending ?h
      \<and> live_blocks st'' = live_blocks ?h \<and> gpsAckMsg st'' = gpsAckMsg ?h
      \<and> maxSize (gpsNmeaBuffer st'') = maxSize (gpsNmeaBuffer ?h)"
      by (rule 1(1) [OF Some]) (use st' fs' in simp_all)
    then show ?thesis using st'(1,4) fs'(2) eq by (simp add: parse_frames_def)
  qed
qed

text \<open>A frame head without a line end behind it: the loop never ends.\<close>

lemma frame_loop_stuck_head:
  assumes "frame_loop env st = Some st'" "wf_gps st"
  shows "drain (rx st) \<noteq> None"
proof -
  have "wf_gps st \<longrightarrow> drain (rx st) \<noteq> None"
  proof (rule frame_loop.raw_induct [OF _ assms(1), where P = "\<lambda>env st y. wf_gps st \<longrightarrow> drain (rx st) \<noteq> None"], intro impI)
    fix loop env st y
    assume IH: "\<And>env st y. loop env st = Some y \<Longrightarrow> wf_gps st \<longrightarrow> drain (rx st) \<noteq> None"
      and step: "(let index = query_start st ''VTG''
      in if index \<ge> 0 then
           (let index = query st CRLF (nat index)
            in if index \<ge> 0 then
                 (case take_frame st index of
                    (None, st') \<Rightarrow> Some st'
                  | (Some frame, st') \<Rightarrow> loop env (handle_frame env frame st'))
               else loop env st)
         else Some st) = Some y" and wf: "wf_gps st"
    show "drain (rx st) \<noteq> None"
    proof (cases "message_end ''VTG'' (rx st)")
      case None
      show ?thesis
      proof (cases "find_sub ''VTG'' (rx st)")
        case None
        with \<open>message_end ''VTG'' (rx st) = None\<close> show ?thesis by (simp add: drain.simps [of "rx st"])
      next
        case (Some i)
        from query_head_some [OF wf unbordered_heads(1) this] None step
        have "loop env st = Some y" by (auto simp: Let_def)
        from IH [OF this] wf show ?thesis by simp
      qed
    next
      case (Some n)
      obtain i where i: "find_sub ''VTG'' (rx st) = Some i" using message_end_find Some by blast
      note q = query_head_some [OF wf unbordered_heads(1) i]
      let ?ix = "query st CRLF (slot (gpsNmeaBuffer st) i)"
      have "n \<le> length (rx st)" using message_end_bound Some by blast
      from take_frame_spec [OF wf query_message [OF wf unbordered_heads(1) i Some] this]
      obtain st' where st': "take_frame st ?ix = (Some (take (frame_len n) (rx st)), st')" "wf_gps st'"
        "rx st' = drop (frame_len n) (rx st)" by blast
      have "\<not> ?ix < 0" using q(2) Some by simp
      then have "loop env (handle_frame env (take (frame_len n) (rx st)) st') = Some y"
        using q(1) st'(1) step by (simp add: Let_def)
      from IH [OF this] st' Some show ?thesis by (simp add: drain.simps [of "rx st"])
    qed
  qed
  with assms(2) show ?thesis by simp
qed

lemma frame_loop_returns:
  assumes "wf_gps st"
  shows "frame_loop env st \<noteq> None \<longleftrightarrow> drain (rx st) \<noteq> None"
proof
  assume "frame_loop env st \<noteq> None"
  then show "drain (rx st) \<noteq> None" using frame_loop_stuck_head [OF _ assms] by auto
next
  assume "drain (rx st) \<noteq> None"
  then obtain fs rest where "drain (rx st) = Some (fs, rest)" by auto
  from frame_loop_drain [OF assms this] show "frame_loop env st \<noteq> None" by (metis option.distinct(1))
qed

section \<open>One call of the receive handler\<close>

lemma buffer_data_fits:
  assumes "wf_gps st" "maxSize (gpsNmeaBuffer st) \<le> 65536"
    and "length (rx st) + length data < maxSize (gpsNmeaBuffer st)"
  shows "wf_gps (buffer_data data st)" "rx (buffer_data data st) = rx st @ data"
    "maxSize (gpsNmeaBuffer (buffer_data data st)) = maxSize (gpsNmeaBuffer st)"
proof -
  have "nat (u16 (int (length data))) = length data" using assms(2,3) by (simp add: u16_id)
  then show "wf_gps (buffer_data data st)" "rx (buffer_data data st) = rx st @ data"
    "maxSize (gpsNmeaBuffer (buffer_data data st)) = maxSize (gpsNmeaBuffer st)"
    using Buffer_Puts_ok [OF assms(1) refl, of data] assms(3) by (simp_all add: buffer_data_def)
qed

lemma buffer_data_full:
  assumes "wf_gps st" "length data < 65536" "maxSize (gpsNmeaBuffer st) \<le> length (rx st) + length data"
  shows "buffer_data data st = st"
  using Buffer_Puts_full [OF assms(1), of "length data" data] assms(2,3)
  by (simp add: buffer_data_def u16_id)

lemma wf_gps_size: "wf_gps st \<Longrightarrow> maxSize (gpsNmeaBuffer st) \<le> 65536"
  by (simp add: wf_buf_def)

lemma buffer_data_simps [simp]:
  "semCmdSending (buffer_data d st) = semCmdSending st" "gps_parser (buffer_data d st) = gps_parser st"
  "gpsAckMsg (buffer_data d st) = gpsAckMsg st" "live_blocks (buffer_data d st) = live_blocks st"
  "uart_tx (buffer_data d st) = uart_tx st" "isCmdSendTimeOut (buffer_data d st) = isCmdSendTimeOut st"
  by (simp_all add: buffer_data_def)

lemma GPS_Update_frames:
  assumes "wf_gps st" "semCmdSending st = None" "length (rx st) + length data < maxSize (gpsNmeaBuffer st)"
    and "drain (rx st @ data) = Some (fs, rest)"
  shows "\<exists>st'. GPS_Update env data st = Some (Inr st') \<and> wf_gps st' \<and> rx st' = rest
    \<and> gps_parser st' = parse_frames fs (gps_parser st) \<and> semCmdSending st' = None
    \<and> maxSize (gpsNmeaBuffer st') = maxSize (gpsNmeaBuffer st) \<and> gpsAckMsg st' = gpsAckMsg st"
proof -
  note f = buffer_data_fits [OF assms(1) wf_gps_size [OF assms(1)] assms(3)]
  obtain st' where "frame_loop env (buffer_data data st) = Some st'" "wf_gps st'" "rx st' = rest"
    "gps_parser st' = parse_frames fs (gps_parser st)" "semCmdSending st' = None"
    "maxSize (gpsNmeaBuffer st') = maxSize (gpsNmeaBuffer st)" "gpsAckMsg st' = gpsAckMsg st"
    using frame_loop_drain [OF f(1), of fs rest env] f(2,3) assms(2,4) by auto
  then show ?thesis using assms(2) by (simp add: GPS_Update_def Let_def)
qed

lemma GPS_Update_returns:
  assumes "wf_gps st" "semCmdSending st = None" "length (rx st) + length data < maxSize (gpsNmeaBuffer st)"
  shows "GPS_Update env data st = None \<longleftrightarrow> drain (rx st @ data) = None"
  using frame_loop_returns [OF buffer_data_fits(1) [OF assms(1) wf_gps_size [OF assms(1)] assms(3)], of env]
    buffer_data_fits(2) [OF assms(1) wf_gps_size [OF assms(1)] assms(3)] assms(2)
  by (auto simp: GPS_Update_def Let_def)

text \<open>A ring without a frame head that has no room for the next chunk stays as it is.\<close>

lemma GPS_Update_full:
  assumes "wf_gps st" "semCmdSending st = None" "find_sub ''VTG'' (rx st) = None"
    and "length data < 65536" "maxSize (gpsNmeaBuffer st) \<le> length (rx st) + length data"
  shows "GPS_Update env data st = Some (Inr st)"
proof -
  have "message_end ''VTG'' (rx st) = None" using assms(3) by (simp add: message_end_def)
  then have "frame_loop env st = Some st"
    using query_head_none [OF assms(1) unbordered_heads(1) assms(3)]
    by (subst frame_loop.simps) (simp add: Let_def)
  then show ?thesis using assms(2) buffer_data_full [OF assms(1,4,5)] by (simp add: GPS_Update_def Let_def)
qed

section \<open>Capturing an acknowledgement\<close>

text \<open>A complete message: the header first, its line end last and nowhere else.\<close>

definition ack_msg :: "byte list \<Rightarrow> bool" where
  "ack_msg m \<longleftrightarrow> prefix GPS_CMD_HEADER m \<and> CHR 0x0D \<notin> set m \<and> CHR 0xAA \<notin> set m \<and> NUL \<notin> set m
     \<and> length m + 2 \<le> GPS_NMEA_FRAME_BUFFER_LENGTH"

lemma ack_message_end:
  assumes "ack_msg m"
  shows "message_end GPS_CMD_HEADER (m @ CRLF) = Some (length m + 2)"
proof -
  have "find_sub GPS_CMD_HEADER (m @ CRLF) = Some 0"
    using assms by (intro find_sub_prefix) (auto simp: ack_msg_def prefix_def)
  moreover have "find_sub CRLF (m @ CRLF) = Some (length m)"
    using assms find_CRLF_line [of m "[]"] by (simp add: ack_msg_def)
  ultimately show ?thesis by (simp add: message_end_def)
qed

lemma find_sub_absent: "pat \<noteq> [] \<Longrightarrow> hd pat \<notin> set s \<Longrightarrow> find_sub pat s = None"
  using find_sub_skip [of pat s "[]"] by simp

lemma partial_CRLF:
  assumes "CHR 0x0D \<notin> set m" "strict_prefix p (m @ CRLF)"
  shows "find_sub CRLF (drop i p) = None"
proof -
  have "prefix p (m @ [CHR 0x0D])" using assms(2)
    by (auto simp: strict_prefix_def prefix_append prefix_Cons)
  then consider "prefix p m" | "p = m @ [CHR 0x0D]" by (auto simp: prefix_append prefix_Cons)
  then show ?thesis
  proof cases
    case 1
    then have "CHR 0x0D \<notin> set (drop i p)"
      using assms(1) by (auto dest: in_set_dropD set_mono_prefix)
    then show ?thesis by (rule find_CRLF_none)
  next
    case 2
    show ?thesis
    proof (cases "i \<le> length m")
      case True
      then have "drop i p = drop i m @ [CHR 0x0D]" using 2 by simp
      moreover have "find_sub CRLF (drop i m @ [CHR 0x0D]) = map_option ((+) (length (drop i m))) (find_sub CRLF [CHR 0x0D])"
        using assms(1) by (intro find_sub_skip) (auto dest: in_set_dropD)
      ultimately show ?thesis by simp
    next
      case False
      then show ?thesis using 2 by simp
    qed
  qed
qed

lemma ack_update_partial:
  assumes "wf_gps st" "ack_msg m" "strict_prefix (rx st) (m @ CRLF)"
  shows "ack_update env st = Inr st"
proof (cases "find_sub GPS_CMD_HEADER (rx st)")
  case None
  have "set (rx st) \<subseteq> set (m @ CRLF)"
    using assms(3) by (intro set_mono_prefix) (simp add: strict_prefix_def)
  then have "CHR 0xAA \<notin> set (rx st)" using assms(2) by (auto simp: ack_msg_def)
  then have "find_sub GPS_CMD_BINARY_HEADER (rx st) = None" by (intro find_sub_absent) simp_all
  from query_head_none [OF assms(1) unbordered_heads(3) this] query_head_none [OF assms(1) unbordered_heads(2) None]
  show ?thesis by (simp add: ack_update_def Let_def)
next
  case (Some i)
  have "message_end GPS_CMD_HEADER (rx st) = None"
    using partial_CRLF [of m "rx st" i] assms(2,3) Some by (simp add: message_end_def ack_msg_def)
  then show ?thesis
    using query_head_some [OF assms(1) unbordered_heads(2) Some] by (simp add: ack_update_def Let_def not_le)
qed

lemma ack_update_message:
  assumes "wf_gps st" "ack_msg m" "rx st = m @ CRLF" "env_malloc env (length m + 2)"
  shows "\<exists>b. ack_update env st = Inr (release_sem (st\<lparr>gpsNmeaBuffer := b, gpsAckMsg := Some (m @ CRLF),
      live_blocks := live_blocks st + 1\<rparr>))
    \<and> wf_buf b \<and> contents b = [] \<and> maxSize b = maxSize (gpsNmeaBuffer st)"
proof -
  have me: "message_end GPS_CMD_HEADER (rx st) = Some (length m + 2)"
    using ack_message_end [OF assms(2)] assms(3) by simp
  have h: "find_sub GPS_CMD_HEADER (rx st) = Some 0"
    using assms(2,3) by (intro find_sub_prefix) (auto simp: ack_msg_def prefix_def)
  note q = query_head_some [OF assms(1) unbordered_heads(2) h]
  let ?ix = "query st CRLF (slot (gpsNmeaBuffer st) 0)"
  have fl: "frame_len (length m + 2) = length m + 2" using assms(2) by (simp add: frame_len_def ack_msg_def)
  from take_frame_spec [OF assms(1) query_message [OF assms(1) unbordered_heads(2) h me]] assms(3)
  obtain st' where st': "take_frame st ?ix = (Some (m @ CRLF), st')" "wf_gps st'" "rx st' = []"
    "maxSize (gpsNmeaBuffer st') = maxSize (gpsNmeaBuffer st)" "st' = st\<lparr>gpsNmeaBuffer := gpsNmeaBuffer st'\<rparr>"
    unfolding fl by auto
  have "cstr (m @ CRLF) = m @ CRLF" using assms(2) by (simp add: cstr_append ack_msg_def) (simp add: cstr_def)
  then have k: "find_sub GPS_CMD_HEADER (cstr (m @ CRLF)) = Some 0" using h assms(3) by simp
  have "\<not> ?ix < 0" using q(2) me by simp
  then have "ack_update env st = keep_ack env (m @ CRLF) (Some 0) st'"
    using q(1) st'(1) k by (simp add: ack_update_def Let_def)
  also have "\<dots> = Inr (release_sem (st'\<lparr>gpsAckMsg := Some (m @ CRLF), live_blocks := live_blocks st' + 1\<rparr>))"
    using assms(4) by (simp add: keep_ack_def Let_def)
  also have "\<dots> = Inr (release_sem (st\<lparr>gpsNmeaBuffer := gpsNmeaBuffer st', gpsAckMsg := Some (m @ CRLF),
      live_blocks := live_blocks st + 1\<rparr>))"
    by (subst (1 2) st'(5)) simp
  finally show ?thesis using st' by blast
qed

text \<open>However the module's bytes are cut into chunks, the wait ends with the message captured.\<close>

lemma wait_chunks:
  assumes partial: "\<And>s. wf_gps s \<Longrightarrow> strict_prefix (rx s) msg \<Longrightarrow> ack_update env s = Inr s"
    and complete: "\<And>s. wf_gps s \<Longrightarrow> rx s = msg \<Longrightarrow>
      \<exists>b. ack_update env s = Inr (release_sem (s\<lparr>gpsNmeaBuffer := b, gpsAckMsg := Some msg, live_blocks := live_blocks s + 1\<rparr>))
        \<and> wf_buf b \<and> contents b = [] \<and> maxSize b = maxSize (gpsNmeaBuffer s)"
    and len: "length msg \<le> GPS_NMEA_FRAME_BUFFER_LENGTH"
    and "wf_gps st" "semCmdSending st = Some k" "GPS_NMEA_FRAME_BUFFER_LENGTH < maxSize (gpsNmeaBuffer st)"
    and "rx st @ concat chunks = msg" "\<forall>c\<in>set chunks. c \<noteq> []" "chunks \<noteq> []"
  shows "\<exists>b. wait_sem env (map Uart_Data chunks @ evs) st =
      wait_sem env evs (release_sem (st\<lparr>gpsNmeaBuffer := b, gpsAckMsg := Some (msg), live_blocks := live_blocks st + 1\<rparr>))
    \<and> wf_buf b \<and> contents b = [] \<and> maxSize b = maxSize (gpsNmeaBuffer st)"
  using assms(4-9)
proof (induction chunks arbitrary: st)
  case (Cons c cs)
  let ?s = "buffer_data c st"
  have "length (rx st) + length c \<le> length msg"
    using Cons.prems(4) by (metis concat.simps(2) length_append add.assoc le_add1)
  then have fits: "length (rx st) + length c < maxSize (gpsNmeaBuffer st)"
    using len Cons.prems(3) by simp
  note f = buffer_data_fits [OF Cons.prems(1) wf_gps_size [OF Cons.prems(1)] fits]
  have upd: "GPS_Update env c st = Some (ack_update env ?s)"
    using Cons.prems(2) by (simp add: GPS_Update_def Let_def)
  have s: "?s = st\<lparr>gpsNmeaBuffer := gpsNmeaBuffer ?s\<rparr>" by (simp add: buffer_data_def)
  show ?case
  proof (cases "cs = []")
    case True
    then have "rx ?s = msg" using f Cons.prems(4) by simp
    from complete [OF f(1) this] obtain b where
      b: "ack_update env ?s = Inr (release_sem (?s\<lparr>gpsNmeaBuffer := b, gpsAckMsg := Some (msg),
        live_blocks := live_blocks ?s + 1\<rparr>))" "wf_buf b" "contents b = []"
        "maxSize b = maxSize (gpsNmeaBuffer ?s)" by blast
    have "?s\<lparr>gpsNmeaBuffer := b, gpsAckMsg := Some (msg), live_blocks := live_blocks ?s + 1\<rparr>
        = st\<lparr>gpsNmeaBuffer := b, gpsAckMsg := Some (msg), live_blocks := live_blocks st + 1\<rparr>"
      by (subst (1 2) s) simp
    then show ?thesis using b f True upd by auto
  next
    case False
    then have ne: "concat cs \<noteq> []" using Cons.prems(5) by (cases cs) auto
    have cat: "rx ?s @ concat cs = msg" using f(2) Cons.prems(4) by simp
    then have "strict_prefix (rx ?s) (msg)" using ne by (metis strict_prefixI' append_self_conv prefixI prefix_order.le_imp_less_or_eq)
    from partial [OF f(1) this] have u: "ack_update env ?s = Inr ?s" .
    have "\<exists>b. wait_sem env (map Uart_Data cs @ evs) ?s =
      wait_sem env evs (release_sem (?s\<lparr>gpsNmeaBuffer := b, gpsAckMsg := Some (msg), live_blocks := live_blocks ?s + 1\<rparr>))
      \<and> wf_buf b \<and> contents b = [] \<and> maxSize b = maxSize (gpsNmeaBuffer ?s)"
      by (rule Cons.IH) (use f Cons.prems cat False in simp_all)
    then obtain b where b: "wait_sem env (map Uart_Data cs @ evs) ?s =
      wait_sem env evs (release_sem (?s\<lparr>gpsNmeaBuffer := b, gpsAckMsg := Some (msg), live_blocks := live_blocks ?s + 1\<rparr>))"
      "wf_buf b" "contents b = []" "maxSize b = maxSize (gpsNmeaBuffer ?s)" by blast
    have "?s\<lparr>gpsNmeaBuffer := b, gpsAckMsg := Some (msg), live_blocks := live_blocks ?s + 1\<rparr>
        = st\<lparr>gpsNmeaBuffer := b, gpsAckMsg := Some (msg), live_blocks := live_blocks st + 1\<rparr>"
      by (subst (1 2) s) simp
    then show ?thesis using b f upd u by auto
  qed
qed simp

lemma wait_ack_chunks:
  assumes "ack_msg m" "env_malloc env (length m + 2)"
    and "wf_gps st" "semCmdSending st = Some k" "GPS_NMEA_FRAME_BUFFER_LENGTH < maxSize (gpsNmeaBuffer st)"
    and "rx st @ concat chunks = m @ CRLF" "\<forall>c\<in>set chunks. c \<noteq> []" "chunks \<noteq> []"
  shows "\<exists>b. wait_sem env (map Uart_Data chunks @ evs) st =
      wait_sem env evs (release_sem (st\<lparr>gpsNmeaBuffer := b, gpsAckMsg := Some (m @ CRLF), live_blocks := live_blocks st + 1\<rparr>))
    \<and> wf_buf b \<and> contents b = [] \<and> maxSize b = maxSize (gpsNmeaBuffer st)"
proof (rule wait_chunks [OF _ _ _ assms(3-8)])
  fix s assume "wf_gps s"
  then show "strict_prefix (rx s) (m @ CRLF) \<Longrightarrow> ack_update env s = Inr s"
    and "rx s = m @ CRLF \<Longrightarrow> \<exists>b. ack_update env s = Inr (release_sem (s\<lparr>gpsNmeaBuffer := b, gpsAckMsg := Some (m @ CRLF),
        live_blocks := live_blocks s + 1\<rparr>)) \<and> wf_buf b \<and> contents b = [] \<and> maxSize b = maxSize (gpsNmeaBuffer s)"
    using ack_update_partial ack_update_message assms(1,2) by blast+
qed (use assms(1) in \<open>simp add: ack_msg_def\<close>)

section \<open>The command exchange\<close>

lemma CMDSend_nmea:
  assumes "nmea_trailer str = Inr out" "wf_gps st"
  shows "GPS_CMDSend str GPS_FORMAT_NMEA st
      = Inr (st\<lparr>gpsNmeaBuffer := Buffer_Clear (gpsNmeaBuffer st), uart_tx := uart_tx st @ [out]\<rparr>)"
    and "rx (st\<lparr>gpsNmeaBuffer := Buffer_Clear (gpsNmeaBuffer st), uart_tx := uart_tx st @ [out]\<rparr>) = []"
    and "wf_gps (st\<lparr>gpsNmeaBuffer := Buffer_Clear (gpsNmeaBuffer st), uart_tx := uart_tx st @ [out]\<rparr>)"
  using assms Buffer_Clear_spec [OF assms(2)] by (simp_all add: GPS_CMDSend_def GPS_Send_def)

lemma ack_text_ascii:
  assumes "\<forall>c\<in>set tail. uchar c < 128"
  shows "\<forall>c\<in>set (ack_text cmd res tail). uchar c < 128"
proof -
  have "\<forall>c\<in>set (fmt_u n). uchar c < 128" for n
  proof
    fix c assume "c \<in> set (fmt_u n)"
    from fmt_u_digits [OF this] show "uchar c < 128" by (simp add: isdigit_def)
  qed
  moreover have "uchar (digit_char (nat (ack_code res))) < 128" by (cases res) (simp_all add: uchar_digit_char)
  ultimately show ?thesis using assms by (auto simp: ack_text_def uchar_def)
qed

lemma ack_text_without:
  assumes "\<not> isdigit c" "c \<notin> set ''$PGKC,''"
  shows "c \<notin> set (ack_text cmd res [])"
proof -
  have "isdigit (digit_char (nat (ack_code res)))" by (cases res) simp_all
  then have "c \<noteq> digit_char (nat (ack_code res))" using assms(1) by auto
  moreover have "c \<notin> set ''001''" using assms(1) by (auto simp: isdigit_def uchar_def)
  ultimately show ?thesis
    using assms(2) fmt_u_no [OF assms(1)] by (auto simp: ack_text_def)
qed

lemma fmt_u_length:
  assumes "n < 10 ^ Suc k"
  shows "length (fmt_u n) \<le> Suc k"
  using assms
proof (induction k arbitrary: n)
  case 0
  then show ?case by (subst fmt_u.simps) simp
next
  case (Suc k)
  then have "n div 10 < 10 ^ Suc k" by simp
  from Suc.IH [OF this] show ?case by (subst fmt_u.simps) simp
qed

lemma ack_text_length: "length (ack_text cmd res tail) \<le> 14 + length tail"
proof -
  have "nat (cmd_code cmd) < 10 ^ Suc 2" using cmd_code_bounds [of cmd] by auto
  from fmt_u_length [OF this] show ?thesis by (simp add: ack_text_def)
qed

text \<open>An acknowledgement as the module sends it: the text with its parity trailer.\<close>

lemma ack_wire:
  assumes "nmea_trailer (ack_text cmd res []) = Inr msg"
  shows "\<exists>m. msg = m @ CRLF \<and> ack_msg m \<and> length msg \<le> 19
    \<and> (\<exists>t. msg = ack_text cmd res t) \<and> GPS_CheckParity (Some msg) = Inr True"
proof -
  let ?a = "ack_text cmd res []"
  define r where "r = xor_bytes (uchar (?a ! 1)) (drop 2 ?a)"
  have two: "2 \<le> length ?a" by (simp add: ack_text_def)
  have ascii: "\<forall>c\<in>set ?a. uchar c < 128" by (rule ack_text_ascii) simp
  note ok = nmea_trailer_ok [OF two ascii, folded r_def]
  define m where "m = ?a @ [CHR ''*'', Hex_Str (r div 16), Hex_Str (r mod 16)]"
  have msg: "msg = m @ CRLF" using ok(2) assms by (simp add: m_def)
  have nodigit: "\<not> isdigit CHR ''*''" "\<not> isdigit CHR 0x0D" "\<not> isdigit CHR 0xAA"
    by (simp_all add: isdigit_def uchar_def)
  have hx: "Hex_Str k \<in> set ''0123456789ABCDEF''" if "0 \<le> k" "k < 16" for k
    using that unfolding Hex_Str_def by (intro nth_mem) simp
  have nib: "0 \<le> r div 16" "r div 16 < 16" "0 \<le> r mod 16" "r mod 16 < 16"
    using ok(1) by (auto simp: pos_imp_zdiv_nonneg_iff intro!: div_less_iff_less_mult [THEN iffD2])
  have hno: "c \<noteq> Hex_Str k" if "0 \<le> k" "k < 16" "c \<in> {CHR 0x0D, CHR 0xAA, NUL}" for c k
    using hx [OF that(1,2)] that(3) by auto
  have no: "c \<notin> set m" if "c \<in> {CHR 0x0D, CHR 0xAA, NUL}" for c
  proof -
    have "\<not> isdigit c" "c \<notin> set ''$PGKC,''" "c \<noteq> CHR ''*''" using that nodigit by auto
    with ack_text_without [of c cmd res] hno [OF nib(1,2) that] hno [OF nib(3,4) that]
    show ?thesis by (simp add: m_def)
  qed
  have "prefix GPS_CMD_HEADER m" by (simp add: m_def ack_text_def)
  moreover have len: "length m \<le> 17" using ack_text_length [of cmd res "[]"] by (simp add: m_def)
  ultimately have "ack_msg m" using no by (simp add: ack_msg_def GPS_NMEA_FRAME_BUFFER_LENGTH_def)
  moreover have "msg = ack_text cmd res ([CHR ''*'', Hex_Str (r div 16), Hex_Str (r mod 16)] @ CRLF)"
    by (simp add: msg m_def ack_text_def)
  moreover have "GPS_CheckParity (Some (msg @ [])) = Inr True"
    by (rule trailer_parity [OF two ascii _ _ assms]) (use nodigit in \<open>simp_all add: ack_text_without\<close>)
  moreover have "length msg \<le> 19" using msg len by simp
  ultimately show ?thesis using msg by (intro exI [of _ m]) (metis append_Nil2)
qed

lemma read_ack_text:
  assumes "msg = ack_text cmd res t" "GPS_CheckParity (Some msg) = Inr True"
  shows "read_ack (Some msg) = Inr (GPS_CMD_ACK, Some msg)"
proof -
  have "strstr_blk GPS_CMD_HEADER msg 0 = Inr (Some 0)"
    using header_at_0 [of "drop 5 msg"] assms(1) by (simp add: ack_text_def)
  moreover have "blk_at msg 0 = Inr CHR ''$''" "blk_at msg 1 = Inr CHR ''P''"
    using assms(1) by (simp_all add: ack_text_def blk_at_def)
  ultimately show ?thesis
    using assms GetAckCmd_ack [of cmd res t] by (simp add: read_ack_def Let_def)
qed

theorem exchange_ack:
  assumes "nmea_trailer str = Inr out" "nmea_trailer (ack_text cmd res []) = Inr msg"
    and "wf_gps st" "GPS_NMEA_FRAME_BUFFER_LENGTH < maxSize (gpsNmeaBuffer st)" "gpsAckMsg st = None"
    and "env_malloc env (length msg)" "concat chunks = msg" "\<forall>c\<in>set chunks. c \<noteq> []"
    and "sent \<in> set valid_cmds"
  shows "\<exists>st'. GPS_SendWaiteNormalAck env sent str GPS_FORMAT_NMEA (map Uart_Data chunks @ Run_Task # evs) st
      = Some (Inr (cmd = sent \<and> res = GPS_CMD_ACK_EXEC_SUCCESS, evs, st'))
    \<and> wf_gps st' \<and> rx st' = [] \<and> maxSize (gpsNmeaBuffer st') = maxSize (gpsNmeaBuffer st)
    \<and> gpsAckMsg st' = None \<and> semCmdSending st' = None
    \<and> live_blocks st' = live_blocks st \<and> uart_tx st' = uart_tx st @ [out]
    \<and> gps_parser st' = gps_parser st"
proof -
  obtain m t where m: "msg = m @ CRLF" "ack_msg m" "msg = ack_text cmd res t" "GPS_CheckParity (Some msg) = Inr True"
    using ack_wire [OF assms(2)] by blast
  let ?st1 = "st\<lparr>isCmdSendTimeOut := False, semCmdSending := Some 0\<rparr>"
  have wf1: "wf_gps ?st1" using assms(3) by simp
  note cs = CMDSend_nmea [OF assms(1) wf1]
  let ?st2 = "?st1\<lparr>gpsNmeaBuffer := Buffer_Clear (gpsNmeaBuffer ?st1), uart_tx := uart_tx ?st1 @ [out]\<rparr>"
  have ne: "chunks \<noteq> []" using assms(7) m(1) by auto
  have "\<exists>b. wait_sem env (map Uart_Data chunks @ Run_Task # evs) ?st2 =
      wait_sem env (Run_Task # evs) (release_sem (?st2\<lparr>gpsNmeaBuffer := b, gpsAckMsg := Some (m @ CRLF),
        live_blocks := live_blocks ?st2 + 1\<rparr>))
    \<and> wf_buf b \<and> contents b = [] \<and> maxSize b = maxSize (gpsNmeaBuffer ?st2)"
    by (rule wait_ack_chunks [where k = 0, OF m(2)])
      (use cs assms m ne Buffer_Clear_spec(3) [OF assms(3)] in simp_all)
  then obtain b where w: "wait_sem env (map Uart_Data chunks @ Run_Task # evs) ?st2 =
      wait_sem env (Run_Task # evs) (release_sem (?st2\<lparr>gpsNmeaBuffer := b, gpsAckMsg := Some (m @ CRLF),
        live_blocks := live_blocks ?st2 + 1\<rparr>))"
    "wf_buf b" "contents b = []" "maxSize b = maxSize (gpsNmeaBuffer ?st2)" by blast
  have verdict: "normal_ack sent str (GPS_CMD_ACK, Some msg) = Inr (cmd = sent \<and> res = GPS_CMD_ACK_EXEC_SUCCESS)"
    using AckCheck_ack [OF assms(9), of cmd res t] m(3) by (auto simp: normal_ack_def)
  show ?thesis
    using w cs(1) m(1) read_ack_text [OF m(3,4)] verdict Buffer_Clear_spec(3) [OF assms(3)]
    by (simp add: GPS_SendWaiteNormalAck_def GPS_SendCMDWaitAck_def Let_def release_sem_def free_ack_def)
qed

section \<open>The driver at power-on\<close>

text \<open>Statics are zero; the tracker calls \<open>GPS_Init\<close> before it opens the module.\<close>

definition gps_state0 :: gps_state where
  "gps_state0 =
     \<lparr>gpsNmeaBuffer = \<lparr>front = 0, rear = 0, buffer = [], maxSize = 0\<rparr>, isCmdSendTimeOut = False,
      semCmdSending = None, gpsAckMsg = None, isSaveLog = False, gpsLogPath = None,
      gps_parser = parse_state0, uart_tx = [], fs_trace = [], live_blocks = 0\<rparr>"

lemma GPS_Init_spec:
  "wf_gps (GPS_Init st)" "rx (GPS_Init st) = []" "maxSize (gpsNmeaBuffer (GPS_Init st)) = 2048"
  "gps_parser (GPS_Init st) = gps_parser st" "semCmdSending (GPS_Init st) = semCmdSending st"
  "gpsAckMsg (GPS_Init st) = gpsAckMsg st" "live_blocks (GPS_Init st) = live_blocks st"
  using Buffer_Init_spec [of GPS_DATA_BUFFER_MAX_LENGTH]
  by (simp_all add: GPS_Init_def GPS_DATA_BUFFER_MAX_LENGTH_def)

text \<open>The driver as the tracker first uses it, with an environment that answers every request.\<close>

definition gps_ready :: gps_state where
  "gps_ready = GPS_Init gps_state0"

definition gps_env0 :: gps_env where
  "gps_env0 = \<lparr>env_malloc = (\<lambda>_. True), env_open = (\<lambda>_. 3), env_write = (\<lambda>_ s. int (length s))\<rparr>"

lemma gps_ready_spec [simp]:
  "wf_gps gps_ready" "rx gps_ready = []" "maxSize (gpsNmeaBuffer gps_ready) = 2048"
  "gps_parser gps_ready = parse_state0" "semCmdSending gps_ready = None" "gpsAckMsg gps_ready = None"
  "live_blocks gps_ready = 0" "env_malloc gps_env0 n"
  using GPS_Init_spec [of gps_state0] by (simp_all add: gps_ready_def gps_state0_def gps_env0_def)

section \<open>Chunks of bytes from the module\<close>

lemma find_sub_append: "find_sub pat s = Some i \<Longrightarrow> find_sub pat (s @ t) = Some i"
proof (induction s arbitrary: i)
  case Nil
  then show ?case by (cases t) (auto split: if_splits)
next
  case (Cons x xs)
  show ?case
  proof (cases "prefix pat (x # xs)")
    case True
    then have "prefix pat ((x # xs) @ t)" by (meson prefix_order.trans prefixI)
    then show ?thesis using True Cons.prems by simp
  next
    case False
    then obtain j where j: "find_sub pat xs = Some j" "i = Suc j" using Cons.prems by auto
    then have "length pat \<le> length (x # xs)" using find_sub_bound [OF j(1)] by simp
    then have "\<not> prefix pat ((x # xs) @ t)"
      using False by (metis prefix_append prefix_length_le prefixE append_eq_append_conv_if prefix_length_prefix prefixI)
    then show ?thesis using Cons.IH [OF j(1)] j(2) by simp
  qed
qed

lemma message_end_append: "message_end h s = Some n \<Longrightarrow> message_end h (s @ t) = Some n"
proof -
  assume "message_end h s = Some n"
  then obtain i j where ij: "find_sub h s = Some i" "find_sub CRLF (drop i s) = Some j" "n = i + j + 2"
    by (auto simp: message_end_def split: option.splits)
  have "drop i (s @ t) = drop i s @ t" using find_sub_bound [OF ij(1)] by simp
  then show ?thesis using find_sub_append [OF ij(1)] find_sub_append [OF ij(2)] ij(3) by (simp add: message_end_def)
qed

lemma drain_append:
  "drain s = Some (fs, r) \<Longrightarrow> drain (s @ t) = map_option (\<lambda>(gs, q). (fs @ gs, q)) (drain (r @ t))"
proof (induction s arbitrary: fs rule: drain.induct)
  case (1 s)
  show ?case
  proof (cases "message_end ''VTG'' s")
    case None
    then have "fs = []" "r = s" using 1(2) by (auto simp: drain.simps [of s] split: if_splits)
    then show ?thesis by (simp add: case_prod_beta option.map_ident_strong)
  next
    case (Some n)
    then obtain fs' where fs': "drain (drop (frame_len n) s) = Some (fs', r)" "fs = take (frame_len n) s # fs'"
      using 1(2) by (auto simp: drain.simps [of s])
    have "frame_len n \<le> length s" using message_end_bound [OF Some] by (auto simp: frame_len_def)
    then show ?thesis
      using message_end_append [OF Some, of t] 1(1) [OF Some fs'(1)] fs'(2)
      by (simp add: drain.simps [of "s @ t"] option.map_comp comp_def case_prod_beta)
  qed
qed

lemma drain_rest: "drain s = Some (fs, r) \<Longrightarrow> find_sub ''VTG'' r = None \<and> length r \<le> length s"
proof (induction s arbitrary: fs rule: drain.induct)
  case (1 s)
  show ?case
  proof (cases "message_end ''VTG'' s")
    case None
    then show ?thesis using 1(2) by (auto simp: drain.simps [of s] split: if_splits)
  next
    case (Some n)
    then obtain fs' where "drain (drop (frame_len n) s) = Some (fs', r)" using 1(2) by (auto simp: drain.simps [of s])
    from 1(1) [OF Some this] show ?thesis by auto
  qed
qed

lemma drain_no_head: "find_sub ''VTG'' s = None \<Longrightarrow> drain s = Some ([], s)"
  by (simp add: drain.simps [of s] message_end_def)

fun update_all :: "gps_env \<Rightarrow> byte list list \<Rightarrow> gps_state \<Rightarrow> gps_state result option" where
  "update_all env [] st = Some (Inr st)"
| "update_all env (c # cs) st =
     (case GPS_Update env c st of
        None \<Rightarrow> None
      | Some (Inl e) \<Rightarrow> Some (Inl e)
      | Some (Inr st') \<Rightarrow> update_all env cs st')"

lemma parse_frames_append: "parse_frames (fs @ gs) p = parse_frames gs (parse_frames fs p)"
  by (simp add: parse_frames_def)

text \<open>C12: How the module's bytes are cut into chunks does not matter: as long as every call of the receive
  handler returns and the ring has room, the driver has parsed the same frames in the same order as if all
  bytes had come at once, and the ring holds the bytes behind the last complete frame.\<close>

theorem chunking_is_invisible:
  assumes "wf_gps st" "semCmdSending st = None" "find_sub ''VTG'' (rx st) = None"
    and "length (rx st @ concat chunks) < maxSize (gpsNmeaBuffer st)"
    and "update_all env chunks st = Some r"
  shows "\<exists>st' frames. r = Inr st' \<and> drain (rx st @ concat chunks) = Some (frames, rx st')
    \<and> gps_parser st' = parse_frames frames (gps_parser st)"
  using assms
proof (induction chunks arbitrary: st)
  case Nil
  then show ?case by (auto simp: drain_no_head parse_frames_def)
next
  case (Cons c cs)
  have fits: "length (rx st) + length c < maxSize (gpsNmeaBuffer st)" using Cons.prems(4) by simp
  have "GPS_Update env c st \<noteq> None" using Cons.prems(5) by (cases "GPS_Update env c st") auto
  then obtain fs rest where d: "drain (rx st @ c) = Some (fs, rest)"
    using GPS_Update_returns [OF Cons.prems(1,2) fits, of env] by auto
  obtain st1 where st1: "GPS_Update env c st = Some (Inr st1)" "wf_gps st1" "rx st1 = rest"
    "gps_parser st1 = parse_frames fs (gps_parser st)" "semCmdSending st1 = None"
    "maxSize (gpsNmeaBuffer st1) = maxSize (gpsNmeaBuffer st)"
    using GPS_Update_frames [OF Cons.prems(1,2) fits d, of env] by blast
  have "find_sub ''VTG'' (rx st1) = None" "length rest \<le> length (rx st @ c)" using drain_rest [OF d] st1(3) by simp_all
  moreover from this have "length (rx st1 @ concat cs) < maxSize (gpsNmeaBuffer st1)"
    using Cons.prems(4) st1(3,6) by simp
  moreover have "update_all env cs st1 = Some r" using Cons.prems(5) st1(1) by simp
  ultimately obtain st' gs where "r = Inr st'" "drain (rest @ concat cs) = Some (gs, rx st')"
    "gps_parser st' = parse_frames gs (gps_parser st1)"
    using Cons.IH [OF st1(2,5)] st1(3) by blast
  then show ?case using drain_append [OF d, of "concat cs"] st1(4) by (auto simp: parse_frames_append)
qed

theorem chunking_is_invisible_witness:
  "\<exists>st'. update_all gps_env0 [''$GN'', ''VTG,1'' @ CRLF] gps_ready = Some (Inr st')
    \<and> gps_parser st' = parse_frames [''$GNVTG,1'' @ CRLF] parse_state0 \<and> rx st' = []"
proof -
  have d: "drain ''$GN'' = Some ([], ''$GN'')" "drain (''$GNVTG,1'' @ CRLF) = Some ([''$GNVTG,1'' @ CRLF], [])"
    by (simp_all add: drain.simps message_end_def frame_len_def GPS_NMEA_FRAME_BUFFER_LENGTH_def)
  obtain st1 where s1: "GPS_Update gps_env0 ''$GN'' gps_ready = Some (Inr st1)" "wf_gps st1" "rx st1 = ''$GN''"
    "semCmdSending st1 = None" "maxSize (gpsNmeaBuffer st1) = 2048"
    using GPS_Update_frames [of gps_ready "''$GN''" "[]" "''$GN''" gps_env0] d by auto
  obtain st2 where s2: "GPS_Update gps_env0 (''VTG,1'' @ CRLF) st1 = Some (Inr st2)"
    using GPS_Update_frames [OF s1(2,4), of "''VTG,1'' @ CRLF" _ _ gps_env0] d s1(3,5) by auto
  have u: "update_all gps_env0 [''$GN'', ''VTG,1'' @ CRLF] gps_ready = Some (Inr st2)" using s1 s2 by simp
  from chunking_is_invisible [OF _ _ _ _ u] d u show ?thesis by auto
qed



text \<open>C27: A ring that has filled up without a frame head never recovers: every later chunk that does not fit
  is dropped, the state is the same after it, and no sentence is parsed any more.\<close>

theorem full_ring_is_stuck:
  assumes "wf_gps st" "semCmdSending st = None" "find_sub ''VTG'' (rx st) = None"
    and "\<forall>c\<in>set chunks. length c < 65536 \<and> maxSize (gpsNmeaBuffer st) \<le> length (rx st) + length c"
  shows "update_all env chunks st = Some (Inr st)"
  using assms(4) GPS_Update_full [OF assms(1-3)] by (induction chunks) simp_all

definition full_state :: gps_state where
  "full_state = gps_ready\<lparr>gpsNmeaBuffer := \<lparr>front = 0, rear = 3, buffer = ''x$GN.'', maxSize = 5\<rparr>\<rparr>"

theorem full_ring_is_stuck_witness:
  "update_all gps_env0 [''RMC,'', ''1x''] full_state = Some (Inr full_state)"
proof -
  have c: "contents \<lparr>front = 0, rear = 3, buffer = ''x$GN.'', maxSize = 5\<rparr> = ''$GN''" by code_simp
  have w: "wf_gps full_state" "find_sub ''VTG'' (rx full_state) = None" "length (rx full_state) = 3"
    "maxSize (gpsNmeaBuffer full_state) = 5"
    by (simp_all add: full_state_def c wf_buf_def del: length_contents)
  have "semCmdSending full_state = None" by (simp add: full_state_def)
  from full_ring_is_stuck [OF w(1) this w(2), of "[''RMC,'', ''1x'']"] show ?thesis using w by simp
qed

text \<open>Without an answer the timer ends the wait: the command reports failure, the semaphore is gone, no
  acknowledgement is left behind and no memory block is lost.\<close>

theorem exchange_timeout:
  assumes "nmea_trailer str = Inr out" "wf_gps st" "gpsAckMsg st = None"
  shows "\<exists>st'. GPS_SendWaiteNormalAck env sent str GPS_FORMAT_NMEA (Ack_Timer # Run_Task # evs) st
      = Some (Inr (False, evs, st')) \<and> gpsAckMsg st' = None \<and> semCmdSending st' = None
    \<and> live_blocks st' = live_blocks st"
proof -
  have "wf_gps (st\<lparr>isCmdSendTimeOut := False, semCmdSending := Some 0\<rparr>)" using assms(2) by simp
  from CMDSend_nmea(1) [OF assms(1) this] show ?thesis
    using assms(3)
    by (simp add: GPS_SendWaiteNormalAck_def GPS_SendCMDWaitAck_def Let_def OnCmdAckFail_def release_sem_def
        normal_ack_def free_ack_def)
qed

theorem exchange_timeout_witness:
  "\<exists>st'. GPS_SendWaiteNormalAck gps_env0 GPS_CMD_LP_MODE ''$PGKC105,8'' GPS_FORMAT_NMEA [Ack_Timer, Run_Task] gps_ready
      = Some (Inr (False, [], st')) \<and> live_blocks st' = 0"
proof -
  have t: "nmea_trailer ''$PGKC105,8'' = Inr (''$PGKC105,8*3F'' @ CRLF)" by code_simp
  from exchange_timeout [OF t, of gps_ready gps_env0 GPS_CMD_LP_MODE "[]"] show ?thesis by auto
qed

text \<open>When a second acknowledgement arrives before the waiting task has run, its copy replaces the
  pointer to the first one: the verdict is that of the second, and the first block is never freed.\<close>

theorem second_ack_leaks:
  assumes "nmea_trailer str = Inr out"
    and "nmea_trailer (ack_text cmd1 res1 []) = Inr msg1" "nmea_trailer (ack_text cmd2 res2 []) = Inr msg2"
    and "wf_gps st" "GPS_NMEA_FRAME_BUFFER_LENGTH < maxSize (gpsNmeaBuffer st)" "gpsAckMsg st = None"
    and "env_malloc env (length msg1)" "env_malloc env (length msg2)" "sent \<in> set valid_cmds"
  shows "\<exists>st'. GPS_SendWaiteNormalAck env sent str GPS_FORMAT_NMEA [Uart_Data msg1, Uart_Data msg2, Run_Task] st
      = Some (Inr (cmd2 = sent \<and> res2 = GPS_CMD_ACK_EXEC_SUCCESS, [], st'))
    \<and> gpsAckMsg st' = None \<and> live_blocks st' = live_blocks st + 1"
proof -
  obtain m1 where m1: "msg1 = m1 @ CRLF" "ack_msg m1" using ack_wire [OF assms(2)] by blast
  obtain m2 t where m2: "msg2 = m2 @ CRLF" "ack_msg m2" "msg2 = ack_text cmd2 res2 t"
    "GPS_CheckParity (Some msg2) = Inr True" using ack_wire [OF assms(3)] by blast
  let ?st1 = "st\<lparr>isCmdSendTimeOut := False, semCmdSending := Some 0\<rparr>"
  have wf1: "wf_gps ?st1" using assms(4) by simp
  note cs = CMDSend_nmea [OF assms(1) wf1]
  let ?st2 = "?st1\<lparr>gpsNmeaBuffer := Buffer_Clear (gpsNmeaBuffer ?st1), uart_tx := uart_tx ?st1 @ [out]\<rparr>"
  have big: "GPS_NMEA_FRAME_BUFFER_LENGTH < maxSize (gpsNmeaBuffer ?st2)"
    using assms(4,5) Buffer_Clear_spec(3) [OF assms(4)] by simp
  obtain b1 where b1: "wait_sem env (map Uart_Data [msg1] @ [Uart_Data msg2, Run_Task]) ?st2 =
      wait_sem env [Uart_Data msg2, Run_Task] (release_sem (?st2\<lparr>gpsNmeaBuffer := b1, gpsAckMsg := Some (m1 @ CRLF),
        live_blocks := live_blocks ?st2 + 1\<rparr>))"
    "wf_buf b1" "contents b1 = []" "maxSize b1 = maxSize (gpsNmeaBuffer ?st2)"
    using wait_ack_chunks [OF m1(2) _ cs(3) _ big, of env 0 "[msg1]" "[Uart_Data msg2, Run_Task]"] cs(2) m1(1) assms(7)
    by auto
  let ?st3 = "release_sem (?st2\<lparr>gpsNmeaBuffer := b1, gpsAckMsg := Some (m1 @ CRLF), live_blocks := live_blocks ?st2 + 1\<rparr>)"
  have st3: "wf_gps ?st3" "rx ?st3 = []" "semCmdSending ?st3 = Some 1"
    "GPS_NMEA_FRAME_BUFFER_LENGTH < maxSize (gpsNmeaBuffer ?st3)"
    using b1 big by (simp_all add: release_sem_def)
  obtain b2 where b2: "wait_sem env (map Uart_Data [msg2] @ [Run_Task]) ?st3 =
      wait_sem env [Run_Task] (release_sem (?st3\<lparr>gpsNmeaBuffer := b2, gpsAckMsg := Some (m2 @ CRLF),
        live_blocks := live_blocks ?st3 + 1\<rparr>))"
    using wait_ack_chunks [OF m2(2) _ st3(1,3,4), of env "[msg2]" "[Run_Task]"] st3(2) m2(1) assms(8) by auto
  have verdict: "normal_ack sent str (GPS_CMD_ACK, Some msg2) = Inr (cmd2 = sent \<and> res2 = GPS_CMD_ACK_EXEC_SUCCESS)"
    using AckCheck_ack [OF assms(9), of cmd2 res2 t] m2(3) by (auto simp: normal_ack_def)
  show ?thesis
    using b1(1) b2 cs(1) m2(1) read_ack_text [OF m2(3,4)] verdict
    by (simp add: GPS_SendWaiteNormalAck_def GPS_SendCMDWaitAck_def Let_def release_sem_def free_ack_def)
qed

theorem second_ack_leaks_witness:
  "\<exists>st'. GPS_SendWaiteNormalAck gps_env0 GPS_CMD_LP_MODE ''$PGKC105,8'' GPS_FORMAT_NMEA
      [Uart_Data (''$PGKC001,105,3*29'' @ CRLF), Uart_Data (''$PGKC001,105,3*29'' @ CRLF), Run_Task] gps_ready
    = Some (Inr (True, [], st')) \<and> live_blocks st' = 1"
proof -
  have t: "nmea_trailer ''$PGKC105,8'' = Inr (''$PGKC105,8*3F'' @ CRLF)"
    "nmea_trailer (ack_text GPS_CMD_LP_MODE GPS_CMD_ACK_EXEC_SUCCESS []) = Inr (''$PGKC001,105,3*29'' @ CRLF)"
    by code_simp+
  have v: "GPS_CMD_LP_MODE \<in> set valid_cmds" by (simp add: valid_cmds_def)
  from second_ack_leaks [OF t(1) t(2) t(2) _ _ _ _ _ v, of gps_ready gps_env0] show ?thesis
    by (auto simp: GPS_NMEA_FRAME_BUFFER_LENGTH_def)
qed

section \<open>Every operation keeps the driver well-formed\<close>

definition gps_ok :: "gps_state \<Rightarrow> bool" where
  "gps_ok st \<longleftrightarrow> wf_gps st \<and> maxSize (gpsNmeaBuffer st) = GPS_DATA_BUFFER_MAX_LENGTH \<and> parse_ok (gps_parser st)"

lemma puts_loop_wf: "wf_buf b \<Longrightarrow> wf_buf (puts_loop b xs) \<and> maxSize (puts_loop b xs) = maxSize b"
  by (induction b xs rule: puts_loop.induct) (simp_all add: wf_put_byte)

lemma buffer_data_ok [wf_intros]: "gps_ok st \<Longrightarrow> gps_ok (buffer_data data st)"
  by (simp add: gps_ok_def buffer_data_def Buffer_Puts_def puts_loop_wf)

lemma take_frame_ok: "take_frame st ix = (r, st') \<Longrightarrow> gps_ok st \<Longrightarrow> gps_ok st' \<and> semCmdSending st' = semCmdSending st"
  using ring.inv_get [of "gpsNmeaBuffer st"] ring.cap_get [of "gpsNmeaBuffer st"]
  by (auto simp: take_frame_def Let_def prod.case_eq_if gps_ok_def)

lemma handle_frame_ok [wf_intros]: "gps_ok st \<Longrightarrow> gps_ok (handle_frame env f st)"
  by (simp add: gps_ok_def GPS_Parse_ok)

lemma frame_loop_ok:
  assumes "frame_loop env st = Some st'" "gps_ok st"
  shows "gps_ok st' \<and> semCmdSending st' = semCmdSending st"
proof -
  have "gps_ok st \<longrightarrow> gps_ok st' \<and> semCmdSending st' = semCmdSending st"
  proof (rule frame_loop.raw_induct [OF _ assms(1),
        where P = "\<lambda>env st st'. gps_ok st \<longrightarrow> gps_ok st' \<and> semCmdSending st' = semCmdSending st"], intro impI)
    fix loop env st y
    assume IH: "\<And>env st y. loop env st = Some y \<Longrightarrow> gps_ok st \<longrightarrow> gps_ok y \<and> semCmdSending y = semCmdSending st"
      and step: "(let index = query_start st ''VTG''
      in if index \<ge> 0 then
           (let index = query st CRLF (nat index)
            in if index \<ge> 0 then
                 (case take_frame st index of
                    (None, st') \<Rightarrow> Some st'
                  | (Some frame, st') \<Rightarrow> loop env (handle_frame env frame st'))
               else loop env st)
         else Some st) = Some y" and ok: "gps_ok st"
    show "gps_ok y \<and> semCmdSending y = semCmdSending st"
      using step ok IH take_frame_ok [OF _ ok] handle_frame_ok
      by (auto simp: Let_def split: if_splits prod.splits option.splits)
  qed
  with assms(2) show ?thesis by simp
qed

lemma keep_ack_ok: "keep_ack env f i st = Inr st' \<Longrightarrow> gps_ok st \<Longrightarrow> gps_ok st' \<and> (semCmdSending st' = None \<longleftrightarrow> semCmdSending st = None)"
  by (auto simp: keep_ack_def gps_ok_def release_sem_def Let_def split: option.splits if_splits)

lemma ack_update_ok:
  assumes "ack_update env st = Inr st'" "gps_ok st"
  shows "gps_ok st' \<and> (semCmdSending st' = None \<longleftrightarrow> semCmdSending st = None)"
  using assms take_frame_ok keep_ack_ok
  by (auto simp: ack_update_def Let_def split: if_splits prod.splits option.splits)

lemma GPS_Update_ok:
  assumes "GPS_Update env data st = Some (Inr st')" "gps_ok st"
  shows "gps_ok st' \<and> (semCmdSending st' = None \<longleftrightarrow> semCmdSending st = None)"
  using assms frame_loop_ok [of env "buffer_data data st"] ack_update_ok [of env "buffer_data data st"]
    buffer_data_ok [OF assms(2), of data]
  by (auto simp: GPS_Update_def Let_def split: if_splits)

lemma GPS_CMDSend_ok: "GPS_CMDSend s f st = Inr st' \<Longrightarrow> gps_ok st \<Longrightarrow> gps_ok st'"
  using Buffer_Clear_spec [of "gpsNmeaBuffer st"]
  by (auto simp: GPS_CMDSend_def rbind_def GPS_Send_def gps_ok_def split: GPS_Format_t.splits sum.splits)

lemma wait_sem_ok: "wait_sem env evs st = Some (Inr (evs', st')) \<Longrightarrow> gps_ok st \<Longrightarrow> gps_ok st'"
proof (induction env evs st rule: wait_sem.induct)
  case (2 env evs st)
  then show ?case by (auto simp: gps_ok_def split: option.splits nat.splits)
next
  case (3 env evs st)
  then show ?case by (auto simp: gps_ok_def OnCmdAckFail_def release_sem_def)
next
  case (4 env d evs st)
  then show ?case by (auto split: option.splits sum.splits dest: GPS_Update_ok)
qed simp

lemma rbind_Inr: "rbind r f = Inr y \<longleftrightarrow> (\<exists>x. r = Inr x \<and> f x = Inr y)"
  by (cases r) simp_all

lemma GPS_SendCMDWaitAck_ok:
  "GPS_SendCMDWaitAck env s f evs st = Some (Inr (r, evs', st')) \<Longrightarrow> gps_ok st \<Longrightarrow> gps_ok st' \<and> semCmdSending st' = None"
  by (auto simp: GPS_SendCMDWaitAck_def Let_def rbind_def gps_ok_def split: sum.splits option.splits if_splits
      dest!: GPS_CMDSend_ok wait_sem_ok)

lemma free_ack_ok [simp]: "gps_ok (free_ack st) = gps_ok st" "semCmdSending (free_ack st) = semCmdSending st"
  by (simp_all add: free_ack_def gps_ok_def)

lemma GPS_SendWaiteNormalAck_ok:
  "GPS_SendWaiteNormalAck env c s f evs st = Some (Inr (ok, evs', st')) \<Longrightarrow> gps_ok st \<Longrightarrow> gps_ok st' \<and> semCmdSending st' = None"
  by (auto simp: GPS_SendWaiteNormalAck_def rbind_Inr dest!: GPS_SendCMDWaitAck_ok)

lemma GPS_Init_ok [wf_intros]: "parse_ok (gps_parser st) \<Longrightarrow> gps_ok (GPS_Init st)"
  using GPS_Init_spec [of st] by (simp add: gps_ok_def GPS_DATA_BUFFER_MAX_LENGTH_def)

lemma cstr_id: "NUL \<notin> set s \<Longrightarrow> cstr s = s"
  using cstr_append [of s "[]"] by (simp add: cstr_def)

lemma drain_one_frame:
  assumes "message_end ''VTG'' data = Some (length data)" "length data \<le> GPS_NMEA_FRAME_BUFFER_LENGTH"
  shows "drain data = Some ([data], [])"
proof -
  have "drain [] = Some ([], [])" by (simp add: drain.simps [of "[]"] message_end_def)
  then show ?thesis using assms by (simp add: drain.simps [of data] frame_len_def)
qed

end
