(* ===== verification/Gps_Command.thy ===== *)
theory Gps_Command
  imports Gps_Driver
begin

text \<open>
  The commands of \<^verbatim>\<open>firmware/libs/gps/src/gps.c\<close>: the text or the binary block each function
  builds, sent with the exchange of the driver. An enumeration argument is its integer value, a
  boolean prints as 0 or 1.
\<close>

section \<open>Building command strings\<close>

definition GPS_BUFFER_MAX_LENGTH :: nat where
  "GPS_BUFFER_MAX_LENGTH = 530"

text \<open>\<open>"%s%03d"\<close> with the header and the command's number, then \<open>",%d"\<close> for each argument.\<close>

definition cmd_text :: "GPS_CMD_t \<Rightarrow> int list \<Rightarrow> byte list" where
  "cmd_text cmdSend params =
     snprintf GPS_BUFFER_MAX_LENGTH
       (GPS_CMD_HEADER @ fmt_0d 3 (nat (cmd_code cmdSend)) @ concat (map (\<lambda>p. CHR '','' # fmt_d p) params))"

definition of_flag :: "bool \<Rightarrow> int" where
  "of_flag b = (if b then 1 else 0)"

type_synonym 'a exchange = "gps_event list \<Rightarrow> gps_state \<Rightarrow> ('a \<times> gps_event list \<times> gps_state) result option"

definition send_nmea :: "gps_env \<Rightarrow> GPS_CMD_t \<Rightarrow> int list \<Rightarrow> bool exchange" where
  "send_nmea env cmdSend params =
     GPS_SendWaiteNormalAck env cmdSend (cmd_text cmdSend params) GPS_FORMAT_NMEA"

definition GPS_Reboot :: "gps_env \<Rightarrow> int \<Rightarrow> bool exchange" where
  "GPS_Reboot env mode = send_nmea env GPS_CMD_REBOOT [mode, 1]"

definition GPS_ClearInfoInFlash :: "gps_env \<Rightarrow> bool exchange" where
  "GPS_ClearInfoInFlash env = send_nmea env GPS_CMD_ERASE_INFO_IN_FLASH []"

definition GPS_SetStandbyMode :: "gps_env \<Rightarrow> int \<Rightarrow> bool exchange" where
  "GPS_SetStandbyMode env mode = send_nmea env GPS_CMD_STANDBY_MODE [mode]"

definition GPS_SetOutputInterval :: "gps_env \<Rightarrow> int \<Rightarrow> bool exchange" where
  "GPS_SetOutputInterval env intervalMs = send_nmea env GPS_CMD_NMEA_OUTPUT_INTERVAL [intervalMs]"

definition GPS_SetLpMode :: "gps_env \<Rightarrow> int \<Rightarrow> bool exchange" where
  "GPS_SetLpMode env mode = send_nmea env GPS_CMD_LP_MODE [mode]"

definition GPS_SetQzssOutput :: "gps_env \<Rightarrow> bool \<Rightarrow> bool exchange" where
  "GPS_SetQzssOutput env openOutput = send_nmea env GPS_CMD_NMEA_OUTPUT_QZSS [of_flag openOutput]"

definition GPS_SetQzssEnable :: "gps_env \<Rightarrow> bool \<Rightarrow> bool exchange" where
  "GPS_SetQzssEnable env enable = send_nmea env GPS_CMD_QZSS [of_flag enable]"

definition GPS_SetSearchMode :: "gps_env \<Rightarrow> bool \<Rightarrow> bool \<Rightarrow> bool \<Rightarrow> bool \<Rightarrow> bool exchange" where
  "GPS_SetSearchMode env gps glonass beidou galieo =
     send_nmea env GPS_CMD_SEARCH_MODE [of_flag gps, of_flag glonass, of_flag beidou, of_flag galieo]"

definition GPS_SetFormat :: "GPS_Format_t \<Rightarrow> bool" where
  "GPS_SetFormat format = False"

definition GPS_SetSBASEnable :: "gps_env \<Rightarrow> bool \<Rightarrow> bool exchange" where
  "GPS_SetSBASEnable env enable = send_nmea env GPS_CMD_SBAS [of_flag enable]"

record GPS_NMEA_Output_Freq_t =
  freq_gll :: int
  freq_rmc :: int
  freq_vtg :: int
  freq_gga :: int
  freq_gsa :: int
  freq_gsv :: int
  freq_grs :: int
  freq_gst :: int

definition GPS_SetNmeaOutputFreq :: "gps_env \<Rightarrow> GPS_NMEA_Output_Freq_t option \<Rightarrow> bool exchange" where
  "GPS_SetNmeaOutputFreq env config evs st =
     (case config of
        None \<Rightarrow> Some (Inl (Assertion_Failed ''param GPS_NMEA_Output_Freq_t error''))
      | Some c \<Rightarrow> send_nmea env GPS_CMD_NMEA_OUTPUT_FREQ
          ([freq_gll c, freq_rmc c, freq_vtg c, freq_gga c, freq_gsa c, freq_gsv c, freq_grs c, freq_gst c]
           @ replicate 10 0) evs st)"

record RTC_Time_t =
  rtc_year :: int
  rtc_month :: int
  rtc_day :: int
  rtc_hour :: int
  rtc_minute :: int
  rtc_second :: int

definition rtc_params :: "RTC_Time_t \<Rightarrow> int list" where
  "rtc_params t = [rtc_year t, rtc_month t, rtc_day t, rtc_hour t, rtc_minute t, rtc_second t]"

definition GPS_SetRtcTime :: "gps_env \<Rightarrow> RTC_Time_t \<Rightarrow> bool exchange" where
  "GPS_SetRtcTime env t = send_nmea env GPS_CMD_SET_RTC_TIME (rtc_params t)"

text \<open>The three coordinates arrive as the strings \<open>gcvt(x, 6, buf)\<close> makes of them.\<close>

definition GPS_SetLocationTime ::
  "gps_env \<Rightarrow> byte list \<Rightarrow> byte list \<Rightarrow> byte list \<Rightarrow> RTC_Time_t \<Rightarrow> bool exchange" where
  "GPS_SetLocationTime env buff1 buff2 buff3 t =
     GPS_SendWaiteNormalAck env GPS_CMD_SET_LOCATION_TIME
       (snprintf GPS_BUFFER_MAX_LENGTH
          (GPS_CMD_HEADER @ fmt_0d 3 (nat (cmd_code GPS_CMD_SET_LOCATION_TIME)) @ '','' @ buff1 @ '','' @ buff2
           @ '','' @ buff3 @ concat (map (\<lambda>p. CHR '','' # fmt_d p) (rtc_params t))))
       GPS_FORMAT_NMEA"

definition GPS_SetFixMode :: "gps_env \<Rightarrow> int \<Rightarrow> bool exchange" where
  "GPS_SetFixMode env mode = send_nmea env GPS_CMD_FIX_MODE [mode]"

definition GPS_SetBinaryMode :: "gps_env \<Rightarrow> bool exchange" where
  "GPS_SetBinaryMode env = send_nmea env GPS_CMD_FORMAT [1, 9600]"

section \<open>The version query\<close>

text \<open>
  The reply's text from its first comma to its star; \<open>strstr(index, ...)\<close> with a null \<open>index\<close> is a
  fault. The star is overwritten before the text is copied out.
\<close>

definition version_text :: "byte list \<Rightarrow> byte list option result" where
  "version_text ack =
     rbind (strstr_blk '','' ack 0) (\<lambda>index.
     case index of None \<Rightarrow> Inl Null_Dereference
     | Some i \<Rightarrow>
         rbind (strstr_blk ''*'' ack i) (\<lambda>index2.
         case index2 of None \<Rightarrow> Inr None
         | Some k \<Rightarrow> Inr (Some (take (k - i) (drop i ack)))))"

definition GPS_GetVersion :: "gps_env \<Rightarrow> nat \<Rightarrow> byte list option exchange" where
  "GPS_GetVersion env len evs st =
     map_option (\<lambda>r. rbind r (\<lambda>((ackCmd, ackStr), evs', st').
         if ackCmd \<noteq> GPS_CMD_ACK_VERSION then Inr (None, evs', free_ack st')
         else case ackStr of None \<Rightarrow> Inl Null_Dereference
         | Some a \<Rightarrow> rbind (version_text a) (\<lambda>v. Inr (map_option (snprintf len) v, evs', free_ack st'))))
       (GPS_SendCMDWaitAck env (cmd_text GPS_CMD_GET_VERSION []) GPS_FORMAT_NMEA evs st)"

section \<open>Binary commands\<close>

text \<open>
  The array \<open>temp\<close> is not initialised; \<open>junk\<close> is what it holds. The first bytes of the message are
  written over it.
\<close>

definition low_high :: "int \<Rightarrow> byte list" where
  "low_high x = [byte_of (x mod 256), byte_of (x div 256)]"

definition overwrite :: "byte list \<Rightarrow> byte list \<Rightarrow> byte list" where
  "overwrite msg junk = msg @ drop (length msg) junk"

definition nmea_mode_block :: "byte list \<Rightarrow> byte list" where
  "nmea_mode_block junk =
     overwrite (GPS_CMD_BINARY_HEADER @ low_high 14 @ low_high (cmd_code GPS_CMD_FORMAT)
       @ [NUL] @ low_high (9600 mod 65536) @ low_high (9600 div 65536)) junk"

definition GPS_SetNMEAMode :: "gps_env \<Rightarrow> byte list \<Rightarrow> bool exchange" where
  "GPS_SetNMEAMode env junk =
     GPS_SendWaiteNormalAck env GPS_CMD_FORMAT (nmea_mode_block junk) GPS_FORMAT_BINARY"

definition gpd_block :: "int \<Rightarrow> byte list option \<Rightarrow> byte list \<Rightarrow> byte list" where
  "gpd_block index pack junk =
     (let len = (if index = 0xffff then 0x000b else 523)
      in overwrite (GPS_CMD_BINARY_HEADER @ low_high len @ low_high (cmd_code GPS_CMD_GPD_PACK) @ low_high index
           @ (case pack of None \<Rightarrow> [] | Some p \<Rightarrow> take 512 p)) junk)"

definition GPS_SendGPDPack :: "gps_env \<Rightarrow> byte list \<Rightarrow> int \<Rightarrow> byte list option \<Rightarrow> bool exchange" where
  "GPS_SendGPDPack env junk index pack =
     GPS_SendWaiteNormalAck env GPS_CMD_GPD_PACK (gpd_block index pack junk) GPS_FORMAT_BINARY"

section \<open>What a command looks like on the wire\<close>

text \<open>A command string: a dollar sign and printable bytes, short enough for an NMEA sentence.\<close>

definition sendable :: "byte list \<Rightarrow> bool" where
  "sendable s \<longleftrightarrow> (\<exists>body. s = CHR ''$'' # body \<and> body \<noteq> [] \<and> list_all body_char body \<and> length body \<le> 77)"

lemma body_char_bound: "body_char c \<Longrightarrow> uchar c < 128 \<and> c \<noteq> NUL \<and> c \<noteq> CHR ''*''"
  using isprint_NUL by (auto simp: body_char_def) (auto simp: isprint_def)

lemma sendable_trailer:
  assumes "sendable s"
  shows "\<exists>out. nmea_trailer s = Inr out \<and> minmea_check out True \<and> GPS_CheckParity (Some out) = Inr True
    \<and> length out = length s + 5"
proof -
  obtain body where b: "s = CHR ''$'' # body" "body \<noteq> []" "list_all body_char body" "length body \<le> 77"
    using assms by (auto simp: sendable_def)
  have two: "2 \<le> length s" using b(1,2) by (cases body) auto
  have dollar: "uchar CHR ''$'' < 128" by (simp add: uchar_def)
  have all: "\<forall>c\<in>set s. uchar c < 128" "CHR ''*'' \<notin> set s" "NUL \<notin> set s"
    using b(1,3) body_char_bound dollar by (auto simp: list_all_iff)
  from nmea_trailer_ok(2) [OF two all(1)] obtain out where
    out: "nmea_trailer s = Inr out" "length out = length s + 5" by auto
  have "GPS_CheckParity (Some (out @ [])) = Inr True"
    by (rule trailer_parity [OF two all out(1)])
  moreover have "minmea_check out True"
    by (rule trailer_valid_sentence [of body]) (use out b in simp_all)
  ultimately show ?thesis using out by auto
qed

lemma isdigit_body: "isdigit c \<Longrightarrow> body_char c"
  by (auto simp: body_char_def isdigit_def isprint_def uchar_def)

lemma special_body [simp]: "body_char CHR '',''" "body_char CHR ''-''" "body_char CHR ''0''" "body_char CHR ''P''" "body_char CHR ''G''" "body_char CHR ''K''" "body_char CHR ''C''"
  by (simp_all add: body_char_def isprint_def uchar_def)

lemma fmt_u_body: "list_all body_char (fmt_u n)"
  using fmt_u_digits isdigit_body by (auto simp: list_all_iff)

lemma fmt_d_body: "list_all body_char (fmt_d p)"
  by (simp add: fmt_d_def fmt_u_body)

definition params_text :: "int list \<Rightarrow> byte list" where
  "params_text ps = concat (map (\<lambda>p. CHR '','' # fmt_d p) ps)"

lemma params_text_append [simp]:
  "params_text [] = []" "params_text (p # ps) = CHR '','' # fmt_d p @ params_text ps"
  "params_text (ps @ qs) = params_text ps @ params_text qs"
  by (simp_all add: params_text_def)

lemma params_body: "list_all body_char (params_text ps)"
  by (induction ps) (simp_all add: fmt_d_body)

lemma params_length:
  assumes "\<forall>p\<in>set ps. 0 \<le> p \<and> p < 10 ^ Suc k"
  shows "length (params_text ps) \<le> (k + 2) * length ps"
  using assms
proof (induction ps)
  case (Cons p ps)
  then have "nat p < 10 ^ Suc k" by (simp add: nat_less_iff)
  from fmt_u_length [OF this] Cons show ?case by (simp add: fmt_d_def)
qed simp

lemma cmd_number: "length (fmt_0d 3 (nat (cmd_code c))) = 3" "list_all body_char (fmt_0d 3 (nat (cmd_code c)))"
proof -
  have "nat (cmd_code c) < 10 ^ Suc 2" using cmd_code_bounds [of c] by auto
  from fmt_u_length [OF this] show "length (fmt_0d 3 (nat (cmd_code c))) = 3" by (simp add: fmt_0d_def)
  show "list_all body_char (fmt_0d 3 (nat (cmd_code c)))"
    using fmt_u_body by (auto simp: fmt_0d_def list_all_iff)
qed

lemma cmd_text_sendable:
  assumes "length (params_text params) \<le> 70"
  shows "sendable (cmd_text c params)"
    and "cmd_text c params = GPS_CMD_HEADER @ fmt_0d 3 (nat (cmd_code c)) @ params_text params"
proof -
  show eq: "cmd_text c params = GPS_CMD_HEADER @ fmt_0d 3 (nat (cmd_code c)) @ params_text params"
    using assms cmd_number(1) [of c]
    by (simp add: cmd_text_def snprintf_def GPS_BUFFER_MAX_LENGTH_def flip: params_text_def)
  show "sendable (cmd_text c params)"
    unfolding sendable_def eq using assms cmd_number [of c] params_body [of params]
    by (intro exI [of _ "''PGKC'' @ fmt_0d 3 (nat (cmd_code c)) @ params_text params"]) simp
qed

text \<open>Up to ten numbers of at most five digits, and the eight rates with ten zeros, are short enough.\<close>

lemma params_short:
  assumes "\<forall>p\<in>set ps. 0 \<le> p \<and> p < 100000" "length ps \<le> 10"
  shows "length (params_text ps) \<le> 70"
proof -
  have "length (params_text ps) \<le> (4 + 2) * length ps"
    by (rule params_length) (use assms in auto)
  with assms(2) show ?thesis by simp
qed

lemma rates_short:
  assumes "\<forall>p\<in>set ps. 0 \<le> p \<and> p < 256" "length ps = 8"
  shows "length (params_text (ps @ replicate 10 0)) \<le> 70"
proof -
  have "length (params_text ps) \<le> (2 + 2) * length ps"
    by (rule params_length) (use assms in fastforce)
  moreover have "length (params_text (replicate 10 0)) \<le> (0 + 2) * length (replicate 10 (0::int))"
    by (rule params_length) simp
  ultimately show ?thesis using assms(2) by simp
qed

text \<open>
  Every command that the driver sends as text: it goes out with a trailer both parsers accept, and
  the call answers what the module's acknowledgement says, however its bytes are chunked.
\<close>

lemma send_nmea_ack:
  assumes "length (params_text params) \<le> 70" "sent \<in> set valid_cmds"
    and "nmea_trailer (ack_text cmd res []) = Inr msg"
    and "wf_gps st" "GPS_NMEA_FRAME_BUFFER_LENGTH < maxSize (gpsNmeaBuffer st)" "gpsAckMsg st = None"
    and "env_malloc env (length msg)" "concat chunks = msg" "\<forall>c\<in>set chunks. c \<noteq> []"
  shows "\<exists>out st'. send_nmea env sent params (map Uart_Data chunks @ Run_Task # evs) st
      = Some (Inr (cmd = sent \<and> res = GPS_CMD_ACK_EXEC_SUCCESS, evs, st'))
    \<and> nmea_trailer (cmd_text sent params) = Inr out \<and> minmea_check out True
    \<and> uart_tx st' = uart_tx st @ [out] \<and> live_blocks st' = live_blocks st
    \<and> wf_gps st' \<and> maxSize (gpsNmeaBuffer st') = maxSize (gpsNmeaBuffer st) \<and> gpsAckMsg st' = None
    \<and> semCmdSending st' = None \<and> gps_parser st' = gps_parser st"
proof -
  obtain out where out: "nmea_trailer (cmd_text sent params) = Inr out" "minmea_check out True"
    using sendable_trailer [OF cmd_text_sendable(1) [OF assms(1)]] by blast
  from exchange_ack [OF out(1) assms(3-9) assms(2), of evs] out show ?thesis
    unfolding send_nmea_def by auto
qed

section \<open>Binary blocks\<close>

lemma u16_small: "0 \<le> x \<Longrightarrow> x < 65536 \<Longrightarrow> u16 x = x"
  by (rule u16_id)

lemma uchar_low_high:
  assumes "0 \<le> x" "x < 65536"
  shows "uchar (byte_of (x mod 256)) + 256 * uchar (byte_of (x div 256)) = x"
proof -
  have "u8 (x mod 256) = x mod 256" by (simp add: u8_def)
  moreover have "u8 (x div 256) = x div 256" using assms by (intro u8_id) auto
  ultimately show ?thesis by simp
qed

text \<open>The trailer of a binary message is the parity that the receiver recomputes.\<close>

lemma binary_trailer_parity:
  assumes "binary_trailer data = Inr out" "4 \<le> binary_len data"
  shows "GPS_CheckParityBinary (out @ rest) = Inr True"
proof -
  define n where "n = binary_len data"
  have n: "4 \<le> n" "n + 3 \<le> length data" using assms by (auto simp: binary_trailer_def n_def split: if_splits)
  have out: "out = take (n + 3) (data[n := byte_of (binary_parity data), n + 1 := CHR 0x0D, n + 2 := CHR 0x0A])"
    using assms(1) by (auto simp: binary_trailer_def n_def Let_def split: if_splits)
  have len: "length out = n + 3" using n out by simp
  have keep: "i < n \<Longrightarrow> (out @ rest) ! i = data ! i" for i using n len by (simp add: nth_append out)
  have at_n: "(out @ rest) ! n = byte_of (binary_parity data)" using n len by (simp add: nth_append out)
  have bl: "binary_len (out @ rest) = n" using keep [of 2] keep [of 3] n by (simp add: binary_len_def n_def)
  have "take (n - 3) (drop 3 (out @ rest)) = take (n - 3) (drop 3 data)"
  proof (rule nth_equalityI)
    show "length (take (n - 3) (drop 3 (out @ rest))) = length (take (n - 3) (drop 3 data))" using n len by simp
    fix i assume "i < length (take (n - 3) (drop 3 (out @ rest)))"
    then have "3 + i < n" by simp
    from keep [OF this] show "take (n - 3) (drop 3 (out @ rest)) ! i = take (n - 3) (drop 3 data) ! i"
      using n len \<open>3 + i < n\<close> by (simp add: nth_append)
  qed
  then have p: "binary_parity (out @ rest) = binary_parity data"
    using keep [of 2] n bl by (simp add: binary_parity_def n_def)
  have "0 \<le> binary_parity data \<and> binary_parity data < 256"
    unfolding binary_parity_def by (rule xor_bytes_range) simp_all
  then have "u8 (binary_parity data) = binary_parity data" by (intro u8_id) auto
  then show ?thesis
    using bl p at_n n len by (simp add: GPS_CheckParityBinary_def)
qed

lemma gpd_block_layout:
  assumes "0 \<le> index" "index < 65535" "length pack = 512" "length junk = GPS_BUFFER_MAX_LENGTH + 6"
  shows "\<exists>out. binary_trailer (gpd_block index (Some pack) junk) = Inr out \<and> length out = 523
    \<and> take 8 out = GPS_CMD_BINARY_HEADER @ low_high 523 @ low_high (cmd_code GPS_CMD_GPD_PACK) @ low_high index
    \<and> take 512 (drop 8 out) = pack \<and> drop 521 out = CRLF"
proof -
  let ?d = "gpd_block index (Some pack) junk"
  have d: "?d = (GPS_CMD_BINARY_HEADER @ low_high 523 @ low_high (cmd_code GPS_CMD_GPD_PACK) @ low_high index)
      @ pack @ drop 520 junk"
    using assms by (simp add: gpd_block_def overwrite_def low_high_def)
  have bl: "binary_len ?d = 520"
    unfolding d by (simp add: binary_len_def low_high_def u8_def u16_def)
  have ld: "length ?d = 536" using assms by (simp add: d low_high_def GPS_BUFFER_MAX_LENGTH_def)
  define p where "p = byte_of (binary_parity ?d)"
  have tr: "binary_trailer ?d = Inr (take 523 (?d[520 := p, 521 := CHR 0x0D, 522 := CHR 0x0A]))"
    using bl ld by (simp add: binary_trailer_def p_def)
  define out where "out = take 523 (?d[520 := p, 521 := CHR 0x0D, 522 := CHR 0x0A])"
  have "out = take 520 ?d @ [p] @ CRLF"
  proof (rule nth_equalityI)
    show "length out = length (take 520 ?d @ [p] @ CRLF)" using ld by (simp add: out_def)
    fix i assume "i < length out"
    then have "i < 520 \<or> i = 520 \<or> i = 521 \<or> i = 522" using ld by (simp add: out_def) linarith
    then consider "i < 520" | "i = 520" | "i = 521" | "i = 522" by blast
    then show "out ! i = (take 520 ?d @ [p] @ CRLF) ! i"
      using ld by cases (simp_all add: out_def nth_append)
  qed
  then have o2: "out = (GPS_CMD_BINARY_HEADER @ low_high 523 @ low_high (cmd_code GPS_CMD_GPD_PACK) @ low_high index)
      @ pack @ [p] @ CRLF"
    using assms(3) by (simp add: d low_high_def)
  show ?thesis
    unfolding tr out_def [symmetric] o2
    using assms(3) by (intro exI [of _ out], unfold o2) (simp add: low_high_def)
qed

section \<open>Claims\<close>

text \<open>C26: Every command text with up to ten parameters below 100000 goes out as a well-formed NMEA sentence:
  the trailer that \<open>GPS_CMDSend\<close> appends satisfies the strict sentence check of the NMEA parser and the
  driver's own parity check, and adds exactly five bytes.\<close>

theorem command_frame_valid:
  assumes "\<forall>p\<in>set ps. 0 \<le> p \<and> p < 100000" "length ps \<le> 10"
  shows "\<exists>out. nmea_trailer (cmd_text c ps) = Inr out \<and> minmea_check out True
    \<and> GPS_CheckParity (Some out) = Inr True \<and> length out = length (cmd_text c ps) + 5"
  using sendable_trailer [OF cmd_text_sendable(1) [OF params_short [OF assms]]] by blast

theorem command_frame_valid_witness:
  "minmea_check (''$PGKC101,100*32'' @ CRLF) True"
proof -
  have "nmea_trailer (cmd_text GPS_CMD_NMEA_OUTPUT_INTERVAL [100]) = Inr (''$PGKC101,100*32'' @ CRLF)" by code_simp
  with command_frame_valid [of "[100]" GPS_CMD_NMEA_OUTPUT_INTERVAL] show ?thesis by auto
qed



text \<open>The trailer \<open>GPS_CMDSend\<close> writes into a binary message is the parity \<open>GPS_CheckParityBinary\<close>
  recomputes, for every message whose length field covers its header, whatever follows it in memory.\<close>

theorem binary_parity_round_trip:
  assumes "binary_trailer data = Inr out" "4 \<le> binary_len data"
  shows "GPS_CheckParityBinary (out @ rest) = Inr True"
  by (rule binary_trailer_parity [OF assms])

theorem binary_parity_round_trip_witness:
  "\<exists>out. binary_trailer (nmea_mode_block (replicate 536 CHR ''x'')) = Inr out \<and> GPS_CheckParityBinary (out @ ''?'') = Inr True
     \<and> length out = 14"
proof -
  let ?d = "nmea_mode_block (replicate 536 CHR ''x'')"
  have l: "length ?d = 536" by (simp add: nmea_mode_block_def overwrite_def low_high_def)
  have b: "binary_len ?d = 11" by (simp add: nmea_mode_block_def overwrite_def low_high_def binary_len_def u8_def u16_def)
  obtain out where o: "binary_trailer ?d = Inr out" "length out = 14" using l b by (simp add: binary_trailer_def)
  then show ?thesis using binary_parity_round_trip [OF o(1), of "''?''"] b by auto
qed

text \<open>A pack of the GPD file goes out as 523 bytes: header, length, command and pack number, all in
  little-endian order, the 512 bytes of the file unchanged, the parity and a line end.\<close>

theorem gpd_pack_on_wire:
  assumes "0 \<le> index" "index < 65535" "length pack = 512" "length junk = GPS_BUFFER_MAX_LENGTH + 6"
  shows "\<exists>out. binary_trailer (gpd_block index (Some pack) junk) = Inr out \<and> length out = 523
    \<and> take 8 out = GPS_CMD_BINARY_HEADER @ low_high 523 @ low_high (cmd_code GPS_CMD_GPD_PACK) @ low_high index
    \<and> take 512 (drop 8 out) = pack \<and> drop 521 out = CRLF"
  by (rule gpd_block_layout [OF assms])

theorem gpd_pack_on_wire_witness:
  "\<exists>out. binary_trailer (gpd_block 258 (Some (replicate 512 CHR ''p'')) (replicate 536 NUL)) = Inr out
    \<and> take 8 out = [CHR 0xAA, CHR 0xF0, CHR 0x0B, CHR 0x02, CHR 0x66, CHR 0x02, CHR 0x02, CHR 0x01]"
proof -
  have e: "GPS_CMD_BINARY_HEADER @ low_high 523 @ low_high (cmd_code GPS_CMD_GPD_PACK) @ low_high 258
    = [CHR 0xAA, CHR 0xF0, CHR 0x0B, CHR 0x02, CHR 0x66, CHR 0x02, CHR 0x02, CHR 0x01]" by code_simp
  show ?thesis
    using gpd_pack_on_wire [of 258 "replicate 512 CHR ''p''" "replicate 536 NUL"] unfolding e
    by (auto simp: GPS_BUFFER_MAX_LENGTH_def)
qed

text \<open>The version handed to the caller is the text of the reply from its first comma, the comma
  included, up to the star.\<close>

theorem version_keeps_comma:
  assumes "NUL \<notin> set ver" "CHR ''*'' \<notin> set ver"
  shows "version_text (''$PGKC463,'' @ ver @ ''*'' @ t) = Inr (Some (CHR '','' # ver))"
proof -
  have "strstr_blk '','' (''$PGKC463,'' @ ver @ ''*'' @ t) 0 = Inr (Some 8)"
    by (rule strstr_blk_hit [of "''$PGKC463''" _ _ "[]" "ver @ ''*'' @ t"]) simp_all
  moreover have "strstr_blk ''*'' (''$PGKC463,'' @ ver @ ''*'' @ t) 8 = Inr (Some (9 + length ver))"
    by (rule strstr_blk_hit [of "CHR '','' # ver" _ _ "''$PGKC463''" t]) (use assms in simp_all)
  ultimately show ?thesis by (simp add: version_text_def)
qed

theorem version_keeps_comma_witness:
  "version_text (''$PGKC463,GOKE9501_1.3,17*11'' @ CRLF) = Inr (Some '',GOKE9501_1.3,17'')"
  using version_keeps_comma [of "''GOKE9501_1.3,17''" "''11'' @ CRLF"] by simp

end
