(* ===== verification/Http_Client.thy ===== *)
theory Http_Client
  imports Prelude
begin

text \<open>
  The two HTTP clients: \<open>Http_Post\<close> of \<^verbatim>\<open>firmware/app/src/app.c\<close> and \<open>Http_Get\<close> of
  \<^verbatim>\<open>firmware/libs/gps/src/gps.c\<close>. What the socket layer answers is the environment; the calls made
  are recorded. A client that does not return is \<open>None\<close>.
\<close>

section \<open>The socket layer\<close>

text \<open>One round of \<open>select\<close> and \<open>recv\<close>; \<open>Received []\<close> is the peer's orderly shutdown.\<close>

datatype net_event =
    Select_Error
  | Select_Timeout
  | Not_Readable
  | Recv_Error
  | Received "byte list"

record net_env =
  net_dns :: bool
  net_malloc :: bool
  net_socket :: int
  net_connect :: int
  net_send :: int
  net_send_body :: int
  net_events :: "nat \<Rightarrow> net_event"

datatype net_act =
    Malloc
  | Free
  | Socket int
  | Connect int int
  | Send int "byte list"
  | Close int

section \<open>The receive loops\<close>

text \<open>\<open>memset(buf, 0, n)\<close> then \<open>recv\<close> into it.\<close>

definition recv_into :: "nat \<Rightarrow> byte list \<Rightarrow> byte list" where
  "recv_into n bs = take n (bs @ replicate (n - length bs) NUL)"

text \<open>The value returned, if the loop returns it, and the buffer; \<open>None\<close> is the way out to \<open>return -1\<close>.\<close>

partial_function (option) post_loop ::
  "(nat \<Rightarrow> net_event) \<Rightarrow> nat \<Rightarrow> nat \<Rightarrow> int \<Rightarrow> byte list \<Rightarrow> (int option \<times> byte list) option" where
  "post_loop evs i bufferLen recvLen retBuffer =
     (case evs i of
        Select_Error \<Rightarrow> Some (None, retBuffer)
      | Select_Timeout \<Rightarrow> Some (None, retBuffer)
      | Not_Readable \<Rightarrow> post_loop evs (Suc i) bufferLen recvLen retBuffer
      | Recv_Error \<Rightarrow> Some (None, recv_into bufferLen [])
      | Received bs \<Rightarrow>
          (let ret = length bs; retBuffer' = recv_into bufferLen bs; recvLen' = u16 (recvLen + int ret)
           in if ret = 0 then post_loop evs (Suc i) bufferLen recvLen' retBuffer'
              else if ret < 1352 then Some (Some recvLen', retBuffer')
              else post_loop evs (Suc i) bufferLen recvLen' retBuffer'))"

partial_function (option) get_loop ::
  "(nat \<Rightarrow> net_event) \<Rightarrow> nat \<Rightarrow> nat \<Rightarrow> int \<Rightarrow> byte list \<Rightarrow> (int option \<times> byte list) option" where
  "get_loop evs i retBufferLen recvLen retBuffer =
     (case evs i of
        Select_Error \<Rightarrow> Some (None, retBuffer)
      | Select_Timeout \<Rightarrow> Some (None, retBuffer)
      | Not_Readable \<Rightarrow> get_loop evs (Suc i) retBufferLen recvLen retBuffer
      | Recv_Error \<Rightarrow> Some (None, take (nat recvLen) retBuffer @ recv_into (retBufferLen - nat recvLen) [])
      | Received bs \<Rightarrow>
          (let ret = length bs;
               retBuffer' = take (nat recvLen) retBuffer @ recv_into (retBufferLen - nat recvLen) bs;
               recvLen' = u16 (recvLen + int ret)
           in if ret = 0 then Some (None, retBuffer')
              else if ret < 1352 then Some (Some recvLen', retBuffer')
              else get_loop evs (Suc i) retBufferLen recvLen' retBuffer'))"

section \<open>The clients\<close>

definition post_request :: "byte list \<Rightarrow> byte list \<Rightarrow> nat \<Rightarrow> byte list" where
  "post_request path domain bodyLen =
     snprintf 2048
       (''POST '' @ path @ '' HTTP/1.1'' @ CRLF @ ''Content-Type: application/x-www-form-urlencoded'' @ CRLF
        @ ''Connection: Keep-Alive'' @ CRLF @ ''Host: '' @ domain @ CRLF
        @ ''Content-Length: '' @ fmt_u bodyLen @ CRLF @ CRLF)"

definition Http_Post ::
  "net_env \<Rightarrow> byte list \<Rightarrow> int \<Rightarrow> byte list \<Rightarrow> byte list \<Rightarrow> byte list \<Rightarrow> (int \<times> byte list \<times> net_act list) option" where
  "Http_Post env domain port path body retBuffer =
     (if \<not> net_dns env then Some (- 1, retBuffer, [])
      else if \<not> net_malloc env then Some (- 1, retBuffer, [])
      else
        let pData = post_request path domain (length body); fd = net_socket env
        in if fd < 0 then Some (- 1, retBuffer, [Malloc, Free])
           else if net_connect env < 0 then
             Some (- 1, retBuffer, [Malloc, Socket fd, Connect fd port, Free, Close fd])
           else if net_send env < 0 then
             Some (- 1, retBuffer, [Malloc, Socket fd, Connect fd port, Send fd pData, Free, Close fd])
           else if net_send_body env < 0 then
             Some (- 1, retBuffer,
               [Malloc, Socket fd, Connect fd port, Send fd pData, Send fd body, Free, Close fd])
           else
             map_option
               (\<lambda>(r, buf). (case r of None \<Rightarrow> - 1 | Some n \<Rightarrow> n, buf,
                  [Malloc, Socket fd, Connect fd port, Send fd pData, Send fd body, Close fd, Free]))
               (post_loop (net_events env) 0 (length retBuffer) 0 retBuffer))"

definition get_request :: "nat \<Rightarrow> byte list \<Rightarrow> byte list \<Rightarrow> byte list" where
  "get_request n path domain =
     snprintf n (''GET '' @ path @ '' HTTP/1.1'' @ CRLF @ ''Host: '' @ domain @ CRLF @ CRLF)"

text \<open>The request is written into the caller's buffer, which the answer overwrites.\<close>

definition Http_Get ::
  "net_env \<Rightarrow> byte list \<Rightarrow> int \<Rightarrow> byte list \<Rightarrow> byte list \<Rightarrow> (int \<times> byte list \<times> net_act list) option" where
  "Http_Get env domain port path retBuffer =
     (if \<not> net_dns env then Some (- 1, retBuffer, [])
      else
        let n = length retBuffer; pData = get_request n path domain; fd = net_socket env;
            buf = take n (pData @ [NUL] @ drop (length pData + 1) retBuffer)
        in if fd < 0 then Some (- 1, buf, [])
           else if net_connect env < 0 then Some (- 1, buf, [Socket fd, Connect fd port, Close fd])
           else if net_send env < 0 then
             Some (- 1, buf, [Socket fd, Connect fd port, Send fd pData, Close fd])
           else
             map_option
               (\<lambda>(r, buf'). (case r of None \<Rightarrow> - 1 | Some k \<Rightarrow> k, buf',
                  [Socket fd, Connect fd port, Send fd pData, Close fd]))
               (get_loop (net_events env) 0 n 0 buf))"

section \<open>Nothing is left open\<close>

definition sockets_opened :: "net_act list \<Rightarrow> int list" where
  "sockets_opened acts = concat (map (\<lambda>a. case a of Socket fd \<Rightarrow> [fd] | _ \<Rightarrow> []) acts)"

definition sockets_closed :: "net_act list \<Rightarrow> int list" where
  "sockets_closed acts = concat (map (\<lambda>a. case a of Close fd \<Rightarrow> [fd] | _ \<Rightarrow> []) acts)"

definition clean :: "net_act list \<Rightarrow> bool" where
  "clean acts \<longleftrightarrow> sockets_opened acts = sockets_closed acts
     \<and> count_list acts Malloc = count_list acts Free"

lemma Http_Post_clean: "Http_Post env domain port path body buf = Some (r, buf', acts) \<Longrightarrow> clean acts"
  by (auto simp: Http_Post_def Let_def clean_def sockets_opened_def sockets_closed_def split: if_splits)

lemma Http_Get_clean: "Http_Get env domain port path buf = Some (r, buf', acts) \<Longrightarrow> clean acts"
  by (auto simp: Http_Get_def Let_def clean_def sockets_opened_def sockets_closed_def split: if_splits)

section \<open>When the clients return\<close>

text \<open>A round after which the upload client goes on waiting.\<close>

definition post_waits :: "net_event \<Rightarrow> bool" where
  "post_waits e \<longleftrightarrow> (case e of Not_Readable \<Rightarrow> True | Received bs \<Rightarrow> bs = [] \<or> 1352 \<le> length bs | _ \<Rightarrow> False)"

lemma post_loop_waits:
  "post_waits (evs i) \<Longrightarrow> \<exists>n' buf'. post_loop evs i m n buf = post_loop evs (Suc i) m n' buf'"
  by (subst post_loop.simps) (auto simp: post_waits_def Let_def split: net_event.splits)

lemma post_loop_stops: "\<not> post_waits (evs i) \<Longrightarrow> post_loop evs i m n buf \<noteq> None"
  by (subst post_loop.simps) (auto simp: post_waits_def Let_def split: net_event.splits)

lemma post_loop_returns:
  assumes "\<not> post_waits (evs k)" "i \<le> k"
  shows "post_loop evs i m n buf \<noteq> None"
  using assms(2)
proof (induction "k - i" arbitrary: i n buf)
  case 0
  then show ?case using assms(1) post_loop_stops by simp
next
  case (Suc d)
  show ?case
  proof (cases "post_waits (evs i)")
    case True
    then obtain n' buf' where "post_loop evs i m n buf = post_loop evs (Suc i) m n' buf'"
      using post_loop_waits by blast
    moreover have "post_loop evs (Suc i) m n' buf' \<noteq> None"
      by (rule Suc.hyps(1)) (use Suc.hyps(2) in auto)
    ultimately show ?thesis by simp
  next
    case False
    then show ?thesis by (rule post_loop_stops)
  qed
qed

lemma post_loop_stuck:
  assumes "post_loop evs i m n buf = Some r"
  shows "\<exists>k\<ge>i. \<not> post_waits (evs k)"
proof (rule post_loop.raw_induct [OF _ assms, where P = "\<lambda>evs i m n buf r. \<exists>k\<ge>i. \<not> post_waits (evs k)"])
  fix loop :: "(nat \<Rightarrow> net_event) \<Rightarrow> nat \<Rightarrow> nat \<Rightarrow> int \<Rightarrow> byte list \<Rightarrow> (int option \<times> byte list) option"
  fix evs i m n buf r
  assume IH: "\<And>evs i m n buf r. loop evs i m n buf = Some r \<Longrightarrow> \<exists>k\<ge>i. \<not> post_waits (evs k)"
    and step: "(case evs i of
        Select_Error \<Rightarrow> Some (None, buf)
      | Select_Timeout \<Rightarrow> Some (None, buf)
      | Not_Readable \<Rightarrow> loop evs (Suc i) m n buf
      | Recv_Error \<Rightarrow> Some (None, recv_into m [])
      | Received bs \<Rightarrow>
          (let ret = length bs; retBuffer' = recv_into m bs; recvLen' = u16 (n + int ret)
           in if ret = 0 then loop evs (Suc i) m recvLen' retBuffer'
              else if ret < 1352 then Some (Some recvLen', retBuffer')
              else loop evs (Suc i) m recvLen' retBuffer')) = Some r"
  show "\<exists>k\<ge>i. \<not> post_waits (evs k)"
  proof (cases "post_waits (evs i)")
    case True
    then obtain n' buf' where "loop evs (Suc i) m n' buf' = Some r"
      using step by (auto simp: post_waits_def Let_def split: net_event.splits if_splits)
    from IH [OF this] show ?thesis using Suc_leD by blast
  qed auto
qed

text \<open>The upload returns exactly when some round is not one of the waiting ones.\<close>

lemma post_loop_iff: "post_loop evs i m n buf \<noteq> None \<longleftrightarrow> (\<exists>k\<ge>i. \<not> post_waits (evs k))"
  using post_loop_returns post_loop_stuck by fastforce

section \<open>What a download brings\<close>

lemma recv_into_length [simp]: "length (recv_into n bs) = n"
  by (simp add: recv_into_def)

lemma get_loop_chunks:
  assumes "\<forall>j<length cs. evs (i + j) = Received (cs ! j)"
    and "\<forall>c\<in>set (butlast cs). 1352 \<le> length c" "cs \<noteq> []" "0 < length (last cs)" "length (last cs) < 1352"
    and "length buf = m" "m < 65536" "k + length (concat cs) \<le> m"
  shows "get_loop evs i m (int k) buf =
    Some (Some (int (k + length (concat cs))),
      take k buf @ concat cs @ replicate (m - (k + length (concat cs))) NUL)"
  using assms
proof (induction cs arbitrary: i k buf)
  case (Cons c cs)
  have e: "evs i = Received c" using Cons.prems(1) by force
  have fit: "k + length c \<le> m" using Cons.prems(8) by simp
  have rl: "u16 (int k + int (length c)) = int (k + length c)" using fit Cons.prems(7) by (simp add: u16_id)
  have ri: "recv_into (m - k) c = c @ replicate (m - (k + length c)) NUL" using fit by (simp add: recv_into_def)
  show ?case
  proof (cases "cs = []")
    case True
    then show ?thesis
      using e rl ri Cons.prems by (subst get_loop.simps) (simp add: Let_def)
  next
    case False
    let ?buf = "take k buf @ c @ replicate (m - (k + length c)) NUL"
    have big: "1352 \<le> length c" using Cons.prems(2) False by simp
    then have "c \<noteq> []" by auto
    then have "get_loop evs i m (int k) buf = get_loop evs (Suc i) m (int (k + length c)) ?buf"
      using e rl ri big by (subst get_loop.simps) (simp add: Let_def del: of_nat_add)
    also have "\<dots> = Some (Some (int ((k + length c) + length (concat cs))),
        take (k + length c) ?buf @ concat cs @ replicate (m - ((k + length c) + length (concat cs))) NUL)"
    proof (rule Cons.IH)
      show "\<forall>j<length cs. evs (Suc i + j) = Received (cs ! j)"
        using Cons.prems(1) by (metis add_Suc_right add_Suc_shift length_Cons not_less_eq nth_Cons_Suc)
      show "length ?buf = m" using fit Cons.prems(6) by simp
    qed (use Cons.prems False in \<open>auto simp: add.assoc\<close>)
    finally show ?thesis using fit Cons.prems(6) by (simp add: add.assoc)
  qed
qed simp

lemma Http_Get_chunks:
  assumes "net_dns env" "0 \<le> net_socket env" "0 \<le> net_connect env" "0 \<le> net_send env"
    and "\<forall>j<length cs. net_events env j = Received (cs ! j)"
    and "\<forall>c\<in>set (butlast cs). 1352 \<le> length c" "cs \<noteq> []" "0 < length (last cs)" "length (last cs) < 1352"
    and "length (concat cs) \<le> length buf" "length buf < 65536"
  shows "\<exists>acts. Http_Get env domain port path buf = Some (int (length (concat cs)),
      concat cs @ replicate (length buf - length (concat cs)) NUL, acts)"
proof -
  let ?p = "get_request (length buf) path domain"
  let ?b = "take (length buf) (?p @ [NUL] @ drop (length ?p + 1) buf)"
  have "length ?p \<le> length buf - 1" by (simp add: get_request_def snprintf_def)
  moreover have "length (last cs) \<le> length (concat cs)" using assms(7) by (induction cs) auto
  ultimately have "length ?b = length buf" using assms(8,10) by simp
  then show ?thesis
    using get_loop_chunks [of cs "net_events env" 0 ?b "length buf" 0] assms
    by (simp add: Http_Get_def Let_def)
qed

section \<open>Claims\<close>

text \<open>Neither client leaves anything behind, on any of its paths: when it returns, the socket it opened has
  been closed, and the upload has freed its request buffer.\<close>

theorem http_releases_all:
  "(\<forall>r buf' acts. Http_Post env domain port path body buf = Some (r, buf', acts) \<longrightarrow> clean acts)
    \<and> (\<forall>r buf' acts. Http_Get env domain port path buf = Some (r, buf', acts) \<longrightarrow> clean acts)"
  using Http_Post_clean Http_Get_clean by blast

definition net_ok :: "(nat \<Rightarrow> net_event) \<Rightarrow> net_env" where
  "net_ok evs = \<lparr>net_dns = True, net_malloc = True, net_socket = 4, net_connect = 0, net_send = 0,
     net_send_body = 0, net_events = evs\<rparr>"

theorem http_releases_all_witness:
  "\<exists>r buf' acts. Http_Post (net_ok (\<lambda>_. Recv_Error)) ''a'' 80 ''/'' [] ''x'' = Some (r, buf', acts) \<and> clean acts
     \<and> Socket 4 \<in> set acts"
proof -
  obtain r buf' acts where e: "Http_Post (net_ok (\<lambda>_. Recv_Error)) ''a'' 80 ''/'' [] ''x'' = Some (r, buf', acts)"
    "Socket 4 \<in> set acts"
    by (simp add: Http_Post_def net_ok_def Let_def post_loop.simps)
  with http_releases_all [of "net_ok (\<lambda>_. Recv_Error)" "''a''" 80 "''/''" "[]" "''x''"] show ?thesis by blast
qed

text \<open>C29: Once its request is out, the upload returns if and only if some round brings an error, a timeout or
  a short packet: a peer that closes the connection, or whose answer ends on a full packet, keeps the task
  in the loop as long as \<open>select\<close> reports the socket readable.\<close>

theorem post_returns_iff:
  assumes "net_dns env" "net_malloc env" "0 \<le> net_socket env" "0 \<le> net_connect env"
    and "0 \<le> net_send env" "0 \<le> net_send_body env"
  shows "Http_Post env domain port path body buf \<noteq> None \<longleftrightarrow> (\<exists>k. \<not> post_waits (net_events env k))"
  using assms post_loop_iff [of "net_events env" 0 "length buf" 0 buf] by (simp add: Http_Post_def Let_def)

theorem post_returns_iff_witness:
  "Http_Post (net_ok (\<lambda>_. Received [])) ''a'' 80 ''/'' [] ''x'' = None"
  using post_returns_iff [of "net_ok (\<lambda>_. Received [])" "''a''" 80 "''/''" "[]" "''x''"]
  by (simp add: net_ok_def post_waits_def del: not_None_eq)

text \<open>C28: A download is reassembled in order: when the answer arrives in packets of at least 1352 bytes and a
  shorter last one, \<open>Http_Get\<close> returns its length and leaves exactly these bytes, then zeros, in the buffer.\<close>

theorem get_reassembles:
  assumes "net_dns env" "0 \<le> net_socket env" "0 \<le> net_connect env" "0 \<le> net_send env"
    and "\<forall>j<length cs. net_events env j = Received (cs ! j)"
    and "\<forall>c\<in>set (butlast cs). 1352 \<le> length c" "cs \<noteq> []" "0 < length (last cs)" "length (last cs) < 1352"
    and "length (concat cs) \<le> length buf" "length buf < 65536"
  shows "\<exists>acts. Http_Get env domain port path buf = Some (int (length (concat cs)),
      concat cs @ replicate (length buf - length (concat cs)) NUL, acts)"
  by (rule Http_Get_chunks [OF assms])

theorem get_reassembles_witness:
  "\<exists>acts. Http_Get (net_ok (\<lambda>k. if k = 0 then Received (replicate 1400 CHR ''a'') else Received ''bc'')) ''d'' 80 ''/''
      (replicate 1500 NUL) = Some (1402, (replicate 1400 CHR ''a'' @ ''bc'') @ replicate 98 NUL, acts)"
proof -
  let ?e = "net_ok (\<lambda>k. if k = 0 then Received (replicate 1400 CHR ''a'') else Received ''bc'')"
  have "\<forall>j<length [replicate 1400 CHR ''a'', ''bc'']. net_events ?e j = Received ([replicate 1400 CHR ''a'', ''bc''] ! j)"
    by (auto simp: net_ok_def less_Suc_eq)
  from get_reassembles [OF _ _ _ _ this, of "replicate 1500 NUL" "''d''" 80 "''/''"] show ?thesis
    by (simp add: net_ok_def del: replicate.simps)
qed

end
