(* ===== verification/Agps.thy ===== *)
theory Agps
  imports Gps_Command Http_Client
begin

text \<open>
  \<open>GPS_AGPS\<close> of \<^verbatim>\<open>firmware/libs/gps/src/gps.c\<close>: download of the GPD file, transfer in packs of 512
  bytes with retries, then time and position. The texts of the coordinates and the two readings of
  the clock are arguments.
\<close>

section \<open>The downloaded file\<close>

definition AGPS_BUFFER_LENGTH :: nat where
  "AGPS_BUFFER_LENGTH = 5120"

text \<open>
  The body behind the header of the answer: its offset and its length padded to whole packs. \<open>None\<close>
  is the error return; padding that would not fit into the buffer is a fault.
\<close>

definition padded :: "int \<Rightarrow> int" where
  "padded gpdLen = (if gpdLen mod 512 \<noteq> 0 then u16 (gpdLen + (512 - gpdLen mod 512)) else gpdLen)"

definition gpd_body :: "byte list \<Rightarrow> int \<Rightarrow> (nat \<times> int \<times> byte list) option result" where
  "gpd_body data ret =
     rbind (strstr_blk ''200 OK'' data 0) (\<lambda>indexResult.
     case indexResult of None \<Rightarrow> Inr None | Some r \<Rightarrow>
     rbind (strstr_blk (CRLF @ CRLF) data r) (\<lambda>indexBody.
     case indexBody of None \<Rightarrow> Inr None | Some b \<Rightarrow>
       let off = b + 4; gpdLen = u16 (ret - int off);
           pad = (if gpdLen mod 512 \<noteq> 0 then nat (512 - gpdLen mod 512) else 0); stop = off + nat gpdLen
       in if length data < stop + pad then Inl Out_Of_Bounds
          else Inr (Some (off, padded gpdLen,
                 take stop data @ replicate pad NUL @ drop (stop + pad) data))))"

section \<open>The transfer\<close>

text \<open>
  \<open>i\<close> is the next pack, \<open>fails\<close> the number of failures since the last success. After the fourth one
  the module is put back into NMEA mode and the transfer gives up. A pack is read from the buffer,
  beyond its end it is a fault.
\<close>

definition give_up :: "gps_env \<Rightarrow> byte list \<Rightarrow> bool exchange" where
  "give_up env junk evs st =
     map_option (\<lambda>r. rbind r (\<lambda>(_, evs', st'). Inr (False, evs', st'))) (GPS_SetNMEAMode env junk evs st)"

definition gpd_pack :: "byte list \<Rightarrow> nat \<Rightarrow> nat \<Rightarrow> byte list result" where
  "gpd_pack data off i =
     (if length data < off + i * 512 + 512 then Inl Out_Of_Bounds
      else Inr (take 512 (drop (off + i * 512) data)))"

function send_packs ::
  "gps_env \<Rightarrow> byte list \<Rightarrow> byte list \<Rightarrow> nat \<Rightarrow> int \<Rightarrow> nat \<Rightarrow> nat \<Rightarrow> bool exchange" where
  "send_packs env junk data off gpdLen i fails evs st =
     (if int (i * 512) > gpdLen then
        (case GPS_SendGPDPack env junk 0xffff None evs st of
           None \<Rightarrow> None
         | Some (Inl e) \<Rightarrow> Some (Inl e)
         | Some (Inr (ok, evs', st')) \<Rightarrow>
             if ok then Some (Inr (True, evs', st'))
             else if fails + 1 > 3 then give_up env junk evs' st'
             else send_packs env junk data off gpdLen i (fails + 1) evs' st')
      else
        (case gpd_pack data off i of
           Inl e \<Rightarrow> Some (Inl e)
         | Inr pack \<Rightarrow>
             (case GPS_SendGPDPack env junk (int i) (Some pack) evs st of
                None \<Rightarrow> None
              | Some (Inl e) \<Rightarrow> Some (Inl e)
              | Some (Inr (ok, evs', st')) \<Rightarrow>
                  if ok then send_packs env junk data off gpdLen (i + 1) 0 evs' st'
                  else if fails + 1 > 3 then give_up env junk evs' st'
                  else send_packs env junk data off gpdLen i (fails + 1) evs' st')))"
  by pat_completeness auto
termination
  by (relation "measures [\<lambda>(_, _, _, _, gpdLen, i, _). Suc (nat gpdLen) - i * 512, \<lambda>(_, _, _, _, _, _, fails, _). 4 - fails]") auto

declare send_packs.simps [simp del]

section \<open>The procedure\<close>

record agps_env =
  ag_gps :: gps_env
  ag_net :: net_env
  ag_junk :: "byte list"
  ag_lat :: "byte list"
  ag_lon :: "byte list"
  ag_alt :: "byte list"
  ag_time1 :: RTC_Time_t
  ag_time2 :: RTC_Time_t

abbreviation GPS_AGPS_GPD_FILE_SERVER :: "byte list" where
  "GPS_AGPS_GPD_FILE_SERVER \<equiv> ''www.goke-agps.com''"

abbreviation GPS_AGPS_GPD_FILE_PATH :: "byte list" where
  "GPS_AGPS_GPD_FILE_PATH \<equiv> ''/brdcGPD.dat''"

definition alloc :: "int \<Rightarrow> gps_state \<Rightarrow> gps_state" where
  "alloc n st = st\<lparr>live_blocks := live_blocks st + n\<rparr>"

text \<open>Steps 5 and 6: the clock and the position; their results are only traced.\<close>

definition set_time_place :: "agps_env \<Rightarrow> unit exchange" where
  "set_time_place ag evs st =
     (case GPS_SetRtcTime (ag_gps ag) (ag_time1 ag) evs st of
        None \<Rightarrow> None
      | Some (Inl e) \<Rightarrow> Some (Inl e)
      | Some (Inr (_, evs1, st1)) \<Rightarrow>
          map_option (\<lambda>r. rbind r (\<lambda>(_, evs2, st2). Inr ((), evs2, st2)))
            (GPS_SetLocationTime (ag_gps ag) (ag_lat ag) (ag_lon ag) (ag_alt ag) (ag_time2 ag) evs1 st1))"

text \<open>Steps 2 to 4: binary mode, the packs, NMEA mode.\<close>

definition upload_gpd :: "agps_env \<Rightarrow> byte list \<Rightarrow> nat \<Rightarrow> int \<Rightarrow> bool exchange" where
  "upload_gpd ag data off gpdLen evs st =
     (case GPS_SetBinaryMode (ag_gps ag) evs st of
        None \<Rightarrow> None
      | Some (Inl e) \<Rightarrow> Some (Inl e)
      | Some (Inr (ok, evs1, st1)) \<Rightarrow>
          if \<not> ok then Some (Inr (False, evs1, st1))
          else
            (case send_packs (ag_gps ag) (ag_junk ag) data off gpdLen 0 0 evs1 st1 of
               None \<Rightarrow> None
             | Some (Inl e) \<Rightarrow> Some (Inl e)
             | Some (Inr (ok, evs2, st2)) \<Rightarrow>
                 if \<not> ok then Some (Inr (False, evs2, st2))
                 else GPS_SetNMEAMode (ag_gps ag) (ag_junk ag) evs2 st2))"

definition GPS_AGPS :: "agps_env \<Rightarrow> bool \<Rightarrow> bool exchange" where
  "GPS_AGPS ag downloadGPD evs st =
     (if \<not> downloadGPD then
        map_option (\<lambda>r. rbind r (\<lambda>(_, evs', st'). Inr (True, evs', st'))) (set_time_place ag evs st)
      else if \<not> env_malloc (ag_gps ag) AGPS_BUFFER_LENGTH then Some (Inr (False, evs, st))
      else
        (case Http_Get (ag_net ag) GPS_AGPS_GPD_FILE_SERVER 7777 GPS_AGPS_GPD_FILE_PATH
                (replicate AGPS_BUFFER_LENGTH NUL) of
           None \<Rightarrow> None
         | Some (ret, data, _) \<Rightarrow>
             if ret < 0 then Some (Inr (False, evs, st))
             else
               (case gpd_body data ret of
                  Inl e \<Rightarrow> Some (Inl e)
                | Inr None \<Rightarrow> Some (Inr (False, evs, st))
                | Inr (Some (off, gpdLen, data')) \<Rightarrow>
                    (case upload_gpd ag data' off gpdLen evs (alloc 1 st) of
                       None \<Rightarrow> None
                     | Some (Inl e) \<Rightarrow> Some (Inl e)
                     | Some (Inr (ok, evs1, st1)) \<Rightarrow>
                         if \<not> ok then Some (Inr (False, evs1, st1))
                         else map_option (\<lambda>r. rbind r (\<lambda>(_, evs', st'). Inr (True, evs', alloc (- 1) st')))
                                (set_time_place ag evs1 st1)))))"

section \<open>A transfer nobody acknowledges\<close>

text \<open>The state after a binary command whose answer did not come.\<close>

definition timed_out :: "byte list \<Rightarrow> gps_state \<Rightarrow> gps_state" where
  "timed_out out st = st\<lparr>isCmdSendTimeOut := True, semCmdSending := None, uart_tx := uart_tx st @ [out]\<rparr>"

lemma timed_out_simps [simp]:
  "gpsAckMsg (timed_out out st) = gpsAckMsg st" "live_blocks (timed_out out st) = live_blocks st"
  "uart_tx (timed_out out st) = uart_tx st @ [out]"
  by (simp_all add: timed_out_def)

lemma binary_timeout:
  assumes "binary_trailer str = Inr out" "gpsAckMsg st = None"
  shows "GPS_SendWaiteNormalAck env sent str GPS_FORMAT_BINARY (Ack_Timer # Run_Task # evs) st
    = Some (Inr (False, evs, timed_out out st))"
  using assms by (simp add: GPS_SendWaiteNormalAck_def GPS_SendCMDWaitAck_def GPS_CMDSend_def GPS_Send_def Let_def
      OnCmdAckFail_def release_sem_def normal_ack_def free_ack_def timed_out_def)

abbreviation silence :: "nat \<Rightarrow> gps_event list" where
  "silence n \<equiv> concat (replicate n [Ack_Timer, Run_Task])"

lemma nmea_mode_sent:
  assumes "length junk = GPS_BUFFER_MAX_LENGTH + 6"
  obtains out where "binary_trailer (nmea_mode_block junk) = Inr out"
proof -
  have "length (nmea_mode_block junk) = 536"
    using assms by (simp add: nmea_mode_block_def overwrite_def low_high_def GPS_BUFFER_MAX_LENGTH_def)
  moreover have "binary_len (nmea_mode_block junk) = 11"
    by (simp add: nmea_mode_block_def overwrite_def low_high_def binary_len_def u8_def u16_def)
  ultimately show thesis using that by (simp add: binary_trailer_def)
qed

text \<open>A pack that fails is sent again, until the fourth failure.\<close>

lemma send_packs_silent:
  assumes "binary_trailer (gpd_block (int i) (Some pack) junk) = Inr out" "gpd_pack data off i = Inr pack"
    and "int (i * 512) \<le> gpdLen" "binary_trailer (nmea_mode_block junk) = Inr mode"
    and "fails < 4" "gpsAckMsg st = None"
  shows "send_packs env junk data off gpdLen i fails (silence (4 - fails) @ Ack_Timer # Run_Task # evs) st
    = Some (Inr (False, evs, timed_out mode ((timed_out out ^^ (4 - fails)) st)))"
  using assms(5,6)
proof (induction "3 - fails" arbitrary: fails st)
  case 0
  then have f: "fails = 3" by simp
  show ?case
    using 0(3) assms(1-4)
    by (subst send_packs.simps) (simp add: f GPS_SendGPDPack_def give_up_def GPS_SetNMEAMode_def binary_timeout)
next
  case (Suc n)
  then have n: "4 - fails = Suc (4 - Suc fails)" "\<not> fails + 1 > 3" by auto
  have "send_packs env junk data off gpdLen i fails (silence (4 - fails) @ Ack_Timer # Run_Task # evs) st
      = send_packs env junk data off gpdLen i (Suc fails) (silence (4 - Suc fails) @ Ack_Timer # Run_Task # evs) (timed_out out st)"
    using Suc.prems(2) assms(1-4) n by (subst send_packs.simps) (simp add: GPS_SendGPDPack_def binary_timeout)
  also have "\<dots> = Some (Inr (False, evs, timed_out mode ((timed_out out ^^ (4 - Suc fails)) (timed_out out st))))"
    using Suc by (intro Suc.hyps(1)) auto
  finally show ?case unfolding n(1) funpow_Suc_right by simp
qed

lemma four_times:
  "uart_tx ((timed_out out ^^ n) st) = uart_tx st @ replicate n out"
  "live_blocks ((timed_out out ^^ n) st) = live_blocks st"
  by (induction n) (simp_all add: replicate_append_same)

lemma padded_nonneg: "0 \<le> padded (u16 x)"
  by (simp add: padded_def u16_def)

lemma gpd_body_length:
  assumes "gpd_body data ret = Inr (Some (off, gpdLen, data'))"
  shows "0 \<le> gpdLen"
proof -
  obtain r where r: "strstr_blk ''200 OK'' data 0 = Inr (Some r)"
  proof (cases "strstr_blk ''200 OK'' data 0")
    case (Inr x)
    then show thesis using assms that by (cases x) (simp_all add: gpd_body_def)
  qed (use assms in \<open>simp add: gpd_body_def\<close>)
  obtain b where "strstr_blk (CRLF @ CRLF) data r = Inr (Some b)"
  proof (cases "strstr_blk (CRLF @ CRLF) data r")
    case (Inr x)
    then show thesis using assms that r by (cases x) (simp_all add: gpd_body_def)
  qed (use assms r in \<open>simp add: gpd_body_def\<close>)
  then show ?thesis using assms r by (auto simp add: gpd_body_def Let_def padded_nonneg split: if_splits)
qed


definition gpd_answer :: "byte list" where
  "gpd_answer = ''HTTP/1.1 200 OK'' @ CRLF @ CRLF @ ''GPD''"

definition agps_test :: agps_env where
  "agps_test = \<lparr>ag_gps = gps_env0, ag_net = net_ok (\<lambda>_. Received gpd_answer), ag_junk = replicate 536 CHR ''x'',
     ag_lat = ''22.5'', ag_lon = ''114.0'', ag_alt = ''0'',
     ag_time1 = \<lparr>rtc_year = 2019, rtc_month = 3, rtc_day = 1, rtc_hour = 0, rtc_minute = 0, rtc_second = 0\<rparr>,
     ag_time2 = \<lparr>rtc_year = 2019, rtc_month = 3, rtc_day = 1, rtc_hour = 0, rtc_minute = 0, rtc_second = 1\<rparr>\<rparr>"

lemma gpd_answer_length: "length gpd_answer = 22"
  by (simp add: gpd_answer_def)

lemma gpd_answer_body:
  assumes "600 \<le> n"
  shows "\<exists>data'. gpd_body (gpd_answer @ replicate n NUL) 22 = Inr (Some (19, 512, data')) \<and> length data' = n + 22"
proof -
  have nul: "cstr (bs @ replicate n NUL) = bs" if "NUL \<notin> set bs" for bs
    using that assms by (cases n) (auto simp: cstr_def takeWhile_append takeWhile_eq_all_conv)
  have a: "strstr_blk ''200 OK'' (gpd_answer @ replicate n NUL) 0 = Inr (Some 9)"
    using nul [of gpd_answer] by (simp add: strstr_blk_def gpd_answer_def)
  have b: "strstr_blk (CRLF @ CRLF) (gpd_answer @ replicate n NUL) 9 = Inr (Some 15)"
    using nul [of "drop 9 gpd_answer"] by (simp add: strstr_blk_def gpd_answer_def)
  show ?thesis using assms by (simp add: gpd_answer_length gpd_body_def a b [simplified] padded_def u16_def)
qed

lemma agps_test_download:
  obtains acts where "Http_Get (ag_net agps_test) GPS_AGPS_GPD_FILE_SERVER 7777 GPS_AGPS_GPD_FILE_PATH
      (replicate AGPS_BUFFER_LENGTH NUL) = Some (22, gpd_answer @ replicate 5098 NUL, acts)"
proof -
  have net: "net_dns (ag_net agps_test)" "0 \<le> net_socket (ag_net agps_test)" "0 \<le> net_connect (ag_net agps_test)"
    "0 \<le> net_send (ag_net agps_test)" "\<forall>j<length [gpd_answer]. net_events (ag_net agps_test) j = Received ([gpd_answer] ! j)"
    by (simp_all add: agps_test_def net_ok_def)
  have "\<exists>acts. Http_Get (ag_net agps_test) GPS_AGPS_GPD_FILE_SERVER 7777 GPS_AGPS_GPD_FILE_PATH
      (replicate AGPS_BUFFER_LENGTH NUL) = Some (22, gpd_answer @ replicate 5098 NUL, acts)"
    using Http_Get_chunks [OF net, of "replicate AGPS_BUFFER_LENGTH NUL" GPS_AGPS_GPD_FILE_SERVER 7777 GPS_AGPS_GPD_FILE_PATH]
      gpd_answer_length by (auto simp: AGPS_BUFFER_LENGTH_def)
  with that show thesis by blast
qed


end
