(* ===== verification/Agps_Run.thy ===== *)
theory Agps_Run
  imports Agps
begin

text \<open>
  A complete run of \<open>GPS_AGPS\<close> (\<^verbatim>\<open>firmware/libs/gps/src/gps.c\<close>) with a module that answers: the binary
  acknowledgements of the packs, the exchange of a binary command, and the transfer of a file.
\<close>

section \<open>Binary acknowledgements\<close>

text \<open>A binary message that is recognised only when its last byte has arrived.\<close>

definition binary_ack :: "byte list \<Rightarrow> bool" where
  "binary_ack msg \<longleftrightarrow> prefix GPS_CMD_BINARY_HEADER msg \<and> message_end GPS_CMD_BINARY_HEADER msg = Some (length msg)
     \<and> length msg \<le> GPS_NMEA_FRAME_BUFFER_LENGTH
     \<and> list_all (\<lambda>n. find_sub GPS_CMD_HEADER (take n msg) = None) [0..<Suc (length msg)]
     \<and> list_all (\<lambda>n. message_end GPS_CMD_BINARY_HEADER (take n msg) = None) [0..<length msg]"

lemma binary_ack_partial:
  assumes "binary_ack msg" "wf_gps st" "strict_prefix (rx st) msg"
  shows "ack_update env st = Inr st"
proof -
  let ?n = "length (rx st)"
  have n: "rx st = take ?n msg" "?n < length msg"
    using assms(3) by (auto simp: strict_prefix_def prefix_def)
  have head: "find_sub GPS_CMD_HEADER (rx st) = None" and tail: "message_end GPS_CMD_BINARY_HEADER (rx st) = None"
    using assms(1) n by (auto simp: binary_ack_def list_all_iff)
  note no_text = query_head_none [OF assms(2) unbordered_heads(2) head]
  show ?thesis
  proof (cases "find_sub GPS_CMD_BINARY_HEADER (rx st)")
    case None
    then show ?thesis
      using no_text query_head_none [OF assms(2) unbordered_heads(3) None] by (simp add: ack_update_def Let_def)
  next
    case (Some i)
    then show ?thesis
      using no_text query_head_some [OF assms(2) unbordered_heads(3) Some] tail by (simp add: ack_update_def Let_def not_le)
  qed
qed

lemma binary_ack_complete:
  assumes "binary_ack msg" "wf_gps st" "rx st = msg" "env_malloc env (length msg)"
  shows "\<exists>b. ack_update env st = Inr (release_sem (st\<lparr>gpsNmeaBuffer := b, gpsAckMsg := Some msg,
      live_blocks := live_blocks st + 1\<rparr>))
    \<and> wf_buf b \<and> contents b = [] \<and> maxSize b = maxSize (gpsNmeaBuffer st)"
proof -
  have head: "find_sub GPS_CMD_HEADER (rx st) = None"
    using assms(1,3) by (auto simp: binary_ack_def list_all_iff dest: bspec [of _ _ "length msg"])
  have me: "message_end GPS_CMD_BINARY_HEADER (rx st) = Some (length msg)" using assms(1,3) by (simp add: binary_ack_def)
  have h: "find_sub GPS_CMD_BINARY_HEADER (rx st) = Some 0" using assms(1,3) by (simp add: binary_ack_def)
  note no_text = query_head_none [OF assms(2) unbordered_heads(2) head]
  note q = query_head_some [OF assms(2) unbordered_heads(3) h]
  let ?ix = "query st CRLF (slot (gpsNmeaBuffer st) 0)"
  have fl: "frame_len (length msg) = length msg" using assms(1) by (simp add: frame_len_def binary_ack_def)
  from take_frame_spec [OF assms(2) query_message [OF assms(2) unbordered_heads(3) h me]] assms(3)
  obtain st' where st': "take_frame st ?ix = (Some msg, st')" "wf_gps st'" "rx st' = []"
    "maxSize (gpsNmeaBuffer st') = maxSize (gpsNmeaBuffer st)" "st' = st\<lparr>gpsNmeaBuffer := gpsNmeaBuffer st'\<rparr>"
    unfolding fl by auto
  have "\<not> ?ix < 0" using q(2) me by simp
  then have "ack_update env st = keep_ack env msg (Some 0) st'"
    using no_text q(1) st'(1) h assms(3) by (simp add: ack_update_def Let_def)
  also have "\<dots> = Inr (release_sem (st'\<lparr>gpsAckMsg := Some msg, live_blocks := live_blocks st' + 1\<rparr>))"
    using assms(4) by (simp add: keep_ack_def Let_def)
  also have "\<dots> = Inr (release_sem (st\<lparr>gpsNmeaBuffer := gpsNmeaBuffer st', gpsAckMsg := Some msg,
      live_blocks := live_blocks st + 1\<rparr>))"
    by (subst (1 2) st'(5)) simp
  finally show ?thesis using st' by blast
qed

section \<open>Exchanges that leave the driver idle\<close>

definition idle_gps :: "gps_state \<Rightarrow> bool" where
  "idle_gps st \<longleftrightarrow> wf_gps st \<and> rx st = [] \<and> GPS_NMEA_FRAME_BUFFER_LENGTH < maxSize (gpsNmeaBuffer st) \<and> gpsAckMsg st = None"

text \<open>From \<open>st\<close> the messages \<open>outs\<close> are sent, and nothing else has changed for the next command.\<close>

definition sends :: "gps_state \<Rightarrow> byte list list \<Rightarrow> gps_state \<Rightarrow> bool" where
  "sends st outs st' \<longleftrightarrow> idle_gps st' \<and> uart_tx st' = uart_tx st @ outs \<and> live_blocks st' = live_blocks st"

lemma sends_trans: "sends st xs st1 \<Longrightarrow> sends st1 ys st2 \<Longrightarrow> sends st (xs @ ys) st2"
  by (simp add: sends_def)

lemma sends_idle: "sends st xs st' \<Longrightarrow> idle_gps st'"
  by (simp add: sends_def)

text \<open>The chunks of one answer, then the task runs.\<close>

definition answer_events :: "byte list list \<Rightarrow> gps_event list" where
  "answer_events chunks = map Uart_Data chunks @ [Run_Task]"

lemma binary_exchange:
  assumes "binary_trailer str = Inr out" "idle_gps st"
    and partial: "\<And>s. wf_gps s \<Longrightarrow> strict_prefix (rx s) msg \<Longrightarrow> ack_update env s = Inr s"
    and complete: "\<And>s. wf_gps s \<Longrightarrow> rx s = msg \<Longrightarrow>
      \<exists>b. ack_update env s = Inr (release_sem (s\<lparr>gpsNmeaBuffer := b, gpsAckMsg := Some msg, live_blocks := live_blocks s + 1\<rparr>))
        \<and> wf_buf b \<and> contents b = [] \<and> maxSize b = maxSize (gpsNmeaBuffer s)"
    and "length msg \<le> GPS_NMEA_FRAME_BUFFER_LENGTH" "concat chunks = msg" "\<forall>c\<in>set chunks. c \<noteq> []" "msg \<noteq> []"
    and "read_ack (Some msg) = Inr r" "normal_ack sent str r = Inr ok"
  shows "\<exists>st'. GPS_SendWaiteNormalAck env sent str GPS_FORMAT_BINARY (answer_events chunks @ evs) st = Some (Inr (ok, evs, st'))
    \<and> sends st [out] st'"
proof -
  let ?st1 = "st\<lparr>isCmdSendTimeOut := False, semCmdSending := Some 0, uart_tx := uart_tx st @ [out]\<rparr>"
  have sent: "GPS_CMDSend str GPS_FORMAT_BINARY (st\<lparr>isCmdSendTimeOut := False, semCmdSending := Some 0\<rparr>) = Inr ?st1"
    using assms(1) by (simp add: GPS_CMDSend_def GPS_Send_def)
  have ne: "chunks \<noteq> []" using assms(6,8) by auto
  have "\<exists>b. wait_sem env (map Uart_Data chunks @ Run_Task # evs) ?st1 =
      wait_sem env (Run_Task # evs) (release_sem (?st1\<lparr>gpsNmeaBuffer := b, gpsAckMsg := Some msg, live_blocks := live_blocks ?st1 + 1\<rparr>))
    \<and> wf_buf b \<and> contents b = [] \<and> maxSize b = maxSize (gpsNmeaBuffer ?st1)"
    by (rule wait_chunks [OF partial complete assms(5)]) (use assms(2,6,7) ne in \<open>simp_all add: idle_gps_def\<close>)
  then obtain b where b: "wait_sem env (map Uart_Data chunks @ Run_Task # evs) ?st1 =
      wait_sem env (Run_Task # evs) (release_sem (?st1\<lparr>gpsNmeaBuffer := b, gpsAckMsg := Some msg, live_blocks := live_blocks ?st1 + 1\<rparr>))"
    "wf_buf b" "contents b = []" "maxSize b = maxSize (gpsNmeaBuffer ?st1)" by blast
  show ?thesis
    using b sent assms(2) assms(9,10)
    by (simp add: answer_events_def GPS_SendWaiteNormalAck_def GPS_SendCMDWaitAck_def Let_def release_sem_def free_ack_def
        sends_def idle_gps_def)
qed

section \<open>The transfer\<close>

text \<open>The module's acknowledgement of a pack: its number and the result 1, with parity and line end.\<close>

definition gpd_ack :: "int \<Rightarrow> byte list" where
  "gpd_ack index =
     (case binary_trailer (GPS_CMD_BINARY_HEADER @ low_high 12 @ low_high (cmd_code GPS_CMD_ACK_GPD) @ low_high index
             @ [CHR 0x01] @ replicate 3 NUL) of
        Inl _ \<Rightarrow> [] | Inr msg \<Rightarrow> msg)"

lemma gpd_ack_ok:
  assumes "i < 10 \<and> index = int i \<or> index = 65535"
  shows "binary_ack (gpd_ack index)" "length (gpd_ack index) = 12" "take 3 (drop 6 (gpd_ack index)) = low_high index @ [CHR 0x01]"
    "read_ack (Some (gpd_ack index)) = Inr (GPS_CMD_ACK_GPD, Some (gpd_ack index))"
proof -
  have "list_all (\<lambda>k. binary_ack (gpd_ack k) \<and> length (gpd_ack k) = 12 \<and> take 3 (drop 6 (gpd_ack k)) = low_high k @ [CHR 0x01]
      \<and> read_ack (Some (gpd_ack k)) = Inr (GPS_CMD_ACK_GPD, Some (gpd_ack k))) [0, 1, 2, 3, 4, 5, 6, 7, 8, 9, 65535]"
    by code_simp
  moreover have "index \<in> set [0, 1, 2, 3, 4, 5, 6, 7, 8, 9, 65535]" using assms by (auto simp: less_Suc_eq numeral_eq_Suc)
  ultimately show "binary_ack (gpd_ack index)" "length (gpd_ack index) = 12" "take 3 (drop 6 (gpd_ack index)) = low_high index @ [CHR 0x01]"
    "read_ack (Some (gpd_ack index)) = Inr (GPS_CMD_ACK_GPD, Some (gpd_ack index))"
    by (simp_all only: list_all_iff)
qed

lemma pack_acknowledged:
  assumes "binary_trailer (gpd_block index pack junk) = Inr out" "idle_gps st" "\<forall>n. env_malloc env n"
    and "i < 10 \<and> index = int i \<or> index = 65535" "concat chunks = gpd_ack index" "\<forall>c\<in>set chunks. c \<noteq> []"
  shows "\<exists>st'. GPS_SendGPDPack env junk index pack (answer_events chunks @ evs) st = Some (Inr (True, evs, st')) \<and> sends st [out] st'"
proof -
  note a = gpd_ack_ok [OF assms(4)]
  have at: "gpd_ack index ! 6 = low_high index ! 0" "gpd_ack index ! 7 = low_high index ! 1" "gpd_ack index ! 8 = CHR 0x01"
    using arg_cong [OF a(3), of "\<lambda>l. l ! 0"] arg_cong [OF a(3), of "\<lambda>l. l ! 1"] arg_cong [OF a(3), of "\<lambda>l. l ! 2"] a(2)
    by (simp_all add: low_high_def)
  have "normal_ack GPS_CMD_GPD_PACK (gpd_block index pack junk) (GPS_CMD_ACK_GPD, Some (gpd_ack index)) = Inr True"
    using at a(2) by (simp add: normal_ack_def gpd_block_def overwrite_def low_high_def blk_at_def Let_def) (simp add: schar_def uchar_def)
  moreover have "gpd_ack index \<noteq> []" using a(2) by auto
  ultimately show ?thesis
    unfolding GPS_SendGPDPack_def
    by (intro binary_exchange [OF assms(1,2) binary_ack_partial [OF a(1)] binary_ack_complete [OF a(1)] _ assms(5,6) _ a(4)])
      (use a(1) assms(3) in \<open>simp_all add: binary_ack_def\<close>)
qed

lemma end_pack_sent:
  assumes "length junk = GPS_BUFFER_MAX_LENGTH + 6"
  obtains out where "binary_trailer (gpd_block 65535 None junk) = Inr out"
proof -
  have "length (gpd_block 65535 None junk) = 536"
    using assms by (simp add: gpd_block_def overwrite_def low_high_def GPS_BUFFER_MAX_LENGTH_def)
  moreover have "binary_len (gpd_block 65535 None junk) = 8"
    by (simp add: gpd_block_def overwrite_def low_high_def binary_len_def u8_def u16_def)
  ultimately show thesis using that by (simp add: binary_trailer_def)
qed

text \<open>With every pack acknowledged the packs \<open>k\<close> to \<open>n\<close> go out in order, then the end pack.\<close>

lemma send_packs_acknowledged:
  assumes pk: "\<And>i. i \<le> n \<Longrightarrow> gpd_pack data off i = Inr (file i) \<and> binary_trailer (gpd_block (int i) (Some (file i)) junk) = Inr (pk i)"
    and "binary_trailer (gpd_block 65535 None junk) = Inr fin" "n < 10" "\<forall>n. env_malloc env n"
    and acks: "\<And>i. i \<le> n \<Longrightarrow> concat (cs i) = gpd_ack (int i) \<and> (\<forall>c\<in>set (cs i). c \<noteq> [])"
    and "concat ce = gpd_ack 65535" "\<forall>c\<in>set ce. c \<noteq> []" "k \<le> Suc n" "idle_gps st"
  shows "\<exists>st'. send_packs env junk data off (int (n * 512)) k 0
      (concat (map (\<lambda>i. answer_events (cs i)) [k..<Suc n]) @ answer_events ce @ evs) st = Some (Inr (True, evs, st'))
    \<and> sends st (map pk [k..<Suc n] @ [fin]) st'"
  using assms(8,9)
proof (induction "Suc n - k" arbitrary: k st)
  case 0
  then have k: "k = Suc n" by simp
  obtain st' where st': "GPS_SendGPDPack env junk 65535 None (answer_events ce @ evs) st = Some (Inr (True, evs, st'))" "sends st [fin] st'"
    using pack_acknowledged [OF assms(2) 0(3) assms(4) _ assms(6,7), of 0 evs] by auto
  have "\<not> int (k * 512) \<le> int (n * 512)" unfolding k by simp
  then show ?case using st' k by (subst send_packs.simps) simp
next
  case (Suc d)
  then have k: "k \<le> n" by simp
  let ?rest = "concat (map (\<lambda>i. answer_events (cs i)) [Suc k..<Suc n]) @ answer_events ce @ evs"
  have up: "[k..<Suc n] = k # [Suc k..<Suc n]" using k by (simp add: upt_conv_Cons)
  have small: "k < 10 \<and> int k = int k \<or> int k = 65535" using k assms(3) by simp
  obtain st1 where st1: "GPS_SendGPDPack env junk (int k) (Some (file k)) (answer_events (cs k) @ ?rest) st = Some (Inr (True, ?rest, st1))"
    "sends st [pk k] st1"
    using pack_acknowledged [OF conjunct2 [OF pk [OF k]] Suc.prems(2) assms(4) small conjunct1 [OF acks [OF k]] conjunct2 [OF acks [OF k]],
        of ?rest] by blast
  have ind: "d = Suc n - Suc k" "Suc k \<le> Suc n" using Suc.hyps(2) k by auto
  from Suc.hyps(1) [OF ind sends_idle [OF st1(2)]] obtain st' where
    st': "send_packs env junk data off (int (n * 512)) (Suc k) 0 ?rest st1 = Some (Inr (True, evs, st'))"
    "sends st1 (map pk [Suc k..<Suc n] @ [fin]) st'" by blast
  have "send_packs env junk data off (int (n * 512)) k 0 (answer_events (cs k) @ ?rest) st = Some (Inr (True, evs, st'))"
    using st1(1) st'(1) pk [OF k] k by (subst send_packs.simps) simp
  moreover have "sends st (pk k # map pk [Suc k..<Suc n] @ [fin]) st'" using sends_trans [OF st1(2) st'(2)] by simp
  ultimately show ?case unfolding up by (intro exI [of _ st']) simp
qed

section \<open>The other commands of the procedure\<close>

text \<open>Acknowledgements in text form, behind a command in either form.\<close>

abbreviation success :: "GPS_CMD_t \<Rightarrow> byte list \<Rightarrow> bool" where
  "success cmd msg \<equiv> nmea_trailer (ack_text cmd GPS_CMD_ACK_EXEC_SUCCESS []) = Inr msg"

lemma nmea_acknowledged:
  assumes "nmea_trailer str = Inr out" "success sent msg" "idle_gps st" "\<forall>n. env_malloc env n"
    and "concat chunks = msg" "\<forall>c\<in>set chunks. c \<noteq> []" "sent \<in> set valid_cmds"
  shows "\<exists>st'. GPS_SendWaiteNormalAck env sent str GPS_FORMAT_NMEA (answer_events chunks @ evs) st = Some (Inr (True, evs, st'))
    \<and> sends st [out] st'"
  using exchange_ack [OF assms(1,2) _ _ _ _ assms(5-7), of st env evs] assms(3,4)
  by (auto simp: idle_gps_def sends_def answer_events_def)

lemma binary_acknowledged:
  assumes "binary_trailer str = Inr out" "success sent msg" "idle_gps st" "\<forall>n. env_malloc env n"
    and "concat chunks = msg" "\<forall>c\<in>set chunks. c \<noteq> []" "sent \<in> set valid_cmds"
  shows "\<exists>st'. GPS_SendWaiteNormalAck env sent str GPS_FORMAT_BINARY (answer_events chunks @ evs) st = Some (Inr (True, evs, st'))
    \<and> sends st [out] st'"
proof -
  obtain m t where m: "msg = m @ CRLF" "ack_msg m" "msg = ack_text sent GPS_CMD_ACK_EXEC_SUCCESS t" "GPS_CheckParity (Some msg) = Inr True"
    using ack_wire [OF assms(2)] by blast
  have "normal_ack sent str (GPS_CMD_ACK, Some msg) = Inr True"
    using AckCheck_ack [OF assms(7), of sent GPS_CMD_ACK_EXEC_SUCCESS t] m(3) by (simp add: normal_ack_def)
  moreover have "length msg \<le> GPS_NMEA_FRAME_BUFFER_LENGTH" "msg \<noteq> []" using m(1,2) by (simp_all add: ack_msg_def)
  moreover have "env_malloc env (length m + 2)" using assms(4) by blast
  ultimately show ?thesis
    by (intro binary_exchange [OF assms(1,3) _ _ _ assms(5,6) _ read_ack_text [OF m(3,4)]])
      (use ack_update_partial [OF _ m(2)] ack_update_message [OF _ m(2)] in \<open>auto simp only: m(1)\<close>)
qed

definition location_text :: "agps_env \<Rightarrow> byte list" where
  "location_text ag =
     snprintf GPS_BUFFER_MAX_LENGTH
       (GPS_CMD_HEADER @ fmt_0d 3 (nat (cmd_code GPS_CMD_SET_LOCATION_TIME)) @ '','' @ ag_lat ag @ '','' @ ag_lon ag
        @ '','' @ ag_alt ag @ concat (map (\<lambda>p. CHR '','' # fmt_d p) (rtc_params (ag_time2 ag))))"

lemma location_sent:
  assumes "\<forall>c\<in>set (ag_lat ag @ ag_lon ag @ ag_alt ag). uchar c < 128"
  obtains out where "nmea_trailer (location_text ag) = Inr out"
proof -
  have u: "uchar c < 128" if "c \<in> set (fmt_u n)" for c n using fmt_u_digits [OF that] by (simp add: isdigit_def)
  then have d: "uchar c < 128" if "c \<in> set (fmt_d p)" for c p
    using that by (auto simp: fmt_d_def uchar_def split: if_splits)
  have z: "uchar c < 128" if "c \<in> set (fmt_0d w n)" for c w n using that u by (auto simp: fmt_0d_def uchar_def)
  define t where "t = GPS_CMD_HEADER @ fmt_0d 3 (nat (cmd_code GPS_CMD_SET_LOCATION_TIME)) @ '','' @ ag_lat ag @ '','' @ ag_lon ag
        @ '','' @ ag_alt ag @ concat (map (\<lambda>p. CHR '','' # fmt_d p) (rtc_params (ag_time2 ag)))"
  have "\<forall>c\<in>set t. uchar c < 128" using assms d z by (auto simp: uchar_def t_def)
  moreover have "location_text ag = take (GPS_BUFFER_MAX_LENGTH - 1) t" by (simp only: location_text_def snprintf_def t_def)
  ultimately have "\<forall>c\<in>set (location_text ag). uchar c < 128" by (auto dest: in_set_takeD)
  moreover have "2 \<le> length (location_text ag)" by (simp add: location_text_def snprintf_def GPS_BUFFER_MAX_LENGTH_def)
  ultimately show thesis using nmea_trailer_ok(2) that by blast
qed

section \<open>A complete run\<close>

text \<open>What the module answers in a run that transfers the packs 0 to \<open>n\<close>; \<open>chop\<close> is how its answers are cut into chunks.\<close>

definition module_answers :: "(byte list \<Rightarrow> byte list list) \<Rightarrow> nat \<Rightarrow> byte list \<Rightarrow> byte list \<Rightarrow> byte list \<Rightarrow> gps_event list" where
  "module_answers chop n format time place =
     answer_events (chop format) @ concat (map (\<lambda>i. answer_events (chop (gpd_ack (int i)))) [0..<Suc n]) @ answer_events (chop (gpd_ack 65535))
     @ answer_events (chop format) @ answer_events (chop time) @ answer_events (chop place)"

lemma valid_agps_cmds:
  "GPS_CMD_FORMAT \<in> set valid_cmds" "GPS_CMD_SET_RTC_TIME \<in> set valid_cmds" "GPS_CMD_SET_LOCATION_TIME \<in> set valid_cmds"
  by (simp_all add: valid_cmds_def)

lemma upload_acknowledged:
  assumes ag: "\<forall>n. env_malloc (ag_gps ag) n" "length (ag_junk ag) = GPS_BUFFER_MAX_LENGTH + 6"
    and fit: "off + n * 512 + 512 \<le> length data'" "n < 10"
    and chop: "\<And>m. concat (chop m) = m \<and> (\<forall>c\<in>set (chop m). c \<noteq> [])"
    and format: "success GPS_CMD_FORMAT format" and st: "idle_gps st"
  shows "\<exists>binary pk fin nmea st'. upload_gpd ag data' off (int (n * 512)) (answer_events (chop format)
        @ concat (map (\<lambda>i. answer_events (chop (gpd_ack (int i)))) [0..<Suc n]) @ answer_events (chop (gpd_ack 65535)) @ answer_events (chop format) @ evs) st
      = Some (Inr (True, evs, st'))
    \<and> sends st (binary # map pk [0..<Suc n] @ [fin, nmea]) st'
    \<and> (\<forall>i\<le>n. length (pk i) = 523 \<and> take 2 (drop 6 (pk i)) = low_high (int i)
          \<and> take 512 (drop 8 (pk i)) = take 512 (drop (off + i * 512) data'))"
proof -
  let ?packs = "concat (map (\<lambda>i. answer_events (chop (gpd_ack (int i)))) [0..<Suc n])"
  let ?rest = "?packs @ answer_events (chop (gpd_ack 65535)) @ answer_events (chop format) @ evs"
  have c: "concat (chop m) = m" "\<forall>c\<in>set (chop m). c \<noteq> []" for m using chop by simp_all
  define part where "part i = take 512 (drop (off + i * 512) data')" for i
  have "\<exists>pk. \<forall>i. i \<le> n \<longrightarrow> binary_trailer (gpd_block (int i) (Some (part i)) (ag_junk ag)) = Inr (pk i) \<and> length (pk i) = 523
      \<and> take 8 (pk i) = GPS_CMD_BINARY_HEADER @ low_high 523 @ low_high (cmd_code GPS_CMD_GPD_PACK) @ low_high (int i)
      \<and> take 512 (drop 8 (pk i)) = part i"
  proof (rule choice, rule allI)
    fix i
    have "i \<le> n \<Longrightarrow> length (part i) = 512"
      using fit(1) mult_le_mono1 [of i n 512] by (simp add: part_def)
    with gpd_block_layout [of "int i" "part i" "ag_junk ag"] ag(2) fit(2)
    show "\<exists>out. i \<le> n \<longrightarrow> binary_trailer (gpd_block (int i) (Some (part i)) (ag_junk ag)) = Inr out \<and> length out = 523
      \<and> take 8 out = GPS_CMD_BINARY_HEADER @ low_high 523 @ low_high (cmd_code GPS_CMD_GPD_PACK) @ low_high (int i)
      \<and> take 512 (drop 8 out) = part i" by (cases "i \<le> n") auto
  qed
  then obtain pk where pk: "\<And>i. i \<le> n \<Longrightarrow> binary_trailer (gpd_block (int i) (Some (part i)) (ag_junk ag)) = Inr (pk i) \<and> length (pk i) = 523
      \<and> take 8 (pk i) = GPS_CMD_BINARY_HEADER @ low_high 523 @ low_high (cmd_code GPS_CMD_GPD_PACK) @ low_high (int i)
      \<and> take 512 (drop 8 (pk i)) = part i" by blast
  have number: "take 2 (drop 6 (pk i)) = low_high (int i)" if "i \<le> n" for i
    using arg_cong [OF conjunct1 [OF conjunct2 [OF conjunct2 [OF pk [OF that]]]], of "drop 6"]
    by (simp add: drop_take low_high_def)
  have packs: "gpd_pack data' off i = Inr (part i)" if "i \<le> n" for i
    using fit(1) mult_le_mono1 [OF that, of 512] by (simp add: gpd_pack_def part_def)
  obtain fin where fin: "binary_trailer (gpd_block 65535 None (ag_junk ag)) = Inr fin" using end_pack_sent [OF ag(2)] .
  obtain nmea where nmea: "binary_trailer (nmea_mode_block (ag_junk ag)) = Inr nmea" using nmea_mode_sent [OF ag(2)] .
  have "length (params_text [1, 9600]) \<le> 70" by (rule params_short) simp_all
  then obtain binary where binary: "nmea_trailer (cmd_text GPS_CMD_FORMAT [1, 9600]) = Inr binary"
    using sendable_trailer [OF cmd_text_sendable(1)] by blast
  obtain st1 where st1: "GPS_SetBinaryMode (ag_gps ag) (answer_events (chop format) @ ?rest) st = Some (Inr (True, ?rest, st1))" "sends st [binary] st1"
    using nmea_acknowledged [OF binary format st ag(1) c valid_agps_cmds(1), of ?rest] unfolding GPS_SetBinaryMode_def send_nmea_def by blast
  obtain st2 where st2: "send_packs (ag_gps ag) (ag_junk ag) data' off (int (n * 512)) 0 0 ?rest st1
      = Some (Inr (True, answer_events (chop format) @ evs, st2))" "sends st1 (map pk [0..<Suc n] @ [fin]) st2"
    using send_packs_acknowledged [of n data' off part "ag_junk ag" pk fin "ag_gps ag" "\<lambda>i. chop (gpd_ack (int i))" "chop (gpd_ack 65535)" 0 st1
        "answer_events (chop format) @ evs"] packs pk fin fit(2) ag(1) c sends_idle [OF st1(2)] by blast
  obtain st3 where st3: "GPS_SetNMEAMode (ag_gps ag) (ag_junk ag) (answer_events (chop format) @ evs) st2 = Some (Inr (True, evs, st3))" "sends st2 [nmea] st3"
    using binary_acknowledged [OF nmea format sends_idle [OF st2(2)] ag(1) c valid_agps_cmds(1), of evs] unfolding GPS_SetNMEAMode_def by blast
  have "upload_gpd ag data' off (int (n * 512)) (answer_events (chop format) @ ?rest) st = Some (Inr (True, evs, st3))"
    using st1(1) st2(1) st3(1) by (simp add: upload_gpd_def)
  moreover have "sends st (binary # map pk [0..<Suc n] @ [fin, nmea]) st3"
    using sends_trans [OF st1(2) sends_trans [OF st2(2) st3(2)]] by simp
  ultimately show ?thesis using pk number unfolding part_def by blast
qed

lemma time_place_acknowledged:
  assumes "\<forall>n. env_malloc (ag_gps ag) n" "\<And>m. concat (chop m) = m \<and> (\<forall>c\<in>set (chop m). c \<noteq> [])"
    and "success GPS_CMD_SET_RTC_TIME time" "success GPS_CMD_SET_LOCATION_TIME place"
    and "\<forall>p\<in>set (rtc_params (ag_time1 ag)). 0 \<le> p \<and> p < 100000"
    and "\<forall>c\<in>set (ag_lat ag @ ag_lon ag @ ag_alt ag). uchar c < 128" "idle_gps st"
  shows "\<exists>rtc loc st'. set_time_place ag (answer_events (chop time) @ answer_events (chop place) @ evs) st = Some (Inr ((), evs, st'))
    \<and> sends st [rtc, loc] st'"
proof -
  have c: "concat (chop m) = m" "\<forall>c\<in>set (chop m). c \<noteq> []" for m using assms(2) by simp_all
  have "length (params_text (rtc_params (ag_time1 ag))) \<le> 70"
    by (rule params_short [OF assms(5)]) (simp add: rtc_params_def)
  then obtain rtc where rtc: "nmea_trailer (cmd_text GPS_CMD_SET_RTC_TIME (rtc_params (ag_time1 ag))) = Inr rtc"
    using sendable_trailer [OF cmd_text_sendable(1)] by blast
  obtain loc where loc: "nmea_trailer (location_text ag) = Inr loc" using location_sent [OF assms(6)] .
  obtain st1 where st1: "GPS_SetRtcTime (ag_gps ag) (ag_time1 ag) (answer_events (chop time) @ answer_events (chop place) @ evs) st
      = Some (Inr (True, answer_events (chop place) @ evs, st1))" "sends st [rtc] st1"
    using nmea_acknowledged [OF rtc assms(3,7,1) c valid_agps_cmds(2), of "answer_events (chop place) @ evs"]
    unfolding GPS_SetRtcTime_def send_nmea_def by blast
  obtain st2 where st2: "GPS_SetLocationTime (ag_gps ag) (ag_lat ag) (ag_lon ag) (ag_alt ag) (ag_time2 ag) (answer_events (chop place) @ evs) st1
      = Some (Inr (True, evs, st2))" "sends st1 [loc] st2"
    using nmea_acknowledged [OF loc assms(4) sends_idle [OF st1(2)] assms(1) c valid_agps_cmds(3), of evs]
    unfolding GPS_SetLocationTime_def location_text_def by blast
  show ?thesis
    using st1(1) st2(1) sends_trans [OF st1(2) st2(2)] by (intro exI [of _ rtc] exI [of _ loc] exI [of _ st2]) (simp add: set_time_place_def)
qed



end
