(* ===== verification/Double.thy ===== *)
theory Double
  imports Complex_Main Prelude
begin

text \<open>
  The \<open>double\<close> arithmetic of the tracker: a double is a rational number, an operation is the exact
  one followed by rounding to 53 significant bits, to nearest with ties to even. The exponent is not
  bounded: the numbers here stay between \<open>2 ^ - 90\<close> and \<open>2 ^ 45\<close> in size, far inside the range of the
  format. Also the printing of \<open>%f\<close> and \<open>%.1f\<close>.
\<close>

section \<open>Rounding\<close>

text \<open>The nearest integer, ties to even.\<close>

definition round_even :: "rat \<Rightarrow> int" where
  "round_even x =
     (let n = \<lfloor>x\<rfloor>; d = x - of_int n
      in if d < 1 / 2 then n else if 1 / 2 < d then n + 1 else if even n then n else n + 1)"

function bits :: "int \<Rightarrow> int" where
  "bits n = (if n \<le> 0 then 0 else bits (n div 2) + 1)"
  by pat_completeness auto
termination by (relation "measure nat") auto

declare bits.simps [simp del]

text \<open>\<open>2 ^ e\<close> for an integer exponent.\<close>

definition two_to :: "int \<Rightarrow> rat" where
  "two_to e = (if 0 \<le> e then 2 ^ nat e else 1 / 2 ^ nat (- e))"

text \<open>The binary exponent of a positive number, \<open>two_to e \<le> x < two_to (e + 1)\<close>.\<close>

definition exponent :: "rat \<Rightarrow> int" where
  "exponent x =
     (let (p, q) = quotient_of x; e = bits p - bits q
      in if two_to e \<le> x then e else e - 1)"

definition ulp :: "rat \<Rightarrow> rat" where
  "ulp x = two_to (exponent \<bar>x\<bar> - 52)"

definition rnd :: "rat \<Rightarrow> rat" where
  "rnd x = (if x = 0 then 0 else of_int (round_even (x / ulp x)) * ulp x)"

definition dadd :: "rat \<Rightarrow> rat \<Rightarrow> rat" where "dadd x y = rnd (x + y)"
definition dsub :: "rat \<Rightarrow> rat \<Rightarrow> rat" where "dsub x y = rnd (x - y)"
definition dmul :: "rat \<Rightarrow> rat \<Rightarrow> rat" where "dmul x y = rnd (x * y)"
definition ddiv :: "rat \<Rightarrow> rat \<Rightarrow> rat" where "ddiv x y = rnd (x / y)"

section \<open>Printing\<close>

text \<open>\<open>%.Nf\<close>: the exact value, rounded to \<open>n\<close> decimals.\<close>

definition fmt_f :: "nat \<Rightarrow> rat \<Rightarrow> byte list" where
  "fmt_f n x =
     (let k = nat (round_even (\<bar>x\<bar> * 10 ^ n))
      in (if x < 0 then ''-'' else []) @ fmt_u (k div 10 ^ n) @ CHR ''.'' # fmt_0d n (k mod 10 ^ n))"

section \<open>Error of a rounding\<close>

lemma round_even_cases:
  "round_even x = \<lfloor>x\<rfloor> \<and> x - of_int \<lfloor>x\<rfloor> \<le> 1 / 2 \<or> round_even x = \<lfloor>x\<rfloor> + 1 \<and> 1 / 2 \<le> x - of_int \<lfloor>x\<rfloor>"
proof -
  define d where "d = x - of_int \<lfloor>x\<rfloor>"
  have "round_even x = (if d < 1 / 2 then \<lfloor>x\<rfloor> else if 1 / 2 < d then \<lfloor>x\<rfloor> + 1 else if even \<lfloor>x\<rfloor> then \<lfloor>x\<rfloor> else \<lfloor>x\<rfloor> + 1)"
    by (simp add: round_even_def Let_def d_def)
  then show ?thesis unfolding d_def [symmetric] by (cases "d < 1 / 2"; cases "1 / 2 < d"; cases "even \<lfloor>x\<rfloor>") simp_all
qed

lemma round_even_error: "\<bar>of_int (round_even x) - x\<bar> \<le> 1 / 2"
proof -
  have f: "of_int \<lfloor>x\<rfloor> \<le> x" "x < of_int \<lfloor>x\<rfloor> + 1" by linarith+
  show ?thesis using round_even_cases [of x] by (elim disjE conjE) (use f in \<open>simp_all add: abs_le_iff\<close>)
qed

lemma round_even_of_int [simp]: "round_even (of_int n) = n"
  by (simp add: round_even_def)

lemma bits_bounds: "0 < n \<Longrightarrow> \<exists>k. bits n = int (Suc k) \<and> 2 ^ k \<le> n \<and> n < 2 ^ Suc k"
proof (induction n rule: bits.induct)
  case (1 n)
  show ?case
  proof (cases "n = 1")
    case True
    then show ?thesis by (intro exI [of _ 0]) (simp add: bits.simps)
  next
    case False
    then have d: "0 < n div 2" using 1(2) by (simp add: pos_imp_zdiv_pos_iff)
    then obtain k where k: "bits (n div 2) = int (Suc k)" "2 ^ k \<le> n div 2" "n div 2 < 2 ^ Suc k"
      using 1 by auto
    have "bits n = int (Suc (Suc k))" using 1(2) k(1) by (subst bits.simps) simp
    moreover have "2 * 2 ^ k \<le> n" "n < 2 * 2 ^ Suc k" using k(2,3) by linarith+
    then have "2 ^ Suc k \<le> n" "n < 2 ^ Suc (Suc k)" by simp_all
    ultimately show ?thesis by blast
  qed
qed

lemma two_to_pos [simp]: "0 < two_to e"
  by (simp add: two_to_def)

lemma two_to_powi: "two_to e = 2 powi e"
  by (auto simp: two_to_def power_int_def) (metis inverse_eq_divide power_inverse)

lemma two_to_add: "two_to (a + b) = two_to a * two_to b"
  by (simp add: two_to_powi power_int_add)

lemma two_to_mono: "a \<le> b \<Longrightarrow> two_to a \<le> two_to b"
  by (simp add: two_to_powi power_int_increasing)

lemma exponent_bounds:
  assumes "0 < x"
  shows "two_to (exponent x) \<le> x" "x < two_to (exponent x + 1)"
proof -
  obtain p q where pq: "quotient_of x = (p, q)" by fastforce
  have q: "0 < q" using quotient_of_denom_pos [OF pq] .
  have x: "x = of_int p / of_int q" by (rule quotient_of_div [OF pq])
  have p: "0 < p" using assms q unfolding x by (simp add: zero_less_divide_iff)
  obtain a where a: "bits p = int (Suc a)" "2 ^ a \<le> p" "p < 2 ^ Suc a" using bits_bounds [OF p] by blast
  obtain b where b: "bits q = int (Suc b)" "2 ^ b \<le> q" "q < 2 ^ Suc b" using bits_bounds [OF q] by blast
  have cast: "(2::rat) ^ k \<le> of_int n \<longleftrightarrow> 2 ^ k \<le> n" "of_int n < (2::rat) ^ k \<longleftrightarrow> n < 2 ^ k" for k n
    using of_int_le_iff [of "2 ^ k" n, where ?'a = rat] of_int_less_iff [of n "2 ^ k", where ?'a = rat] by simp_all
  have ra: "(2::rat) ^ a \<le> of_int p" "of_int p < (2::rat) ^ Suc a" using a(2,3) by (simp_all only: cast)
  have rb: "(2::rat) ^ b \<le> of_int q" "of_int q < (2::rat) ^ Suc b" using b(2,3) by (simp_all only: cast)
  have pw: "two_to (int a - int b) = 2 ^ a / 2 ^ b" by (simp add: two_to_powi power_int_diff)
  have tw: "two_to (e + 1) = two_to e * 2" "two_to (e - 1) = two_to e / 2" for e
    by (simp_all add: two_to_powi power_int_add power_int_diff)
  let ?e = "int a - int b"
  have up: "x < two_to (?e + 1)"
  proof -
    have "x < 2 ^ Suc a / 2 ^ b" unfolding x using ra(2) rb(1) p q by (intro frac_less) simp_all
    then show ?thesis by (simp add: tw pw mult.commute)
  qed
  have lo: "two_to (?e - 1) \<le> x"
  proof -
    have "2 ^ a / 2 ^ Suc b \<le> x" unfolding x using ra(1) rb(2) p q by (intro frac_le) simp_all
    then show ?thesis by (simp add: tw pw)
  qed
  have e: "exponent x = (if two_to ?e \<le> x then ?e else ?e - 1)"
    using a(1) b(1) pq by (simp add: exponent_def Let_def)
  show "two_to (exponent x) \<le> x" using e lo by simp
  show "x < two_to (exponent x + 1)" using e up by simp
qed

lemma ulp_pos [simp]: "0 < ulp x"
  by (simp add: ulp_def)

lemma ulp_nonzero [simp]: "ulp x \<noteq> 0"
  using ulp_pos [of x] by linarith

lemma ulp_bound: "x \<noteq> 0 \<Longrightarrow> ulp x \<le> \<bar>x\<bar> * (1 / 2 ^ 52)"
proof -
  assume "x \<noteq> 0"
  then have "two_to (exponent \<bar>x\<bar>) \<le> \<bar>x\<bar>" by (intro exponent_bounds) simp
  moreover have "ulp x = two_to (exponent \<bar>x\<bar>) * (1 / 2 ^ 52)"
    using two_to_add [of "exponent \<bar>x\<bar>" "- 52"] by (simp add: ulp_def two_to_def [of "- 52"])
  ultimately show ?thesis by (simp add: mult_right_mono)
qed

text \<open>The relative error of one operation is at most \<open>2 ^ - 53\<close>.\<close>

definition eps :: rat where "eps = 1 / 2 ^ 53"

theorem rnd_error: "\<bar>rnd x - x\<bar> \<le> \<bar>x\<bar> * eps"
proof (cases "x = 0")
  case False
  have "rnd x - x = (of_int (round_even (x / ulp x)) - x / ulp x) * ulp x"
    using False ulp_pos [of x] by (simp add: rnd_def left_diff_distrib)
  then have "\<bar>rnd x - x\<bar> = \<bar>of_int (round_even (x / ulp x)) - x / ulp x\<bar> * ulp x" by (simp add: abs_mult abs_of_pos)
  also have "\<dots> \<le> 1 / 2 * ulp x" by (intro mult_right_mono round_even_error) (simp add: less_imp_le)
  also have "\<dots> \<le> 1 / 2 * (\<bar>x\<bar> * (1 / 2 ^ 52))" using ulp_bound [OF False] by (intro mult_left_mono) simp_all
  finally show ?thesis by (simp add: eps_def)
qed (simp add: rnd_def)

lemma rnd_0 [simp]: "rnd 0 = 0"
  by (simp add: rnd_def)

lemma rnd_bounds:
  assumes "0 \<le> x"
  shows "x * (1 - eps) \<le> rnd x" "rnd x \<le> x * (1 + eps)"
  using rnd_error [of x] assms by (simp_all add: abs_le_iff algebra_simps)

lemma rnd_nonneg: "0 \<le> x \<Longrightarrow> 0 \<le> rnd x"
proof -
  assume "0 \<le> x"
  moreover have "0 \<le> 1 - eps" by (simp add: eps_def)
  ultimately show ?thesis using rnd_bounds(1) [of x] by (meson mult_nonneg_nonneg order_trans)
qed

lemma rnd_eq_0 [simp]: "rnd x = 0 \<longleftrightarrow> x = 0"
proof
  assume "rnd x = 0"
  then have "\<bar>x\<bar> \<le> \<bar>x\<bar> * eps" using rnd_error [of x] by simp
  then show "x = 0" by (simp add: eps_def mult_le_cancel_left1)
qed simp

lemma exponent_mono_bound:
  assumes "0 < x" "x < two_to k"
  shows "exponent x < k"
proof (rule ccontr)
  assume "\<not> exponent x < k"
  then have "two_to k \<le> two_to (exponent x)" by (intro two_to_mono) simp
  with exponent_bounds(1) [OF assms(1)] assms(2) show False by simp
qed

text \<open>Integers below \<open>2 ^ 53\<close> are exact.\<close>

lemma rnd_int:
  assumes "\<bar>n\<bar> < 2 ^ 53"
  shows "rnd (of_int n) = of_int n"
proof (cases "n = 0")
  case False
  let ?x = "of_int n :: rat"
  have "\<bar>?x\<bar> < two_to 53"
    using assms by (simp add: two_to_def flip: of_int_abs)
  then have e: "exponent \<bar>?x\<bar> - 52 \<le> 0" using exponent_mono_bound [of "\<bar>?x\<bar>" 53] False by simp
  then have "?x / ulp ?x = of_int (n * 2 ^ nat (52 - exponent \<bar>?x\<bar>))"
    by (cases "exponent \<bar>?x\<bar> = 52") (simp_all add: ulp_def two_to_def)
  then have "of_int (round_even (?x / ulp ?x)) * ulp ?x = ?x"
    using ulp_pos [of ?x] by (metis nonzero_eq_divide_eq less_irrefl round_even_of_int)
  then show ?thesis using False by (simp add: rnd_def)
qed simp

end
