(* ===== verification/Math_C.thy ===== *)
theory Math_C
  imports Double "HOL-Library.Word"
begin

text \<open>
  The floating-point routines of \<^verbatim>\<open>firmware/libs/utils/src/math.c\<close> that work on the bits of a number:
  classification, sign, truncation and rounding to an integer. A \<open>double\<close> is its 64 bits, a \<open>float\<close> its 32.
\<close>

unbundle bit_operations_syntax

section \<open>The routines\<close>

datatype fp_class = FP_NAN | FP_INFINITE | FP_ZERO | FP_SUBNORMAL | FP_NORMAL

definition fpclassify :: "64 word \<Rightarrow> fp_class" where
  "fpclassify i =
     (let e = drop_bit 52 i AND 0x7ff
      in if e = 0 then (if push_bit 1 i \<noteq> 0 then FP_SUBNORMAL else FP_ZERO)
         else if e = 0x7ff then (if push_bit 12 i \<noteq> 0 then FP_NAN else FP_INFINITE)
         else FP_NORMAL)"

definition fpclassifyf :: "32 word \<Rightarrow> fp_class" where
  "fpclassifyf i =
     (let e = drop_bit 23 i AND 0xff
      in if e = 0 then (if push_bit 1 i \<noteq> 0 then FP_SUBNORMAL else FP_ZERO)
         else if e = 0xff then (if push_bit 9 i \<noteq> 0 then FP_NAN else FP_INFINITE)
         else FP_NORMAL)"

definition signbit :: "64 word \<Rightarrow> int" where
  "signbit i = uint (drop_bit 63 i)"

definition signbitf :: "32 word \<Rightarrow> int" where
  "signbitf i = uint (drop_bit 31 i)"

definition trunc :: "64 word \<Rightarrow> 64 word" where
  "trunc i =
     (let e = uint (drop_bit 52 i AND 0x7ff) - 0x3ff + 12
      in if e \<ge> 52 + 12 then i
         else
           let e = (if e < 12 then 1 else e); m = drop_bit (nat e) (- 1)
           in if i AND m = 0 then i else i AND NOT m)"

definition truncf :: "32 word \<Rightarrow> 32 word" where
  "truncf i =
     (let e = uint (drop_bit 23 i AND 0xff) - 0x7f + 9
      in if e \<ge> 23 + 9 then i
         else
           let e = (if e < 9 then 1 else e); m = drop_bit (nat e) (- 1)
           in if i AND m = 0 then i else i AND NOT m)"

section \<open>The value of a bit pattern\<close>

text \<open>
  \<open>p\<close> is the number of bits of the fraction, \<open>w\<close> of the exponent, \<open>b\<close> the bias. The value is that of a finite number.
\<close>

definition exponent_field :: "nat \<Rightarrow> nat \<Rightarrow> 'a::len word \<Rightarrow> int" where
  "exponent_field p w i = uint (take_bit w (drop_bit p i))"

definition fraction_field :: "nat \<Rightarrow> 'a::len word \<Rightarrow> int" where
  "fraction_field p i = uint (take_bit p i)"

definition fp_magnitude :: "nat \<Rightarrow> nat \<Rightarrow> int \<Rightarrow> 'a::len word \<Rightarrow> rat" where
  "fp_magnitude p w b i =
     (let e = exponent_field p w i; m = fraction_field p i
      in if e = 0 then of_int m * two_to (1 - b - int p) else of_int (2 ^ p + m) * two_to (e - b - int p))"

definition fp_value :: "nat \<Rightarrow> nat \<Rightarrow> int \<Rightarrow> 'a::len word \<Rightarrow> rat" where
  "fp_value p w b i = (if bit i (p + w) then - fp_magnitude p w b i else fp_magnitude p w b i)"

abbreviation double_value :: "64 word \<Rightarrow> rat" where "double_value \<equiv> fp_value 52 11 1023"
abbreviation float_value :: "32 word \<Rightarrow> rat" where "float_value \<equiv> fp_value 23 8 127"

abbreviation double_finite :: "64 word \<Rightarrow> bool" where "double_finite i \<equiv> exponent_field 52 11 i < 2047"
abbreviation float_finite :: "32 word \<Rightarrow> bool" where "float_finite i \<equiv> exponent_field 23 8 i < 255"

text \<open>The integer part, towards zero.\<close>

definition integer_part :: "rat \<Rightarrow> int" where
  "integer_part x = (if x < 0 then - \<lfloor>- x\<rfloor> else \<lfloor>x\<rfloor>)"

text \<open>The arithmetic of \<open>float\<close>: the exact result rounded to 24 significant bits, ties to
  even; and the pattern of a normal number.\<close>

definition fulp :: "rat \<Rightarrow> rat" where
  "fulp x = two_to (exponent \<bar>x\<bar> - 23)"

definition frnd :: "rat \<Rightarrow> rat" where
  "frnd x = (if x = 0 then 0 else of_int (round_even (x / fulp x)) * fulp x)"

definition float_bits :: "rat \<Rightarrow> 32 word" where
  "float_bits y =
     word_of_int (of_bool (y < 0) * 2 ^ 31 + (exponent \<bar>y\<bar> + 127) * 2 ^ 23 + (\<lfloor>\<bar>y\<bar> / fulp y\<rfloor> - 2 ^ 23))"

text \<open>\<open>toint\<close> is \<open>1 / FLT_EPSILON\<close>.\<close>

definition toint :: rat where "toint = 2 ^ 23"

definition rintf :: "32 word \<Rightarrow> 32 word" where
  "rintf i =
     (let e = uint (drop_bit 23 i AND 0xff); s = drop_bit 31 i; x = float_value i
      in if e \<ge> 0x7f + 23 then i
         else
           let y = (if s \<noteq> 0 then frnd (frnd (x - toint) + toint) else frnd (frnd (x + toint) - toint))
           in if y = 0 then (if s \<noteq> 0 then 0x80000000 else 0) else float_bits y)"

section \<open>Clearing the low bits\<close>

lemma two_to_neq_0 [simp]: "two_to e \<noteq> 0"
  by (metis less_irrefl two_to_pos)

lemma ones_mask: "drop_bit n (- 1 :: 'a::len word) = mask (LENGTH('a) - n)"
  by (rule bit_word_eqI) (auto simp: bit_simps)

lemma clear_fraction: "uint (take_bit p (i AND NOT (mask k))) = uint (take_bit p i) div 2 ^ k * 2 ^ k"
  if "k \<le> p" for i :: "'a::len word"
proof -
  have "take_bit p (i AND NOT (mask k)) = push_bit k (drop_bit k (take_bit p i))"
    by (rule bit_word_eqI) (auto simp: bit_simps)
  moreover have "uint (push_bit k (drop_bit k (take_bit p i))) = push_bit k (drop_bit k (uint (take_bit p i)))"
    by (rule bit_eqI) (auto simp: bit_simps bit_uint_iff dest: bit_imp_le_length)
  ultimately show ?thesis by (simp add: push_bit_eq_mult drop_bit_eq_div)
qed

text \<open>The number of bits below the point.\<close>

definition cut_bits :: "nat \<Rightarrow> nat \<Rightarrow> int \<Rightarrow> 'a::len word \<Rightarrow> nat" where
  "cut_bits p w b i =
     (if exponent_field p w i < b then p + w else nat (b + int p - exponent_field p w i))"

text \<open>A format: sign, \<open>w\<close> bits of exponent and \<open>p\<close> bits of fraction fill the
  word.\<close>

locale fp_format =
  fixes ty :: "'a::len itself" and p w :: nat and b :: int
  assumes width: "LENGTH('a) = p + w + 1" and bias: "1 \<le> b"
begin

lemma fields:
  "0 \<le> exponent_field p w (i :: 'a word)" "0 \<le> fraction_field p (i :: 'a word)" "fraction_field p (i :: 'a word) < 2 ^ p"
proof -
  show "0 \<le> exponent_field p w i" "0 \<le> fraction_field p i" by (simp_all add: exponent_field_def fraction_field_def)
  have "fraction_field p i = take_bit p (uint i)" using width by (simp add: fraction_field_def unsigned_take_bit_eq)
  then show "fraction_field p i < 2 ^ p" by simp
qed

lemma magnitude_below_one:
  assumes "exponent_field p w (i :: 'a word) < b"
  shows "0 \<le> fp_magnitude p w b i \<and> fp_magnitude p w b i < 1"
proof -
  define m where "m = fraction_field p i"
  define e where "e = exponent_field p w i"
  have m: "0 \<le> m" "m < 2 ^ p" "0 \<le> e" using fields [of i] by (simp_all add: m_def e_def)
  then have r: "(0::rat) \<le> of_int m" "of_int m < (2::rat) ^ p" 
    using of_int_less_iff [of m "2 ^ p", where ?'a = rat] by simp_all
  have t: "(2::rat) ^ n * two_to (- int n) = 1" for n by (simp add: two_to_def)
  show ?thesis
  proof (cases "e = 0")
    case True
    have "of_int m * two_to (1 - b - int p) < 2 ^ p * two_to (- int p)"
      using r(2) two_to_mono [of "1 - b - int p" "- int p"] bias
      by (intro mult_less_le_imp_less) (simp_all add: m(1) less_imp_le)
    then show ?thesis using True m(1) t [of p]
      by (simp add: fp_magnitude_def e_def [symmetric] m_def [symmetric] less_imp_le)
  next
    case False
    have "(2 ^ p + of_int m) * two_to (e - b - int p) < 2 ^ Suc p * two_to (- int (Suc p))"
      using r two_to_mono [of "e - b - int p" "- int (Suc p)"] assms
      by (intro mult_less_le_imp_less) (simp_all add: e_def less_imp_le)
    then show ?thesis using False m(1) t [of "Suc p"]
      by (simp add: fp_magnitude_def e_def [symmetric] m_def [symmetric] less_imp_le del: power_Suc)
  qed
qed

lemma magnitude_small:
  assumes "exponent_field p w (i :: 'a word) < b + int p"
  shows "fp_magnitude p w b i < 2 ^ p"
proof -
  define m where "m = fraction_field p i"
  define e where "e = exponent_field p w i"
  have m: "0 \<le> m" "m < 2 ^ p" using fields [of i] by (simp_all add: m_def)
  then have r: "of_int m < (2::rat) ^ p" using of_int_less_iff [of m "2 ^ p", where ?'a = rat] by simp
  show ?thesis
  proof (cases "e = 0")
    case True
    have "of_int m * two_to (1 - b - int p) < 2 ^ p * two_to 0"
      using r two_to_mono [of "1 - b - int p" 0] bias by (intro mult_less_le_imp_less) (simp_all add: m(1) less_imp_le)
    then show ?thesis using True by (simp add: fp_magnitude_def two_to_def [of 0] flip: e_def m_def)
  next
    case False
    have "(2 ^ p + of_int m) * two_to (e - b - int p) < 2 ^ Suc p * two_to (- 1)"
      using r two_to_mono [of "e - b - int p" "- 1"] assms
      by (intro mult_less_le_imp_less) (simp_all add: e_def m(1) less_imp_le)
    then show ?thesis using False by (simp add: fp_magnitude_def two_to_def [of "- 1"] flip: e_def m_def)
  qed
qed

lemma magnitude_nonneg: "0 \<le> fp_magnitude p w b (i :: 'a word)"
  using fields [of i] by (simp add: fp_magnitude_def Let_def less_imp_le)

lemma magnitude_large:
  assumes "b + int p \<le> exponent_field p w (i :: 'a word)"
  shows "of_int \<lfloor>fp_magnitude p w b i\<rfloor> = fp_magnitude p w b i"
proof -
  have "fp_magnitude p w b i = of_int ((2 ^ p + fraction_field p i) * 2 ^ nat (exponent_field p w i - b - int p))"
    using assms bias by (simp add: fp_magnitude_def Let_def two_to_def)
  then show ?thesis by (metis of_int_floor_cancel floor_of_int)
qed

lemma magnitude_cut:
  assumes "b \<le> exponent_field p w (i :: 'a word)" "exponent_field p w i < b + int p"
    and k: "k = nat (b + int p - exponent_field p w i)"
  shows "fp_magnitude p w b (i AND NOT (mask k)) = of_int \<lfloor>fp_magnitude p w b i\<rfloor>"
proof -
  define m where "m = fraction_field p i"
  define e where "e = exponent_field p w i"
  have kp: "k \<le> p" "e - b - int p = - int k" "0 < e" using assms bias by (simp_all add: e_def)
  have "take_bit w (drop_bit p (i AND NOT (mask k))) = take_bit w (drop_bit p i)"
    using kp(1) by (intro bit_word_eqI) (auto simp: bit_simps dest: bit_imp_le_length)
  then have e: "exponent_field p w (i AND NOT (mask k)) = e" by (simp add: exponent_field_def e_def)
  have f: "fraction_field p (i AND NOT (mask k)) = m div 2 ^ k * 2 ^ k"
    using clear_fraction [OF kp(1)] by (simp add: fraction_field_def m_def)
  have t: "two_to (- int k) = 1 / 2 ^ k" by (simp add: two_to_def)
  have p: "(2 :: int) ^ p = 2 ^ (p - k) * 2 ^ k" using kp(1) by (simp flip: power_add)
  have "\<lfloor>of_int (2 ^ p + m) * two_to (- int k)\<rfloor> = (2 ^ p + m) div 2 ^ k"
    using floor_divide_of_int_eq [of "2 ^ p + m" "2 ^ k", where ?'a = rat] by (simp add: t)
  also have "\<dots> = 2 ^ (p - k) + m div 2 ^ k" by (simp add: p)
  finally have fl: "\<lfloor>fp_magnitude p w b i\<rfloor> = 2 ^ (p - k) + m div 2 ^ k"
    using kp by (simp add: fp_magnitude_def flip: e_def m_def)
  have "fp_magnitude p w b (i AND NOT (mask k)) = of_int ((2 ^ (p - k) + m div 2 ^ k) * 2 ^ k) / 2 ^ k"
    using kp e f by (simp add: fp_magnitude_def t p ring_distribs)
  then show ?thesis by (simp add: fl)
qed

lemma magnitude_zero: "fp_magnitude p w b ((i :: 'a word) AND NOT (mask (p + w))) = 0"
proof -
  have "take_bit w (drop_bit p (i AND NOT (mask (p + w)))) = 0" "take_bit p (i AND NOT (mask (p + w))) = 0"
    by (auto intro!: bit_word_eqI simp: bit_simps)
  then show ?thesis by (simp add: fp_magnitude_def exponent_field_def fraction_field_def)
qed

text \<open>Clearing the bits below the point gives the integer part.\<close>

lemma cut_integer_part: "fp_value p w b (i AND NOT (mask (cut_bits p w b i))) = of_int (integer_part (fp_value p w b (i :: 'a word)))"
proof -
  have part: "integer_part (if s then - x else x) = (if s then - \<lfloor>x\<rfloor> else \<lfloor>x\<rfloor>)" if "0 \<le> x" for s x
    using that by (auto simp: integer_part_def)
  have "cut_bits p w b i \<le> p + w" using fields [of i] bias by (auto simp: cut_bits_def)
  then have s: "bit (i AND NOT (mask (cut_bits p w b i))) (p + w) = bit i (p + w)" using width by (auto simp: bit_simps)
  have "fp_magnitude p w b (i AND NOT (mask (cut_bits p w b i))) = of_int \<lfloor>fp_magnitude p w b i\<rfloor>"
  proof -
    consider "exponent_field p w i < b" | "b \<le> exponent_field p w i" "exponent_field p w i < b + int p"
      | "b + int p \<le> exponent_field p w i" by linarith
    then show ?thesis
    proof cases
      case 1 then show ?thesis using magnitude_below_one [OF 1] magnitude_zero by (simp add: cut_bits_def floor_unique)
    next
      case 2 then show ?thesis using magnitude_cut [OF 2] by (simp add: cut_bits_def)
    next
      case 3 then show ?thesis using magnitude_large [OF 3] by (simp add: cut_bits_def del: of_int_floor_cancel)
    qed
  qed
  then show ?thesis unfolding fp_value_def s by (simp add: part magnitude_nonneg)
qed

end

section \<open>The two formats\<close>

interpretation binary64: fp_format "TYPE(64)" 52 11 1023
  by unfold_locales simp_all

interpretation binary32: fp_format "TYPE(32)" 23 8 127
  by unfold_locales simp_all

lemma exponent_field_and:
  "uint (drop_bit 52 (i :: 64 word) AND 0x7ff) = exponent_field 52 11 i"
  "uint (drop_bit 23 (j :: 32 word) AND 0xff) = exponent_field 23 8 j"
  by (simp_all add: exponent_field_def take_bit_eq_mask mask_eq_exp_minus_1)

lemma and_not_same: "(if i AND m = 0 then i else i AND NOT m) = i AND NOT m" for i m :: "'a::len word"
proof -
  have "i AND NOT m = i" if "i AND m = 0" using that by (auto simp: bit_eq_iff bit_simps)
  then show ?thesis by simp
qed

lemma trunc_cut: "trunc i = i AND NOT (mask (cut_bits 52 11 1023 i))"
  using binary64.fields(1) [of i]
  by (auto simp: trunc_def Let_def exponent_field_and ones_mask and_not_same cut_bits_def nat_diff_distrib')

lemma truncf_cut: "truncf i = i AND NOT (mask (cut_bits 23 8 127 i))"
  using binary32.fields(1) [of i]
  by (auto simp: truncf_def Let_def exponent_field_and ones_mask and_not_same cut_bits_def nat_diff_distrib')

lemma drop_to_top: "drop_bit n i = of_bool (bit i n)" if "LENGTH('a) = Suc n" for i :: "'a::len word"
proof (rule bit_word_eqI)
  show "bit (drop_bit n i) m \<longleftrightarrow> bit (of_bool (bit i n) :: 'a word) m" for m
    using that by (cases m) (auto simp: bit_simps dest: bit_imp_le_length)
qed

lemma signbit_bit: "signbit i = of_bool (bit i 63)" "signbitf j = of_bool (bit j 31)"
  by (simp_all add: signbit_def signbitf_def drop_to_top)

lemma trunc_sign: "signbit (trunc i) = signbit i" "signbitf (truncf j) = signbitf j"
proof -
  have "cut_bits 52 11 1023 i \<le> 63" "cut_bits 23 8 127 j \<le> 31"
    using binary64.fields(1) [of i] binary32.fields(1) [of j] by (auto simp: cut_bits_def)
  then show "signbit (trunc i) = signbit i" "signbitf (truncf j) = signbitf j"
    by (auto simp: signbit_bit trunc_cut truncf_cut bit_simps)
qed

text \<open>The functions \<open>trunc\<close> and \<open>truncf\<close> return the number whose value is the
  integer part of the argument, towards zero, for every finite argument; the sign bit stays, so an argument
  between -1 and 0 gives -0; an infinity or a NaN comes back unchanged.\<close>
lemma trunc_integer_part:
  "(double_finite i \<longrightarrow> double_value (trunc i) = of_int (integer_part (double_value i))) \<and>
   (float_finite j \<longrightarrow> float_value (truncf j) = of_int (integer_part (float_value j))) \<and>
   (\<not> double_finite i \<longrightarrow> trunc i = i) \<and> (\<not> float_finite j \<longrightarrow> truncf j = j) \<and>
   signbit (trunc i) = signbit i \<and> signbitf (truncf j) = signbitf j"
proof (intro conjI impI)
  show "double_value (trunc i) = of_int (integer_part (double_value i))"
    unfolding trunc_cut by (rule binary64.cut_integer_part)
  show "float_value (truncf j) = of_int (integer_part (float_value j))"
    unfolding truncf_cut by (rule binary32.cut_integer_part)
  show "trunc i = i" if "\<not> double_finite i" using that by (simp add: trunc_cut cut_bits_def)
  show "truncf j = j" if "\<not> float_finite j" using that by (simp add: truncf_cut cut_bits_def)
qed (rule trunc_sign)+

text \<open>The argument -3.75, and infinity.\<close>

lemma trunc_examples:
  "double_value (trunc 0xC00E000000000000) = - 3 \<and> trunc 0x7FF0000000000000 = 0x7FF0000000000000"
proof -
  have "integer_part (double_value 0xC00E000000000000) = - 3" "double_finite 0xC00E000000000000" "\<not> double_finite 0x7FF0000000000000"
    by code_simp+
  then show ?thesis
    using trunc_integer_part [of "0xC00E000000000000" 0] trunc_integer_part [of "0x7FF0000000000000" 0] by simp
qed

section \<open>Classification\<close>

lemma push_bit_zero: "push_bit n i = 0 \<longleftrightarrow> take_bit (LENGTH('a) - n) i = 0" for i :: "'a::len word"
proof
  assume "push_bit n i = 0"
  then have "\<not> bit (push_bit n i) (m + n)" for m by simp
  then show "take_bit (LENGTH('a) - n) i = 0" by (intro bit_word_eqI) (auto simp: bit_simps)
next
  assume "take_bit (LENGTH('a) - n) i = 0"
  then have "\<not> bit (take_bit (LENGTH('a) - n) i) m" for m by simp
  then show "push_bit n i = 0" by (intro bit_word_eqI) (auto simp: bit_simps)
qed

context fp_format begin

lemma no_bits: "take_bit (p + w) (i :: 'a word) = 0 \<longleftrightarrow> exponent_field p w i = 0 \<and> fraction_field p i = 0"
proof -
  have "take_bit (p + w) i = 0 \<longleftrightarrow> take_bit w (drop_bit p i) = 0 \<and> take_bit p i = 0"
  proof safe
    assume "take_bit (p + w) i = 0"
    then have n: "\<not> bit (take_bit (p + w) i) m" for m by simp
    show "take_bit w (drop_bit p i) = 0" using n [of "p + _"] by (intro bit_word_eqI) (auto simp: bit_simps)
    show "take_bit p i = 0" using n by (intro bit_word_eqI) (auto simp: bit_simps)
  next
    assume "take_bit w (drop_bit p i) = 0" "take_bit p i = 0"
    then have n: "\<not> bit (take_bit w (drop_bit p i)) (m - p)" "\<not> bit (take_bit p i) m" for m by simp_all
    show "take_bit (p + w) i = 0"
    proof (rule bit_word_eqI)
      show "bit (take_bit (p + w) i) m = bit (0 :: 'a word) m" for m
        using n [of m] by (cases "m < p") (auto simp: bit_simps)
    qed
  qed
  then show ?thesis by (simp add: exponent_field_def fraction_field_def uint_0_iff)
qed

lemma magnitude_normal: "two_to (1 - b) \<le> fp_magnitude p w b (i :: 'a word) \<longleftrightarrow> exponent_field p w i \<noteq> 0"
proof -
  define m where "m = fraction_field p i"
  define e where "e = exponent_field p w i"
  have m: "0 \<le> m" "m < 2 ^ p" "0 \<le> e" using fields [of i] by (simp_all add: m_def e_def)
  then have r: "of_int m < (2::rat) ^ p" using of_int_less_iff [of m "2 ^ p", where ?'a = rat] by simp
  have t: "2 ^ p * two_to (a - int p) = two_to a" for a
    using two_to_add [of "int p" "a - int p"] by (simp add: two_to_def [of "int p"])
  show ?thesis
  proof (cases "e = 0")
    case True
    have "of_int m * two_to (1 - b - int p) < 2 ^ p * two_to (1 - b - int p)" using r by simp
    then show ?thesis using True t [of "1 - b"] by (simp add: fp_magnitude_def flip: e_def m_def)
  next
    case False
    have "two_to (1 - b) \<le> 2 ^ p * two_to (e - b - int p)"
      using False m(3) t [of "e - b"] two_to_mono [of "1 - b" "e - b"] by simp
    also have "\<dots> \<le> of_int (2 ^ p + m) * two_to (e - b - int p)"
      using m(1) by (intro mult_right_mono) (simp_all add: less_imp_le)
    finally show ?thesis using False by (simp add: fp_magnitude_def flip: e_def m_def)
  qed
qed

lemma magnitude_eq_0: "fp_magnitude p w b (i :: 'a word) = 0 \<longleftrightarrow> exponent_field p w i = 0 \<and> fraction_field p i = 0"
proof (cases "exponent_field p w i = 0")
  case True
  then show ?thesis using two_to_pos [of "1 - b - int p"] by (simp add: fp_magnitude_def less_imp_neq [symmetric])
next
  case False
  then show ?thesis using magnitude_normal [of i] two_to_pos [of "1 - b"] by (auto simp: not_le [symmetric] simp del: two_to_pos)
qed

lemma abs_value: "\<bar>fp_value p w b (i :: 'a word)\<bar> = fp_magnitude p w b i"
  by (simp add: fp_value_def magnitude_nonneg)

lemma value_eq_0: "fp_value p w b (i :: 'a word) = 0 \<longleftrightarrow> exponent_field p w i = 0 \<and> fraction_field p i = 0"
  using magnitude_eq_0 [of i] by (simp add: fp_value_def)

lemma value_small: "\<bar>fp_value p w b (i :: 'a word)\<bar> < two_to (1 - b) \<longleftrightarrow> exponent_field p w i = 0"
  using magnitude_normal [of i] by (auto simp: abs_value)

end

lemma classify_fields:
  "fpclassify i =
     (if exponent_field 52 11 i = 0 then if fraction_field 52 i = 0 then FP_ZERO else FP_SUBNORMAL
      else if exponent_field 52 11 i = 2047 then if fraction_field 52 i = 0 then FP_INFINITE else FP_NAN
      else FP_NORMAL)"
    (is ?thesis1)
  "fpclassifyf j =
     (if exponent_field 23 8 j = 0 then if fraction_field 23 j = 0 then FP_ZERO else FP_SUBNORMAL
      else if exponent_field 23 8 j = 255 then if fraction_field 23 j = 0 then FP_INFINITE else FP_NAN
      else FP_NORMAL)"
    (is ?thesis2)
proof -
  have e: "drop_bit 52 i AND 0x7ff = c \<longleftrightarrow> exponent_field 52 11 i = uint c" for c
    by (simp add: word_uint_eq_iff flip: exponent_field_and)
  have f: "drop_bit 23 j AND 0xff = c \<longleftrightarrow> exponent_field 23 8 j = uint c" for c
    by (simp add: word_uint_eq_iff flip: exponent_field_and)
  have s: "push_bit 1 i = 0 \<longleftrightarrow> take_bit 63 i = 0" "push_bit 1 j = 0 \<longleftrightarrow> take_bit 31 j = 0"
    using push_bit_zero [of 1 i] push_bit_zero [of 1 j] by simp_all
  have z: "take_bit 52 i = 0 \<longleftrightarrow> fraction_field 52 i = 0" "take_bit 23 j = 0 \<longleftrightarrow> fraction_field 23 j = 0"
    by (simp_all add: fraction_field_def uint_0_iff)
  show "?thesis1" "?thesis2"
    using binary64.no_bits [of i] binary32.no_bits [of j]
    by (simp_all add: fpclassify_def fpclassifyf_def Let_def push_bit_zero e f s z del: One_nat_def push_bit_Suc push_bit_of_Suc_0)
qed

text \<open>The functions \<open>__fpclassify\<close> and \<open>__fpclassifyf\<close> name the class of the
  value: zero, below the least normal number (2^-1022, 2^-126), at least that; among the non-finite patterns, a
  zero fraction is an infinity and any other a NaN.\<close>
lemma fpclassify_value:
  "fpclassify i =
     (if double_finite i
      then if double_value i = 0 then FP_ZERO else if \<bar>double_value i\<bar> < two_to (- 1022) then FP_SUBNORMAL else FP_NORMAL
      else if fraction_field 52 i = 0 then FP_INFINITE else FP_NAN) \<and>
   fpclassifyf j =
     (if float_finite j
      then if float_value j = 0 then FP_ZERO else if \<bar>float_value j\<bar> < two_to (- 126) then FP_SUBNORMAL else FP_NORMAL
      else if fraction_field 23 j = 0 then FP_INFINITE else FP_NAN)"
proof -
  have "exponent_field 52 11 i < 2 ^ 11" "exponent_field 23 8 j < 2 ^ 8"
    by (simp_all only: exponent_field_def unsigned_take_bit_eq take_bit_int_less_exp)
  then have e: "exponent_field 52 11 i = 2047 \<longleftrightarrow> \<not> double_finite i" "exponent_field 23 8 j = 255 \<longleftrightarrow> \<not> float_finite j"
    by auto
  show ?thesis
    unfolding classify_fields e binary64.value_eq_0 binary32.value_eq_0
    using binary64.value_small [of i] binary32.value_small [of j] by simp
qed

section \<open>Rounding to an integer\<close>

lemma exponent_eqI:
  assumes "two_to e \<le> x" "x < two_to (e + 1)"
  shows "exponent x = e"
proof -
  have "0 < x" using assms(1) two_to_pos [of e] by (rule less_le_trans [rotated])
  then have "two_to (exponent x) \<le> x" "x < two_to (exponent x + 1)" by (rule exponent_bounds)+
  then have "two_to e < two_to (exponent x + 1)" "two_to (exponent x) < two_to (e + 1)"
    using assms by linarith+
  then have "\<not> exponent x + 1 \<le> e" "\<not> e + 1 \<le> exponent x"
    using two_to_mono [of "exponent x + 1" e] two_to_mono [of "e + 1" "exponent x"] by linarith+
  then show ?thesis by simp
qed

lemma round_even_shift: "round_even (x + of_int k) = round_even x + k" if "even k"
  using that by (simp add: round_even_def Let_def)

lemma round_even_range: "round_even x \<in> {\<lfloor>x\<rfloor>, \<lfloor>x\<rfloor> + 1}"
  by (auto simp: round_even_def Let_def)

lemma round_even_ge: "of_int a \<le> x \<Longrightarrow> a \<le> round_even x"
  using round_even_range [of x] le_floor_iff [of a x] by auto

lemma round_even_le: "x \<le> of_int a \<Longrightarrow> round_even x \<le> a"
  using round_even_range [of x] floor_less_iff [of x a] by (cases "x = of_int a") auto

lemma frnd_unit:
  assumes "2 ^ 23 \<le> \<bar>x\<bar>" "\<bar>x\<bar> < 2 ^ 24"
  shows "frnd x = of_int (round_even x)"
proof -
  have "exponent \<bar>x\<bar> = 23" using assms by (intro exponent_eqI) (simp_all add: two_to_def)
  then show ?thesis using assms by (auto simp: frnd_def fulp_def two_to_def)
qed

lemma frnd_of_int:
  assumes "\<bar>n\<bar> \<le> 2 ^ 24"
  shows "frnd (of_int n) = of_int n"
proof (cases "n = 0")
  case False
  let ?x = "of_int n :: rat"
  have "\<exists>k. ?x / fulp ?x = of_int k"
  proof (cases "\<bar>n\<bar> = 2 ^ 24")
    case True
    then have "\<bar>?x\<bar> = 2 ^ 24" by (simp flip: of_int_abs)
    then have "fulp ?x = 2" using exponent_eqI [of 24 "\<bar>?x\<bar>"] by (simp add: fulp_def two_to_def)
    moreover have "n = 2 ^ 24 \<or> n = - (2 ^ 24)" using True by linarith
    ultimately show ?thesis by (intro exI [of _ "n div 2"]) (elim disjE; simp)
  next
    case False
    then have "\<bar>?x\<bar> < two_to 24" using assms by (simp add: two_to_def flip: of_int_abs)
    then have "exponent \<bar>?x\<bar> - 23 \<le> 0" using exponent_mono_bound [of "\<bar>?x\<bar>" 24] \<open>n \<noteq> 0\<close> by simp
    then have "?x / fulp ?x = of_int (n * 2 ^ nat (23 - exponent \<bar>?x\<bar>))"
      by (cases "exponent \<bar>?x\<bar> = 23") (simp_all add: fulp_def two_to_def)
    then show ?thesis ..
  qed
  then obtain k where k: "?x / fulp ?x = of_int k" ..
  moreover have "fulp ?x \<noteq> 0" using two_to_pos [of "exponent \<bar>?x\<bar> - 23"] by (simp add: fulp_def)
  ultimately have "of_int k * fulp ?x = ?x" by (simp add: field_simps)
  then show ?thesis using False k by (simp add: frnd_def)
qed (simp add: frnd_def)

lemma float_bits_fields:
  fixes S F m :: int
  assumes "S \<in> {0, 1}" "0 \<le> F" "F < 256" "0 \<le> m" "m < 2 ^ 23"
    and i: "i = (word_of_int (S * 2 ^ 31 + F * 2 ^ 23 + m) :: 32 word)"
  shows "exponent_field 23 8 i = F" "fraction_field 23 i = m" "bit i 31 \<longleftrightarrow> S = 1"
proof -
  define v where "v = S * 2 ^ 31 + F * 2 ^ 23 + m"
  have "0 \<le> v" "v < 2 ^ 32" using assms(1-5) by (auto simp: v_def)
  moreover have "i = word_of_int v" by (simp only: i v_def)
  ultimately have v: "uint i = v" by (simp add: uint_word_of_int)
  have "uint (drop_bit 23 i) = drop_bit 23 v"
    by (rule bit_eqI) (auto simp: bit_uint_iff bit_drop_bit_eq simp flip: v dest: bit_imp_le_length)
  then have "exponent_field 23 8 i = take_bit 8 (drop_bit 23 v)"
    by (simp only: exponent_field_def unsigned_take_bit_eq)
  moreover have "v = m + (S * 256 + F) * 2 ^ 23" by (simp add: v_def)
  then have "v div 2 ^ 23 = S * 256 + F" using assms(4,5) by simp
  moreover have "(S * 256 + F) mod 256 = F" using assms(2,3) by simp
  ultimately show "exponent_field 23 8 i = F" by (simp add: take_bit_eq_mod drop_bit_eq_div)
  have "fraction_field 23 i = take_bit 23 v" by (simp only: fraction_field_def unsigned_take_bit_eq v)
  moreover have "v = m + (S * 256 + F) * 2 ^ 23" by (simp add: v_def)
  then have "v mod 2 ^ 23 = m" using assms(4,5) by (simp only: mod_mult_self1 mod_pos_pos_trivial)
  ultimately show "fraction_field 23 i = m" by (simp add: take_bit_eq_mod)
  have "bit i 31 \<longleftrightarrow> odd (v div 2 ^ 31)" using bit_uint_iff [of i 31] by (simp only: v bit_iff_odd) simp
  also have "v div 2 ^ 31 = S" using assms(1-5) by (auto simp: v_def)
  finally show "bit i 31 \<longleftrightarrow> S = 1" using assms(1) by auto
qed

lemma float_bits_of_int:
  assumes "n \<noteq> 0" "\<bar>n\<bar> \<le> 2 ^ 23"
  shows "float_value (float_bits (of_int n)) = of_int n" "bit (float_bits (of_int n)) 31 \<longleftrightarrow> n < 0"
proof -
  define a :: rat where "a = of_int \<bar>n\<bar>"
  define E where "E = exponent a"
  have a: "1 \<le> a" "a < two_to 24" using assms by (simp_all add: a_def two_to_def flip: of_int_abs)
  then have lo: "two_to E \<le> a" "a < two_to (E + 1)" using exponent_bounds [of a] by (simp_all add: E_def)
  have "\<not> E + 1 \<le> 0" using lo(2) a(1) two_to_mono [of "E + 1" 0] by (auto simp: two_to_def [of 0])
  moreover have "E < 24" using exponent_mono_bound [of a 24] a by (simp add: E_def)
  ultimately have E: "0 \<le> E" "E \<le> 23" by simp_all
  define M where "M = \<bar>n\<bar> * 2 ^ nat (23 - E)"
  have t: "two_to (E - 23) * 2 ^ nat (23 - E) = 1" using E(2) two_to_add [of "E - 23" "23 - E"] by (simp add: two_to_def)
  have f: "fulp (of_int n) = two_to (E - 23)" by (simp add: fulp_def E_def a_def)
  have q: "a / two_to (E - 23) = of_int M" using t by (simp add: M_def a_def field_simps)
  have "two_to 23 * two_to (E - 23) \<le> of_int M * two_to (E - 23)" "of_int M * two_to (E - 23) < two_to 24 * two_to (E - 23)"
    using lo q by (simp_all add: field_simps flip: two_to_add)
  then have "(of_int (2 ^ 23) :: rat) \<le> of_int M" "of_int M < (of_int (2 ^ 24) :: rat)" by (simp_all add: two_to_def [of 23] two_to_def [of 24])
  then have M: "2 ^ 23 \<le> M" "M < 2 ^ 24" by (simp_all only: of_int_le_iff of_int_less_iff)
  have b: "float_bits (of_int n) = word_of_int (of_bool (n < 0) * 2 ^ 31 + (E + 127) * 2 ^ 23 + (M - 2 ^ 23))"
    using q by (simp add: float_bits_def f a_def E_def)
  note v = float_bits_fields [OF _ _ _ _ _ b]
  have e: "exponent_field 23 8 (float_bits (of_int n)) = E + 127" and m: "fraction_field 23 (float_bits (of_int n)) = M - 2 ^ 23"
    and s: "bit (float_bits (of_int n)) 31 \<longleftrightarrow> n < 0"
    using v E M by (simp_all add: of_bool_def split: if_splits)
  have "fp_magnitude 23 8 127 (float_bits (of_int n)) = a"
    using E q by (simp add: fp_magnitude_def e m field_simps)
  then show "float_value (float_bits (of_int n)) = of_int n" by (simp add: fp_value_def s a_def)
  show "bit (float_bits (of_int n)) 31 \<longleftrightarrow> n < 0" by (rule s)
qed

lemma round_even_bound: "\<bar>round_even x\<bar> \<le> 2 ^ 23" if "\<bar>x\<bar> < 2 ^ 23"
  using that round_even_ge [of "- (2 ^ 23)" x] round_even_le [of x "2 ^ 23"] by (simp add: abs_le_iff abs_less_iff)

lemma rounded_sum:
  assumes "\<bar>x\<bar> < 2 ^ 23"
  shows "0 \<le> x \<Longrightarrow> frnd (frnd (x + toint) - toint) = of_int (round_even x)"
    and "x \<le> 0 \<Longrightarrow> frnd (frnd (x - toint) + toint) = of_int (round_even x)"
proof -
  have n: "\<bar>round_even x\<bar> \<le> 2 ^ 23" by (rule round_even_bound [OF assms])
  then have r: "frnd (of_int (round_even x)) = of_int (round_even x)" by (intro frnd_of_int) simp
  show "frnd (frnd (x + toint) - toint) = of_int (round_even x)" if "0 \<le> x"
  proof -
    have "frnd (x + toint) = of_int (round_even (x + of_int (2 ^ 23)))"
      using frnd_unit [of "x + 2 ^ 23"] assms that by (simp add: toint_def)
    then show ?thesis using r round_even_shift [of "2 ^ 23" x] by (simp add: toint_def)
  qed
  show "frnd (frnd (x - toint) + toint) = of_int (round_even x)" if "x \<le> 0"
  proof -
    have "frnd (x - toint) = of_int (round_even (x + of_int (- (2 ^ 23))))"
      using frnd_unit [of "x - 2 ^ 23"] assms that by (simp add: toint_def)
    then show ?thesis using r round_even_shift [of "- (2 ^ 23)" x] by (simp add: toint_def)
  qed
qed

text \<open>C39: \<open>rintf\<close> rounds to the nearest integer, ties to even, by adding and subtracting
  2^23: for every finite argument the value of the result is the rounded value and the sign bit is that of the
  argument, so a negative argument that rounds to zero gives -0; an infinity or a NaN comes back
  unchanged.\<close>

theorem rintf_rounds:
  "(float_finite i \<longrightarrow> float_value (rintf i) = of_int (round_even (float_value i))) \<and>
   (\<not> float_finite i \<longrightarrow> rintf i = i) \<and> signbitf (rintf i) = signbitf i"
proof (cases "exponent_field 23 8 i < 150")
  case False
  then have "rintf i = i" by (simp add: rintf_def Let_def exponent_field_and)
  moreover have "of_int \<lfloor>fp_magnitude 23 8 127 i\<rfloor> = fp_magnitude 23 8 127 i" using False by (intro binary32.magnitude_large) simp
  then obtain n where n: "fp_magnitude 23 8 127 i = of_int n" by metis
  have "of_int (round_even (float_value i)) = float_value i"
    using round_even_of_int [of n] round_even_of_int [of "- n"] by (simp add: fp_value_def n del: round_even_of_int)
  ultimately show ?thesis by simp
next
  case True
  let ?x = "float_value i" and ?s = "bit i 31"
  have "fp_magnitude 23 8 127 i < 2 ^ 23" using True by (intro binary32.magnitude_small) simp
  then have x: "\<bar>?x\<bar> < 2 ^ 23" by (simp add: binary32.abs_value)
  have x_sign: "?x \<le> 0" if ?s using that binary32.magnitude_nonneg [of i] by (simp add: fp_value_def)
  have x_pos: "0 \<le> ?x" if "\<not> ?s" using that binary32.magnitude_nonneg [of i] by (simp add: fp_value_def)
  let ?n = "round_even ?x"
  have s: "drop_bit 31 i \<noteq> 0 \<longleftrightarrow> ?s" by (simp add: drop_to_top)
  have eq: "rintf i = (if ?n = 0 then if ?s then 0x80000000 else 0 else float_bits (of_int ?n))"
    using True rounded_sum [OF x] x_sign x_pos by (simp add: rintf_def Let_def exponent_field_and s)
  have "?n < 0 \<longleftrightarrow> ?s" if "?n \<noteq> 0"
    using that round_even_ge [of 0 ?x] round_even_le [of ?x 0] x_sign x_pos by (cases "?s") auto
  moreover have "float_value 0x80000000 = 0" "float_value 0 = 0" "bit (0x80000000 :: 32 word) 31" by code_simp+
  ultimately show ?thesis
    using True float_bits_of_int [of ?n] round_even_bound [OF x]
    by (cases "?n = 0") (simp_all add: signbit_bit eq del: bit_numeral_rec)
qed

text \<open>A tie, 2.5, goes to 2; -0.25 goes to -0.\<close>

theorem rintf_rounds_witness:
  "float_value (rintf 0x40200000) = 2 \<and> float_value (rintf 0xBE800000) = 0 \<and> signbitf (rintf 0xBE800000) = 1"
proof -
  have "round_even (float_value 0x40200000) = 2" "round_even (float_value 0xBE800000) = 0"
    "float_finite 0x40200000" "float_finite 0xBE800000" "signbitf 0xBE800000 = 1"
    by code_simp+
  then show ?thesis using rintf_rounds [of "0x40200000"] rintf_rounds [of "0xBE800000"] by simp
qed

end
