(* ===== verification/Tracker.thy ===== *)
theory Tracker
  imports Double Gps_Command Http_Client
begin

text \<open>
  The tracker, \<^verbatim>\<open>firmware/app/src/app.c\<close> in the configuration of its own switches (watchdog, trace,
  UART, motion sensor, LEDs and the BSNL context on; vibration sensor, calls, SMS and low power off,
  which \<open>Options\<close> adds, and the fix requirement off): the event task, the blink timer, the start-up of
  the position task and its loop, and the steps in which they interleave. What the SDK answers is the environment; the calls that act
  on the device are recorded. Traces are left out.
\<close>

section \<open>State\<close>

datatype led = LED_SYS_ON | LED_NO_NETWORK | LED_NO_GPS | LED_NO_FIX

datatype sdk_act =
    Start_Attach
  | Start_Active "byte list"
  | Gps_Open
  | Gps_Close
  | Uart_Write "byte list"
  | Gpio_Set nat bool
  | Start_Timer nat
  | Watchdog_Open nat
  | Watchdog_Feed
  | Sleep nat
  | Min_Freq_32K
  | Min_Freq_178M
  | Reboot
  | Http "net_act list"
  | Flight_Mode bool
  | Vibration_Close
  | Vibration_Init
  | Call_Answer
  | Sms_Set_Format
  | Sms_Set_Parameter int int int int
  | Sms_Set_Storage

text \<open>Where the position task stands; \<open>Set_Interval i\<close> is the loop that sets the output interval.\<close>

datatype task_pc =
    Boot
  | Wait_Network
  | Wait_Position
  | Set_Interval nat
  | Get_Version
  | Set_Lp_Mode
  | Set_Interval_1s
  | Tracking

text \<open>
  The globals of \<open>app.c\<close>, the static \<open>count\<close> of \<open>LED_Blink\<close>, the driver's state, and the device: whether
  the module is open, the milliseconds slept and the time at which the watchdog resets the device.
\<close>

record tracker =
  driver :: gps_state
  isGpsOn :: bool
  networkFlag :: bool
  falseGPS :: bool
  prev_lat :: rat
  prev_long :: rat
  motion :: bool
  restart_flag :: bool
  init_done_flag :: bool
  is_Fixed_flag :: bool
  low_pow_mode_flag :: bool
  int_status :: bool
  led_status :: led
  blink_count :: int
  task_at :: task_pc
  module_open :: bool
  slept :: nat
  dog :: "nat option"
  acts :: "sdk_act list"

text \<open>
  The SDK: the results of \<open>Network_GetAttachStatus\<close> and \<open>Network_GetActiveStatus\<close>, \<open>None\<close> when the call
  fails and leaves its output as it was; the IMEI; battery and clock; the network; and the text \<open>%f\<close>
  makes of the structure passed for the altitude.
\<close>

record tracker_env =
  te_gps :: gps_env
  te_attach :: "int option"
  te_active :: "int option"
  te_imei :: "byte list option"
  te_percent :: int
  te_time :: int
  te_net :: net_env
  te_alt :: "minmea_float \<Rightarrow> byte list"

definition SYSTEM_STATUS_LED :: nat where "SYSTEM_STATUS_LED = 27"
definition UPLOAD_DATA_LED :: nat where "UPLOAD_DATA_LED = 28"

definition do_acts :: "sdk_act list \<Rightarrow> tracker \<Rightarrow> tracker" where
  "do_acts as t = t\<lparr>acts := acts t @ as\<rparr>"

definition os_sleep :: "nat \<Rightarrow> tracker \<Rightarrow> tracker" where
  "os_sleep ms t = do_acts [Sleep ms] (t\<lparr>slept := slept t + ms\<rparr>)"

definition gps_open :: "tracker \<Rightarrow> tracker" where
  "gps_open t = do_acts [Gps_Open] (t\<lparr>module_open := True\<rparr>)"

definition gps_close :: "tracker \<Rightarrow> tracker" where
  "gps_close t = do_acts [Gps_Close] (t\<lparr>module_open := False\<rparr>)"

section \<open>The event task\<close>

datatype api_event =
    No_Simcard
  | Register_Searching
  | Register_Denied
  | Register_No
  | Gps_Uart_Received "byte list"
  | Registered_Home
  | Registered_Roaming
  | Attached
  | Activated
  | Uart_Received nat "byte list"
  | Key_Down int
  | Other_Event

abbreviation bsnl_apn :: "byte list" where
  "bsnl_apn \<equiv> ''bsnlnet''"

text \<open>
  The first thing \<open>GPS_Update\<close> does is a remainder by the ring's size, which is zero until \<open>GPS_Init\<close>.
\<close>

definition receive_gps :: "gps_env \<Rightarrow> byte list \<Rightarrow> gps_state \<Rightarrow> gps_state result option" where
  "receive_gps env data st =
     (if maxSize (gpsNmeaBuffer st) = 0 then Some (Inl Division_By_Zero) else GPS_Update env data st)"

text \<open>The status read is uninitialised when \<open>Network_GetAttachStatus\<close> fails.\<close>

definition registered :: "tracker_env \<Rightarrow> tracker \<Rightarrow> tracker result" where
  "registered env t =
     (case te_attach env of
        None \<Rightarrow> Inl Uninitialised_Read
      | Some status \<Rightarrow>
          Inr (if status = 0 then do_acts [Start_Attach] t else do_acts [Start_Active bsnl_apn] t))"

definition EventDispatch :: "tracker_env \<Rightarrow> api_event \<Rightarrow> tracker \<Rightarrow> tracker result option" where
  "EventDispatch env ev t =
     (case ev of
        No_Simcard \<Rightarrow> Some (Inr (t\<lparr>networkFlag := False, led_status := LED_NO_NETWORK\<rparr>))
      | Register_Searching \<Rightarrow> Some (Inr (t\<lparr>networkFlag := False, led_status := LED_NO_NETWORK\<rparr>))
      | Register_Denied \<Rightarrow> Some (Inr t)
      | Register_No \<Rightarrow> Some (Inr t)
      | Gps_Uart_Received data \<Rightarrow>
          map_option (\<lambda>r. rbind r (\<lambda>g. Inr (t\<lparr>driver := g\<rparr>))) (receive_gps (te_gps env) data (driver t))
      | Registered_Home \<Rightarrow> Some (registered env t)
      | Registered_Roaming \<Rightarrow> Some (registered env t)
      | Attached \<Rightarrow> Some (Inr (do_acts [Start_Active bsnl_apn] t))
      | Activated \<Rightarrow> Some (Inr (t\<lparr>networkFlag := True\<rparr>))
      | Uart_Received port data \<Rightarrow>
          Some (Inr
            (if port = 1 then
               if cstr data = ''close'' then (gps_close t)\<lparr>isGpsOn := False\<rparr>
               else if cstr data = ''open'' then (gps_open t)\<lparr>isGpsOn := True\<rparr>
               else t
             else t))
      | Key_Down key \<Rightarrow> Some (Inr t)
      | Other_Event \<Rightarrow> Some (Inr t))"

text \<open>One turn of the event loop of \<open>gps_MainTask\<close>.\<close>

definition event_turn :: "tracker_env \<Rightarrow> api_event \<Rightarrow> tracker \<Rightarrow> tracker result option" where
  "event_turn env ev t =
     map_option (\<lambda>r. rbind r (\<lambda>t1.
         let t2 = (if restart_flag t1 then do_acts [Reboot] t1 else t1)
         in Inr (if isGpsOn t2 \<and> networkFlag t2 then t2\<lparr>led_status := LED_SYS_ON\<rparr> else t2)))
       (EventDispatch env ev t)"

section \<open>The blink timer\<close>

text \<open>The tick at which the LED is switched on; it is switched off one tick later.\<close>

definition blink_at :: "led \<Rightarrow> int option" where
  "blink_at l = (case l of LED_SYS_ON \<Rightarrow> Some 10 | LED_NO_NETWORK \<Rightarrow> Some 2 | LED_NO_GPS \<Rightarrow> Some 4 | LED_NO_FIX \<Rightarrow> None)"

definition LED_Blink :: "tracker \<Rightarrow> tracker" where
  "LED_Blink t =
     do_acts [Start_Timer 1000]
       (case blink_at (led_status t) of
          None \<Rightarrow> t
        | Some n \<Rightarrow>
            (let c = s32 (blink_count t + 1)
             in if c = n then do_acts [Gpio_Set SYSTEM_STATUS_LED True] (t\<lparr>blink_count := c\<rparr>)
                else if c = n + 1 then do_acts [Gpio_Set SYSTEM_STATUS_LED False] (t\<lparr>blink_count := 0\<rparr>)
                else t\<lparr>blink_count := c\<rparr>))"

section \<open>One position\<close>

text \<open>\<open>ddmm.mmmm\<close> to degrees, with \<open>int\<close> arithmetic for the degrees and \<open>double\<close> for the rest.\<close>

definition degrees :: "minmea_float \<Rightarrow> rat result" where
  "degrees f =
     (if mf_scale f = 0 then Inl Division_By_Zero
      else
        let temp = s32 ((mf_value f sdiv mf_scale f) sdiv 100);
            rest = s32 (mf_value f - s32 (s32 (temp * mf_scale f) * 100))
        in Inr (dadd (of_int temp) (ddiv (ddiv (of_int rest) (of_int (mf_scale f))) 60)))"

text \<open>
  \<open>isFixed\<close>, \<open>isFixedStr\<close> and \<open>is_Fixed_flag\<close>; the pointer stays uninitialised for a three-dimensional
  fix of another quality.
\<close>

definition fix_state :: "GPS_Info \<Rightarrow> int \<times> byte list option \<times> bool" where
  "fix_state info =
     (let f0 = gsa_fix_type (g_gsa info ! 0); f1 = gsa_fix_type (g_gsa info ! 1);
          isFixed = u8 (if f0 > f1 then f0 else f1); q = gga_fix_quality (g_gga info)
      in if isFixed = 2 then (isFixed, Some ''2D Fix'', True)
         else if isFixed = 3 then
           (isFixed, if q = 1 then Some ''3D Fix'' else if q = 2 then Some ''3D/DGPS fix'' else None, True)
         else (isFixed, Some ''no fix'', False))"

definition report_text :: "GPS_Info \<Rightarrow> byte list \<Rightarrow> rat \<Rightarrow> rat \<Rightarrow> byte list \<Rightarrow> byte list" where
  "report_text info fixed lat lon alt =
     snprintf 1024
       (''GPS fix mode:'' @ fmt_d (gsa_fix_type (g_gsa info ! 0)) @ '', BDS fix mode:'' @ fmt_d (gsa_fix_type (g_gsa info ! 1))
        @ '', fix quality:'' @ fmt_d (gga_fix_quality (g_gga info))
        @ '', satellites tracked:'' @ fmt_d (gga_satellites_tracked (g_gga info))
        @ '', gps sates total:'' @ fmt_d (gsv_total_sats (g_gsv info ! 0)) @ '', is fixed:'' @ fixed
        @ '', coordinate:WGS84, Latitude:'' @ fmt_f 6 lat @ '', Longitude:'' @ fmt_f 6 lon
        @ '', unit:degree,altitude:'' @ alt)"

definition request_path :: "byte list \<Rightarrow> int \<Rightarrow> rat \<Rightarrow> rat \<Rightarrow> int \<Rightarrow> byte list \<Rightarrow> int \<Rightarrow> byte list" where
  "request_path imei stamp lat lon isFixed alt percent =
     snprintf 400
       (''/?id='' @ imei @ ''&timestamp='' @ fmt_d stamp @ ''&lat='' @ fmt_f 6 lat @ ''&lon='' @ fmt_f 6 lon
        @ ''&speed='' @ fmt_f 6 (of_int isFixed) @ ''&bearing='' @ fmt_f 1 0 @ ''&altitude='' @ alt
        @ ''&accuracy='' @ fmt_f 1 0 @ ''&batt='' @ fmt_f 1 (of_int percent))"

text \<open>The plausibility test against the previous position, and the test for motion.\<close>

definition near :: "rat \<Rightarrow> rat \<Rightarrow> bool" where
  "near x prev \<longleftrightarrow> dmul \<bar>dsub x prev\<bar> 1000 < 10"

definition check_position :: "rat \<Rightarrow> rat \<Rightarrow> tracker \<Rightarrow> tracker" where
  "check_position lat lon t =
     (if prev_lat t > 0 \<and> prev_long t > 0 then
        t\<lparr>falseGPS := \<not> (near lat (prev_lat t) \<and> near lon (prev_long t)),
          motion := \<not> (dsub lat (prev_lat t) = 0 \<and> dsub lon (prev_long t) = 0)\<rparr>
      else t)"

abbreviation SERVER_IP :: "byte list" where
  "SERVER_IP \<equiv> ''demo3.traccar.org''"

definition padded_buffer :: "nat \<Rightarrow> byte list \<Rightarrow> byte list" where
  "padded_buffer n s = take n (s @ replicate n NUL)"

definition upload :: "tracker_env \<Rightarrow> byte list \<Rightarrow> byte list \<Rightarrow> tracker \<Rightarrow> tracker option" where
  "upload env path imei t =
     (case Http_Post (te_net env) SERVER_IP 5055 path [] (padded_buffer 1024 imei) of
        None \<Rightarrow> None
      | Some (ret, _, net) \<Rightarrow>
          Some (do_acts [Gpio_Set UPLOAD_DATA_LED True, Http net, Gpio_Set UPLOAD_DATA_LED False] t))"

text \<open>The body of the loop while the module is on.\<close>

definition track_position :: "tracker_env \<Rightarrow> tracker \<Rightarrow> tracker result option" where
  "track_position env t =
     (let info = Gps_GetInfo (gps_parser (driver t)); (isFixed, fixed, flag) = fix_state info;
          alt = te_alt env (gga_altitude (g_gga info)); t1 = t\<lparr>is_Fixed_flag := flag\<rparr>
      in case rbind (degrees (rmc_latitude (g_rmc info))) (\<lambda>lat.
              rbind (degrees (rmc_longitude (g_rmc info))) (\<lambda>lon. Inr (lat, lon))) of
           Inl e \<Rightarrow> Some (Inl e)
         | Inr (lat, lon) \<Rightarrow>
             (case fixed of
                None \<Rightarrow> Some (Inl Uninitialised_Read)
              | Some text \<Rightarrow>
                  (case te_imei env of
                     None \<Rightarrow> Some (Inl (Assertion_Failed ''NO IMEI''))
                   | Some imei \<Rightarrow>
                       (let t2 = do_acts [Uart_Write (report_text info text lat lon alt), Uart_Write (CRLF @ CRLF),
                                          Uart_Write imei] t1;
                            path = request_path imei (te_time env) lat lon isFixed alt (te_percent env);
                            t3 = check_position lat lon t2
                        in case te_active env of
                             None \<Rightarrow> Some (Inl Uninitialised_Read)
                           | Some status \<Rightarrow>
                               map_option (\<lambda>t4. Inr (t4\<lparr>prev_lat := lat, prev_long := lon\<rparr>))
                                 (if status \<noteq> 0 \<and> \<not> falseGPS t3 then upload env path imei t3 else Some t3)))))"

definition feed_dog :: "tracker \<Rightarrow> tracker" where
  "feed_dog t = do_acts [Watchdog_Feed] (t\<lparr>dog := Some (slept t + 180000)\<rparr>)"

definition track_turn :: "tracker_env \<Rightarrow> tracker \<Rightarrow> tracker result option" where
  "track_turn env t =
     map_option (\<lambda>r. rbind r (\<lambda>t1.
         let t2 = do_acts [Min_Freq_32K] (feed_dog t1);
             t3 = os_sleep (if motion t2 then 2000 else 60000 * 2) t2
         in Inr (do_acts [Min_Freq_178M] t3)))
       (if isGpsOn t then track_position env t else Some (Inr t))"

section \<open>Start-up\<close>

abbreviation GPS_NMEA_LOG_FILE_PATH :: "byte list" where
  "GPS_NMEA_LOG_FILE_PATH \<equiv> ''/t/gps_nmea.log''"

text \<open>A command of the driver, with the bytes and timers that come while it waits.\<close>

definition gps_cmd :: "'a exchange \<Rightarrow> gps_event list \<Rightarrow> ('a \<Rightarrow> tracker \<Rightarrow> tracker) \<Rightarrow> tracker \<Rightarrow> tracker result option" where
  "gps_cmd cmd evs k t =
     map_option (\<lambda>r. rbind r (\<lambda>(a, _, g). Inr (k a (t\<lparr>driver := g\<rparr>)))) (cmd evs (driver t))"

text \<open>One step of \<open>gps_testTask\<close>: up to the next sleep, or one command, or one turn of its loop.\<close>

definition task_step :: "tracker_env \<Rightarrow> gps_event list \<Rightarrow> tracker \<Rightarrow> tracker result option" where
  "task_step env evs t =
     (case task_at t of
        Boot \<Rightarrow>
          Some (Inr (do_acts [Uart_Write (''Init now'' @ CRLF), Watchdog_Open 180]
            (t\<lparr>dog := Some (slept t + 180000), task_at := Wait_Network\<rparr>)))
      | Wait_Network \<Rightarrow>
          Some (Inr
            (if networkFlag t then
               gps_open (t\<lparr>driver := GPS_SaveLog True (Some GPS_NMEA_LOG_FILE_PATH) (GPS_Init (driver t)),
                           task_at := Wait_Position\<rparr>)
             else os_sleep 2000 (do_acts [Uart_Write (''wait for gprs regiter complete'' @ CRLF)] t)))
      | Wait_Position \<Rightarrow>
          Some (Inr
            (if mf_value (rmc_latitude (g_rmc (Gps_GetInfo (gps_parser (driver t))))) = 0 then os_sleep 1000 t
             else t\<lparr>task_at := Set_Interval 0\<rparr>))
      | Set_Interval i \<Rightarrow>
          if i < 5 then
            gps_cmd (GPS_SetOutputInterval (te_gps env) 10000) evs
              (\<lambda>ret t. if ret then t\<lparr>task_at := Get_Version\<rparr> else os_sleep 1000 (t\<lparr>task_at := Set_Interval (i + 1)\<rparr>)) t
          else Some (Inr (t\<lparr>task_at := Get_Version\<rparr>))
      | Get_Version \<Rightarrow>
          gps_cmd (GPS_GetVersion (te_gps env) 150) evs (\<lambda>_ t. t\<lparr>task_at := Set_Lp_Mode\<rparr>) t
      | Set_Lp_Mode \<Rightarrow>
          gps_cmd (GPS_SetLpMode (te_gps env) 9) evs (\<lambda>_ t. t\<lparr>task_at := Set_Interval_1s\<rparr>) t
      | Set_Interval_1s \<Rightarrow>
          gps_cmd (GPS_SetOutputInterval (te_gps env) 1000) evs
            (\<lambda>_ t. do_acts [Uart_Write (''Init ok'' @ CRLF)] (t\<lparr>init_done_flag := True, task_at := Tracking\<rparr>)) t
      | Tracking \<Rightarrow> track_turn env t)"

text \<open>The globals at power-on.\<close>

definition tracker0 :: tracker where
  "tracker0 =
     \<lparr>driver = gps_state0, isGpsOn = True, networkFlag = False, falseGPS = True, prev_lat = 0, prev_long = 0,
      motion = True, restart_flag = False, init_done_flag = False, is_Fixed_flag = False, low_pow_mode_flag = False, int_status = False,
      led_status = LED_SYS_ON, blink_count = 0, task_at = Boot, module_open = False, slept = 0, dog = None,
      acts = []\<rparr>"

section \<open>The running tracker\<close>

text \<open>
  The position task, the event task and the blink timer take turns; bytes from the module arrive only
  while it is open. What the SDK answers may differ in every step.
\<close>

inductive turn :: "tracker \<Rightarrow> tracker \<Rightarrow> bool" where
  position: "task_step env evs t = Some (Inr t') \<Longrightarrow> turn t t'"
| event: "event_turn env ev t = Some (Inr t') \<Longrightarrow> (\<forall>d. ev = Gps_Uart_Received d \<longrightarrow> module_open t) \<Longrightarrow> turn t t'"
| blink: "turn t (LED_Blink t)"

text \<open>The states the tracker reaches without leaving \<open>V\<close>.\<close>

inductive reachable_within :: "(tracker \<Rightarrow> bool) \<Rightarrow> tracker \<Rightarrow> bool" for V where
  start: "V tracker0 \<Longrightarrow> reachable_within V tracker0"
| step: "reachable_within V t \<Longrightarrow> turn t t' \<Longrightarrow> V t' \<Longrightarrow> reachable_within V t'"

abbreviation reachable :: "tracker \<Rightarrow> bool" where
  "reachable \<equiv> reachable_within (\<lambda>_. True)"

lemma do_acts_simps [simp]:
  "driver (do_acts as t) = driver t" "isGpsOn (do_acts as t) = isGpsOn t" "networkFlag (do_acts as t) = networkFlag t"
  "falseGPS (do_acts as t) = falseGPS t" "prev_lat (do_acts as t) = prev_lat t" "prev_long (do_acts as t) = prev_long t"
  "motion (do_acts as t) = motion t" "restart_flag (do_acts as t) = restart_flag t"
  "init_done_flag (do_acts as t) = init_done_flag t" "led_status (do_acts as t) = led_status t"
  "is_Fixed_flag (do_acts as t) = is_Fixed_flag t" "blink_count (do_acts as t) = blink_count t"
  "task_at (do_acts as t) = task_at t" "module_open (do_acts as t) = module_open t" "slept (do_acts as t) = slept t"
  "dog (do_acts as t) = dog t" "acts (do_acts as t) = acts t @ as"
  by (simp_all add: do_acts_def)

lemma os_sleep_simps [simp]:
  "driver (os_sleep n t) = driver t" "restart_flag (os_sleep n t) = restart_flag t" "led_status (os_sleep n t) = led_status t"
  "task_at (os_sleep n t) = task_at t" "slept (os_sleep n t) = slept t + n" "dog (os_sleep n t) = dog t"
  "acts (os_sleep n t) = acts t @ [Sleep n]" "module_open (os_sleep n t) = module_open t"
  "falseGPS (os_sleep n t) = falseGPS t" "prev_lat (os_sleep n t) = prev_lat t" "prev_long (os_sleep n t) = prev_long t"
  "init_done_flag (os_sleep n t) = init_done_flag t" "networkFlag (os_sleep n t) = networkFlag t"
  by (simp_all add: os_sleep_def)

lemma gps_switch_simps [simp]:
  "driver (gps_open t) = driver t" "restart_flag (gps_open t) = restart_flag t" "led_status (gps_open t) = led_status t"
  "task_at (gps_open t) = task_at t" "slept (gps_open t) = slept t" "dog (gps_open t) = dog t"
  "acts (gps_open t) = acts t @ [Gps_Open]" "init_done_flag (gps_open t) = init_done_flag t"
  "driver (gps_close t) = driver t" "restart_flag (gps_close t) = restart_flag t" "led_status (gps_close t) = led_status t"
  "task_at (gps_close t) = task_at t" "slept (gps_close t) = slept t" "dog (gps_close t) = dog t"
  "acts (gps_close t) = acts t @ [Gps_Close]" "init_done_flag (gps_close t) = init_done_flag t"
  by (simp_all add: gps_open_def gps_close_def)

text \<open>The driver before and after its initialisation.\<close>

definition initialised :: "tracker \<Rightarrow> bool" where
  "initialised t \<longleftrightarrow> task_at t \<noteq> Boot \<and> task_at t \<noteq> Wait_Network"

definition driver_ok :: "tracker \<Rightarrow> bool" where
  "driver_ok t \<longleftrightarrow> semCmdSending (driver t) = None \<and>
     (if initialised t then gps_ok (driver t)
      else parse_ok (gps_parser (driver t)) \<and> maxSize (gpsNmeaBuffer (driver t)) = 0)"

lemma GPS_SetOutputInterval_ok:
  "GPS_SetOutputInterval env ms evs g = Some (Inr (ok, evs', g')) \<Longrightarrow> gps_ok g \<Longrightarrow> gps_ok g' \<and> semCmdSending g' = None"
  unfolding GPS_SetOutputInterval_def send_nmea_def by (rule GPS_SendWaiteNormalAck_ok)

lemma GPS_SetLpMode_ok:
  "GPS_SetLpMode env m evs g = Some (Inr (ok, evs', g')) \<Longrightarrow> gps_ok g \<Longrightarrow> gps_ok g' \<and> semCmdSending g' = None"
  unfolding GPS_SetLpMode_def send_nmea_def by (rule GPS_SendWaiteNormalAck_ok)

lemma GPS_GetVersion_ok:
  "GPS_GetVersion env n evs g = Some (Inr (v, evs', g')) \<Longrightarrow> gps_ok g \<Longrightarrow> gps_ok g' \<and> semCmdSending g' = None"
  by (auto simp: GPS_GetVersion_def rbind_Inr split: if_splits option.splits dest!: GPS_SendCMDWaitAck_ok)

text \<open>A successful command step: the driver stays well-formed, and the continuation decides the rest.\<close>

lemma gps_cmd_Inr:
  "gps_cmd cmd evs k t = Some (Inr t') \<longleftrightarrow> (\<exists>a evs' g. cmd evs (driver t) = Some (Inr (a, evs', g)) \<and> t' = k a (t\<lparr>driver := g\<rparr>))"
  by (auto simp: gps_cmd_def rbind_Inr)

section \<open>What the turns leave alone\<close>

definition quiet :: "sdk_act \<Rightarrow> bool" where
  "quiet a \<longleftrightarrow> (case a of Reboot \<Rightarrow> False | Watchdog_Feed \<Rightarrow> False | Http _ \<Rightarrow> False | _ \<Rightarrow> True)"

lemma quiet_simps [simp]:
  "\<not> quiet Reboot" "\<not> quiet Watchdog_Feed" "\<not> quiet (Http n)" "quiet Start_Attach" "quiet (Start_Active a)"
  "quiet Gps_Open" "quiet Gps_Close" "quiet (Uart_Write bs)" "quiet (Gpio_Set p b)" "quiet (Start_Timer k)"
  "quiet (Watchdog_Open k)" "quiet (Sleep k)" "quiet Min_Freq_32K" "quiet Min_Freq_178M"
  by (simp_all add: quiet_def)

text \<open>The state the timer and the event task keep away from, and what they add to the record.\<close>

definition same_task :: "tracker \<Rightarrow> tracker \<Rightarrow> bool" where
  "same_task t t' \<longleftrightarrow> restart_flag t' = restart_flag t \<and> task_at t' = task_at t \<and> slept t' = slept t \<and> dog t' = dog t
    \<and> init_done_flag t' = init_done_flag t \<and> falseGPS t' = falseGPS t \<and> motion t' = motion t
    \<and> prev_lat t' = prev_lat t \<and> prev_long t' = prev_long t
    \<and> (\<exists>as. acts t' = acts t @ as \<and> list_all quiet as)"

lemma os_sleep_simps2 [simp]: "motion (os_sleep n t) = motion t" "isGpsOn (os_sleep n t) = isGpsOn t"
  by (simp_all add: os_sleep_def)

lemma gps_switch_simps2 [simp]:
  "falseGPS (gps_open t) = falseGPS t" "motion (gps_open t) = motion t" "prev_lat (gps_open t) = prev_lat t"
  "prev_long (gps_open t) = prev_long t" "falseGPS (gps_close t) = falseGPS t" "motion (gps_close t) = motion t"
  "prev_lat (gps_close t) = prev_lat t" "prev_long (gps_close t) = prev_long t"
  by (simp_all add: gps_open_def gps_close_def)

lemma LED_Blink_frame: "same_task t (LED_Blink t)"
  by (simp add: same_task_def LED_Blink_def Let_def split: option.split)

lemma LED_Blink_driver [simp]: "driver (LED_Blink t) = driver t" "led_status (LED_Blink t) = led_status t"
  by (simp_all add: LED_Blink_def Let_def split: option.split)

lemma same_task_simps [simp]:
  "same_task t t" "same_task t (t\<lparr>driver := g\<rparr>)" "same_task t (t\<lparr>networkFlag := b\<rparr>)"
  "same_task t (t\<lparr>networkFlag := b, led_status := l\<rparr>)"
  "same_task t (do_acts as t) \<longleftrightarrow> list_all quiet as"
  "same_task t ((gps_close t)\<lparr>isGpsOn := b\<rparr>)" "same_task t ((gps_open t)\<lparr>isGpsOn := b\<rparr>)"
  by (auto simp: same_task_def)

lemma registered_frame: "registered env t = Inr t' \<Longrightarrow> same_task t t'"
  by (auto simp: registered_def split: option.splits if_splits)

lemma EventDispatch_frame:
  assumes "EventDispatch env ev t = Some (Inr t')"
  shows "same_task t t'"
proof (cases ev)
  case (Gps_Uart_Received data)
  then show ?thesis using assms by (auto simp: EventDispatch_def rbind_Inr)
next
  case (Uart_Received p data)
  then show ?thesis using assms by (auto simp: EventDispatch_def split: if_splits)
qed (use assms in \<open>auto simp: EventDispatch_def intro: registered_frame\<close>)

lemma same_task_led [simp]: "same_task t (t1\<lparr>led_status := l\<rparr>) = same_task t t1"
  by (simp add: same_task_def)

text \<open>A turn of the event loop: the dispatcher, and the status LED.\<close>

lemma event_turn_Inr:
  assumes "event_turn env ev t = Some (Inr t')" "\<not> restart_flag t"
  shows "\<exists>t1. EventDispatch env ev t = Some (Inr t1)
    \<and> t' = (if isGpsOn t1 \<and> networkFlag t1 then t1\<lparr>led_status := LED_SYS_ON\<rparr> else t1)"
proof -
  obtain t1 where t1: "EventDispatch env ev t = Some (Inr t1)"
    and t': "Inr t' = (let t2 = (if restart_flag t1 then do_acts [Reboot] t1 else t1)
         in Inr (if isGpsOn t2 \<and> networkFlag t2 then t2\<lparr>led_status := LED_SYS_ON\<rparr> else t2) :: tracker result)"
    using assms(1) unfolding event_turn_def by (cases "EventDispatch env ev t") (auto simp: rbind_def split: sum.splits)
  have "\<not> restart_flag t1" using EventDispatch_frame [OF t1] assms(2) by (simp add: same_task_def)
  then have "t' = (if isGpsOn t1 \<and> networkFlag t1 then t1\<lparr>led_status := LED_SYS_ON\<rparr> else t1)"
    using t' by (simp only: Let_def if_False sum.inject)
  with t1 show ?thesis by blast
qed

lemma event_turn_frame:
  assumes "event_turn env ev t = Some (Inr t')" "\<not> restart_flag t"
  shows "same_task t t'"
proof -
  obtain t1 where t1: "EventDispatch env ev t = Some (Inr t1)"
    and t': "t' = (if isGpsOn t1 \<and> networkFlag t1 then t1\<lparr>led_status := LED_SYS_ON\<rparr> else t1)"
    using event_turn_Inr [OF assms] by blast
  show ?thesis unfolding t' using EventDispatch_frame [OF t1] by simp
qed

section \<open>The position task\<close>

text \<open>A fix is written to the UART, and sent when the network is active and the position plausible.\<close>

definition report_acts :: "tracker_env \<Rightarrow> GPS_Info \<Rightarrow> byte list \<Rightarrow> rat \<Rightarrow> rat \<Rightarrow> byte list \<Rightarrow> sdk_act list" where
  "report_acts env info msg lat lon imei =
     [Uart_Write (report_text info msg lat lon (te_alt env (gga_altitude (g_gga info)))), Uart_Write (CRLF @ CRLF),
      Uart_Write imei]"

lemma check_position_do_acts:
  "check_position a b (do_acts as t) = do_acts as (check_position a b t)"
  by (simp add: check_position_def do_acts_def)

lemma check_position_frame [simp]:
  "driver (check_position a b t) = driver t" "restart_flag (check_position a b t) = restart_flag t"
  "led_status (check_position a b t) = led_status t" "task_at (check_position a b t) = task_at t"
  "slept (check_position a b t) = slept t" "dog (check_position a b t) = dog t" "acts (check_position a b t) = acts t"
  "init_done_flag (check_position a b t) = init_done_flag t" "prev_lat (check_position a b t) = prev_lat t"
  "prev_long (check_position a b t) = prev_long t" "isGpsOn (check_position a b t) = isGpsOn t"
  by (simp_all add: check_position_def)

text \<open>One position, when nothing faults: what is recorded, and the state afterwards.\<close>

lemma track_position_Inr:
  assumes "track_position env t = Some (Inr t')"
  obtains lat lon isFixed msg flag imei status net where
    "degrees (rmc_latitude (g_rmc (Gps_GetInfo (gps_parser (driver t))))) = Inr lat"
    "degrees (rmc_longitude (g_rmc (Gps_GetInfo (gps_parser (driver t))))) = Inr lon"
    "fix_state (Gps_GetInfo (gps_parser (driver t))) = (isFixed, Some msg, flag)"
    "te_imei env = Some imei" "te_active env = Some status"
    "falseGPS t' = falseGPS (check_position lat lon t)" "motion t' = motion (check_position lat lon t)"
    "prev_lat t' = lat" "prev_long t' = lon" "is_Fixed_flag t' = flag"
    "driver t' = driver t \<and> restart_flag t' = restart_flag t \<and> led_status t' = led_status t \<and> task_at t' = task_at t
      \<and> slept t' = slept t \<and> dog t' = dog t \<and> init_done_flag t' = init_done_flag t"
    "acts t' = acts t @ report_acts env (Gps_GetInfo (gps_parser (driver t))) msg lat lon imei
      @ (if status \<noteq> 0 \<and> \<not> falseGPS t' then [Gpio_Set UPLOAD_DATA_LED True, Http net, Gpio_Set UPLOAD_DATA_LED False] else [])"
    "status \<noteq> 0 \<and> \<not> falseGPS t' \<longrightarrow> (\<exists>ret buf. Http_Post (te_net env) SERVER_IP 5055
       (request_path imei (te_time env) lat lon isFixed (te_alt env (gga_altitude (g_gga (Gps_GetInfo (gps_parser (driver t))))))
          (te_percent env)) [] (padded_buffer 1024 imei) = Some (ret, buf, net))"
proof -
  define info where "info = Gps_GetInfo (gps_parser (driver t))"
  obtain isFixed fixed flag where f: "fix_state info = (isFixed, fixed, flag)" by (cases "fix_state info")
  define t1 where "t1 = t\<lparr>is_Fixed_flag := flag\<rparr>"
  let ?alt = "te_alt env (gga_altitude (g_gga info))"
  note a = assms [unfolded track_position_def Let_def info_def [symmetric] f prod.case t1_def [symmetric]]
  obtain lat lon where d: "degrees (rmc_latitude (g_rmc info)) = Inr lat" "degrees (rmc_longitude (g_rmc info)) = Inr lon"
    using a by (auto simp: rbind_def split: sum.splits)
  obtain msg where msg: "fixed = Some msg" using a by (cases fixed) (auto simp: d rbind_def)
  obtain imei where imei: "te_imei env = Some imei" using a by (cases "te_imei env") (auto simp: d rbind_def msg)
  obtain status where status: "te_active env = Some status"
    using a by (cases "te_active env") (auto simp: d rbind_def msg imei)
  define t3 where "t3 = check_position lat lon (do_acts (report_acts env info msg lat lon imei) t1)"
  let ?up = "upload env (request_path imei (te_time env) lat lon isFixed ?alt (te_percent env)) imei t3"
  obtain t4 where t4: "(if status \<noteq> 0 \<and> \<not> falseGPS t3 then ?up else Some t3) = Some t4"
    and t': "t' = t4\<lparr>prev_lat := lat, prev_long := lon\<rparr>"
    using a unfolding d msg imei status rbind_def sum.case option.case prod.case report_acts_def [symmetric] t3_def [symmetric]
    by (auto simp del: if_split)
  have t3: "t3 = do_acts (report_acts env info msg lat lon imei) (check_position lat lon t1)"
    by (simp add: t3_def check_position_do_acts)
  have c: "falseGPS (check_position lat lon t1) = falseGPS (check_position lat lon t)"
    "motion (check_position lat lon t1) = motion (check_position lat lon t)"
    "is_Fixed_flag (check_position lat lon t1) = flag"
    by (simp_all add: check_position_def t1_def)
  have t1: "driver t1 = driver t" "restart_flag t1 = restart_flag t" "led_status t1 = led_status t" "task_at t1 = task_at t"
    "slept t1 = slept t" "dog t1 = dog t" "init_done_flag t1 = init_done_flag t" "acts t1 = acts t"
    by (simp_all add: t1_def)
  obtain net where net: "t4 = do_acts (if status \<noteq> 0 \<and> \<not> falseGPS t3 then [Gpio_Set UPLOAD_DATA_LED True, Http net, Gpio_Set UPLOAD_DATA_LED False] else []) t3"
    "status \<noteq> 0 \<and> \<not> falseGPS t3 \<longrightarrow> (\<exists>ret buf. Http_Post (te_net env) SERVER_IP 5055
       (request_path imei (te_time env) lat lon isFixed ?alt (te_percent env)) [] (padded_buffer 1024 imei) = Some (ret, buf, net))"
    using t4 by (auto simp: upload_def do_acts_def split: if_splits option.splits)
  show ?thesis
    by (rule that [of lat lon isFixed msg flag imei status net])
      (use d f msg imei status net(2) in \<open>simp_all add: info_def [symmetric] t' net(1) t3 c t1\<close>)
qed

lemma track_turn_Inr:
  assumes "track_turn env t = Some (Inr t')"
  obtains t1 where "(if isGpsOn t then track_position env t else Some (Inr t)) = Some (Inr t1)"
    "t' = do_acts [Min_Freq_178M] (os_sleep (if motion t1 then 2000 else 120000) (do_acts [Min_Freq_32K] (feed_dog t1)))"
proof -
  obtain t1 where t1: "(if isGpsOn t then track_position env t else Some (Inr t)) = Some (Inr t1)"
    "Inr t' = (let t2 = do_acts [Min_Freq_32K] (feed_dog t1); t3 = os_sleep (if motion t2 then 2000 else 60000 * 2) t2
         in Inr (do_acts [Min_Freq_178M] t3) :: tracker result)"
    using assms unfolding track_turn_def
    by (cases "if isGpsOn t then track_position env t else Some (Inr t)") (auto simp: rbind_def simp del: if_split split: sum.splits)
  have m: "motion (feed_dog t1) = motion t1" by (simp add: feed_dog_def)
  show ?thesis using that [OF t1(1)] t1(2) by (simp add: Let_def m)
qed

lemma feed_dog_simps [simp]:
  "driver (feed_dog t) = driver t" "restart_flag (feed_dog t) = restart_flag t" "led_status (feed_dog t) = led_status t"
  "task_at (feed_dog t) = task_at t" "slept (feed_dog t) = slept t" "dog (feed_dog t) = Some (slept t + 180000)"
  "acts (feed_dog t) = acts t @ [Watchdog_Feed]" "init_done_flag (feed_dog t) = init_done_flag t"
  "falseGPS (feed_dog t) = falseGPS t" "motion (feed_dog t) = motion t" "prev_lat (feed_dog t) = prev_lat t"
  "prev_long (feed_dog t) = prev_long t"
  by (simp_all add: feed_dog_def)

section \<open>Invariants\<close>

text \<open>What holds at power-on and is kept by every turn holds in every state that is reached.\<close>

locale kept =
  fixes V :: "tracker \<Rightarrow> bool" and I :: "tracker \<Rightarrow> bool"
  assumes initially: "V tracker0 \<Longrightarrow> I tracker0"
    and task_keeps: "V t \<Longrightarrow> I t \<Longrightarrow> task_step env evs t = Some (Inr t') \<Longrightarrow> V t' \<Longrightarrow> I t'"
    and event_keeps: "V t \<Longrightarrow> I t \<Longrightarrow> event_turn env ev t = Some (Inr t') \<Longrightarrow>
      (\<forall>d. ev = Gps_Uart_Received d \<longrightarrow> module_open t) \<Longrightarrow> V t' \<Longrightarrow> I t'"
    and blink_keeps: "V t \<Longrightarrow> I t \<Longrightarrow> V (LED_Blink t) \<Longrightarrow> I (LED_Blink t)"
begin

lemma always: "reachable_within V t \<Longrightarrow> I t"
proof -
  assume "reachable_within V t"
  then have "V t \<and> I t"
  proof induction
    case start
    then show ?case by (simp add: initially)
  next
    case (step t t')
    from step(2) step(3) step.IH show ?case
      by cases (auto intro: task_keeps event_keeps blink_keeps)
  qed
  then show ?thesis ..
qed

end

text \<open>The well-formedness of the driver and the flags.\<close>

definition tracker_ok :: "tracker \<Rightarrow> bool" where
  "tracker_ok t \<longleftrightarrow> driver_ok t \<and> \<not> restart_flag t \<and> Reboot \<notin> set (acts t)
    \<and> led_status t \<in> {LED_SYS_ON, LED_NO_NETWORK} \<and> (init_done_flag t \<longleftrightarrow> task_at t = Tracking)"

lemma tracker_ok0: "tracker_ok tracker0"
  by (simp add: tracker_ok_def tracker0_def driver_ok_def initialised_def gps_state0_def parse_state0_ok)

lemma GPS_SaveLog_ok [simp]: "gps_ok (GPS_SaveLog b p st) = gps_ok st" "semCmdSending (GPS_SaveLog b p st) = semCmdSending st"
  by (simp_all add: GPS_SaveLog_def gps_ok_def)

lemma event_driver:
  assumes "event_turn env ev t = Some (Inr t')" "\<not> restart_flag t" "driver_ok t" "led_status t \<in> {LED_SYS_ON, LED_NO_NETWORK}"
  shows "driver_ok t' \<and> led_status t' \<in> {LED_SYS_ON, LED_NO_NETWORK}"
proof -
  obtain t1 where t1: "EventDispatch env ev t = Some (Inr t1)"
    and t': "t' = (if isGpsOn t1 \<and> networkFlag t1 then t1\<lparr>led_status := LED_SYS_ON\<rparr> else t1)"
    using event_turn_Inr [OF assms(1,2)] by blast
  have f: "task_at t1 = task_at t" using EventDispatch_frame [OF t1] by (simp add: same_task_def)
  have "driver_ok t1 \<and> led_status t1 \<in> {LED_SYS_ON, LED_NO_NETWORK}"
  proof (cases "\<exists>data. ev = Gps_Uart_Received data")
    case True
    then obtain data g where g: "receive_gps (te_gps env) data (driver t) = Some (Inr g)" "t1 = t\<lparr>driver := g\<rparr>"
      using t1 by (auto simp: EventDispatch_def rbind_Inr)
    then have "maxSize (gpsNmeaBuffer (driver t)) \<noteq> 0" "GPS_Update (te_gps env) data (driver t) = Some (Inr g)"
      by (auto simp: receive_gps_def split: if_splits)
    then show ?thesis using assms(3,4) GPS_Update_ok [of "te_gps env" data "driver t" g] g(2)
      by (auto simp: driver_ok_def initialised_def split: if_splits)
  next
    case False
    then have "driver t1 = driver t \<and> (led_status t1 = led_status t \<or> led_status t1 = LED_NO_NETWORK)"
      using t1 by (cases ev) (auto simp: EventDispatch_def registered_def gps_open_def gps_close_def split: option.splits if_splits)
    then show ?thesis using assms(3,4) f by (auto simp: driver_ok_def initialised_def)
  qed
  then show ?thesis by (auto simp: t' driver_ok_def initialised_def)
qed

lemma same_task_loud: "same_task t t' \<Longrightarrow> \<not> quiet a \<Longrightarrow> a \<in> set (acts t') \<longleftrightarrow> a \<in> set (acts t)"
  by (auto simp: same_task_def list_all_iff)

lemma same_task_flags:
  "same_task t t' \<Longrightarrow> restart_flag t' = restart_flag t \<and> init_done_flag t' = init_done_flag t \<and> task_at t' = task_at t
    \<and> slept t' = slept t \<and> dog t' = dog t \<and> falseGPS t' = falseGPS t \<and> motion t' = motion t"
  by (simp add: same_task_def)

lemma tracker_ok_event:
  assumes "tracker_ok t" "event_turn env ev t = Some (Inr t')"
  shows "tracker_ok t'"
proof -
  have r: "\<not> restart_flag t" using assms(1) by (simp add: tracker_ok_def)
  note f = event_turn_frame [OF assms(2) r]
  show ?thesis
    using event_driver [OF assms(2) r] assms(1) same_task_loud [OF f, of Reboot] same_task_flags [OF f]
    by (simp add: tracker_ok_def)
qed

lemma tracker_ok_blink: "tracker_ok t \<Longrightarrow> tracker_ok (LED_Blink t)"
  using LED_Blink_frame [of t, THEN same_task_flags] LED_Blink_frame [of t, THEN same_task_loud, of Reboot]
  by (simp add: tracker_ok_def driver_ok_def initialised_def)

lemma track_turn_ok:
  assumes "track_turn env t = Some (Inr t')" "tracker_ok t"
  shows "tracker_ok t' \<and> task_at t' = task_at t"
proof -
  obtain t1 where t1: "(if isGpsOn t then track_position env t else Some (Inr t)) = Some (Inr t1)"
    and t': "t' = do_acts [Min_Freq_178M] (os_sleep (if motion t1 then 2000 else 120000) (do_acts [Min_Freq_32K] (feed_dog t1)))"
    using track_turn_Inr [OF assms(1)] by blast
  have f: "driver t1 = driver t \<and> restart_flag t1 = restart_flag t \<and> led_status t1 = led_status t \<and> task_at t1 = task_at t
      \<and> init_done_flag t1 = init_done_flag t \<and> (Reboot \<in> set (acts t1) \<longleftrightarrow> Reboot \<in> set (acts t))"
  proof (cases "isGpsOn t")
    case True
    then have "track_position env t = Some (Inr t1)" using t1 by simp
    then show ?thesis by (rule track_position_Inr) (simp add: report_acts_def)
  next
    case False
    then show ?thesis using t1 by simp
  qed
  then show ?thesis using assms(2) by (auto simp: t' tracker_ok_def driver_ok_def initialised_def)
qed

lemma tracker_ok_sleep [simp]: "tracker_ok (os_sleep n t) = tracker_ok t"
  by (simp add: tracker_ok_def driver_ok_def initialised_def)

lemma tracker_ok_uart [simp]: "tracker_ok (do_acts [Uart_Write s] t) = tracker_ok t"
  by (simp add: tracker_ok_def driver_ok_def initialised_def)

lemma tracker_ok_moved:
  assumes "tracker_ok t" "gps_ok g \<and> semCmdSending g = None" "pc \<notin> {Boot, Wait_Network}"
  shows "tracker_ok (t\<lparr>driver := g, init_done_flag := (pc = Tracking), task_at := pc\<rparr>)"
  using assms by (simp add: tracker_ok_def driver_ok_def initialised_def)

lemma tracker_ok_driver: "tracker_ok t \<Longrightarrow> initialised t \<Longrightarrow> gps_ok (driver t)"
  by (simp add: tracker_ok_def driver_ok_def)

lemma start_up_flag: "tracker_ok t \<Longrightarrow> task_at t \<noteq> Tracking \<Longrightarrow> t\<lparr>init_done_flag := False\<rparr> = t"
  by (simp add: tracker_ok_def)

lemma tracker_ok_moved':
  assumes "tracker_ok t" "task_at t \<noteq> Tracking" "gps_ok g \<and> semCmdSending g = None" "pc \<notin> {Boot, Wait_Network, Tracking}"
  shows "tracker_ok (t\<lparr>driver := g, task_at := pc\<rparr>)"
  using tracker_ok_moved [OF assms(1,3), of pc] start_up_flag [OF assms(1,2)] assms(2,4) by (cases t) auto

text \<open>A command of the driver that gives it back in order, as a step of the position task.\<close>

locale driver_command =
  fixes cmd :: "gps_event list \<Rightarrow> gps_state \<Rightarrow> ('a \<times> gps_event list \<times> gps_state) result option"
  assumes keeps: "cmd evs g = Some (Inr (a, evs', g')) \<Longrightarrow> gps_ok g \<Longrightarrow> gps_ok g' \<and> semCmdSending g' = None"
begin

lemma moves:
  assumes "gps_cmd cmd evs k t = Some (Inr t')" "tracker_ok t" "initialised t"
  obtains a g where "gps_ok g \<and> semCmdSending g = None" "t' = k a (t\<lparr>driver := g\<rparr>)"
proof -
  obtain a evs' g where "cmd evs (driver t) = Some (Inr (a, evs', g))" "t' = k a (t\<lparr>driver := g\<rparr>)"
    using assms(1) by (auto simp: gps_cmd_Inr)
  with that keeps [of evs "driver t"] tracker_ok_driver [OF assms(2,3)] show ?thesis by blast
qed

end

interpretation interval: driver_command "GPS_SetOutputInterval env ms"
  by unfold_locales (rule GPS_SetOutputInterval_ok)

interpretation version: driver_command "GPS_GetVersion env n"
  by unfold_locales (rule GPS_GetVersion_ok)

interpretation lp_mode: driver_command "GPS_SetLpMode env m"
  by unfold_locales (rule GPS_SetLpMode_ok)

lemma tracker_ok_task:
  assumes "tracker_ok t" "task_step env evs t = Some (Inr t')"
  shows "tracker_ok t'"
proof (cases "task_at t")
  case Wait_Network
  then show ?thesis using assms
    by (auto simp: task_step_def tracker_ok_def driver_ok_def initialised_def GPS_Init_ok GPS_Init_spec split: if_splits)
next
  case (Set_Interval i)
  show ?thesis
  proof (cases "i < 5")
    case True
    with assms Set_Interval show ?thesis
      by (auto simp: task_step_def initialised_def tracker_ok_moved' elim!: interval.moves)
  next
    case False
    then show ?thesis using assms Set_Interval by (auto simp: task_step_def tracker_ok_def driver_ok_def initialised_def)
  qed
next
  case Get_Version
  with assms show ?thesis by (auto simp: task_step_def initialised_def tracker_ok_moved' elim!: version.moves)
next
  case Set_Lp_Mode
  with assms show ?thesis by (auto simp: task_step_def initialised_def tracker_ok_moved' elim!: lp_mode.moves)
next
  case Set_Interval_1s
  with assms show ?thesis using tracker_ok_moved [OF assms(1), of _ Tracking]
    by (auto simp: task_step_def initialised_def elim!: interval.moves)
next
  case Tracking
  then show ?thesis using assms track_turn_ok by (simp add: task_step_def)
qed (use assms in \<open>auto simp: task_step_def tracker_ok_def driver_ok_def initialised_def split: if_splits\<close>)

interpretation ok: kept "\<lambda>_. True" tracker_ok
  by unfold_locales (auto intro: tracker_ok0 tracker_ok_task tracker_ok_event tracker_ok_blink)

text \<open>
  The watchdog is started once, for three minutes, and fed only by the loop; there every turn leaves at
  least a minute of it.
\<close>

definition dog_ok :: "tracker \<Rightarrow> bool" where
  "dog_ok t \<longleftrightarrow>
     (if task_at t = Boot then dog t = None \<and> slept t = 0
      else if task_at t = Tracking \<and> Watchdog_Feed \<in> set (acts t) then \<exists>d. dog t = Some d \<and> slept t + 60000 \<le> d
      else dog t = Some 180000) \<and> (task_at t \<noteq> Tracking \<longrightarrow> Watchdog_Feed \<notin> set (acts t)) \<and> \<not> restart_flag t"

lemma dog_ok_frame: "same_task t t' \<Longrightarrow> dog_ok t \<Longrightarrow> dog_ok t'"
  using same_task_flags [of t t'] same_task_loud [of t t' Watchdog_Feed] by (simp add: dog_ok_def)

lemma dog_ok_track:
  assumes "track_turn env t = Some (Inr t')" "task_at t = Tracking" "\<not> restart_flag t"
  shows "dog_ok t'"
proof -
  obtain t1 where t1: "(if isGpsOn t then track_position env t else Some (Inr t)) = Some (Inr t1)"
    and t': "t' = do_acts [Min_Freq_178M] (os_sleep (if motion t1 then 2000 else 120000) (do_acts [Min_Freq_32K] (feed_dog t1)))"
    using track_turn_Inr [OF assms(1)] by blast
  have "task_at t1 = Tracking \<and> \<not> restart_flag t1"
  proof (cases "isGpsOn t")
    case True
    then have "track_position env t = Some (Inr t1)" using t1 by simp
    then show ?thesis by (rule track_position_Inr) (simp add: assms(2,3))
  qed (use t1 assms in simp)
  then show ?thesis by (simp add: dog_ok_def t')
qed

lemma dog_ok_start_up:
  "task_at t \<notin> {Boot, Tracking} \<Longrightarrow> dog_ok t \<longleftrightarrow> dog t = Some 180000 \<and> Watchdog_Feed \<notin> set (acts t) \<and> \<not> restart_flag t"
  by (auto simp: dog_ok_def)

lemma dog_ok_task:
  assumes "dog_ok t" "task_step env evs t = Some (Inr t')"
  shows "dog_ok t'"
proof (cases "task_at t")
  case Tracking
  then show ?thesis using assms dog_ok_track [of env t t'] by (simp add: task_step_def dog_ok_def)
next
  case (Set_Interval i)
  show ?thesis
  proof (cases "i < 5")
    case True
    then obtain a g where "t' = (if a then t\<lparr>driver := g, task_at := Get_Version\<rparr>
        else os_sleep 1000 (t\<lparr>driver := g, task_at := Set_Interval (i + 1)\<rparr>))"
      using assms(2) Set_Interval by (auto simp: task_step_def gps_cmd_Inr)
    then show ?thesis using assms(1) Set_Interval by (cases a) (simp_all add: dog_ok_start_up)
  next
    case False
    then show ?thesis using assms Set_Interval by (auto simp: task_step_def dog_ok_start_up)
  qed
next
  case Wait_Network
  then show ?thesis using assms by (cases "networkFlag t") (auto simp: task_step_def dog_ok_def)
next
  case Wait_Position
  then show ?thesis using assms by (auto simp: task_step_def dog_ok_def split: if_splits)
qed (use assms in \<open>auto simp: task_step_def dog_ok_def gps_cmd_Inr\<close>)

lemma dog_ok_event: "dog_ok t \<Longrightarrow> event_turn env ev t = Some (Inr t') \<Longrightarrow> dog_ok t'"
  using dog_ok_frame [OF event_turn_frame] by (simp add: dog_ok_def [of t])

lemma dog_ok0: "dog_ok tracker0"
  by (simp add: dog_ok_def tracker0_def)

interpretation watched: kept "\<lambda>_. True" dog_ok
  by unfold_locales (auto intro: dog_ok0 dog_ok_task dog_ok_event dog_ok_frame [OF LED_Blink_frame])

text \<open>South of the equator or west of Greenwich the plausibility test never runs.\<close>

definition south_or_west :: "tracker \<Rightarrow> bool" where
  "south_or_west t \<longleftrightarrow> prev_lat t \<le> 0 \<or> prev_long t \<le> 0"

definition never_sent :: "tracker \<Rightarrow> bool" where
  "never_sent t \<longleftrightarrow> falseGPS t \<and> motion t \<and> (\<forall>net. Http net \<notin> set (acts t)) \<and> \<not> restart_flag t"

lemma never_sent_frame: "same_task t t' \<Longrightarrow> never_sent t \<Longrightarrow> never_sent t'"
  using same_task_flags [of t t'] same_task_loud [of t t' "Http _"] by (simp add: never_sent_def)

lemma never_sent_event: "never_sent t \<Longrightarrow> event_turn env ev t = Some (Inr t') \<Longrightarrow> never_sent t'"
  using never_sent_frame [OF event_turn_frame] by (simp add: never_sent_def [of t])

lemma never_sent_position:
  assumes "track_position env t = Some (Inr t')" "never_sent t" "south_or_west t"
  shows "never_sent t'"
proof -
  have c: "check_position lat lon t = t" for lat lon
    using assms(3) by (auto simp: check_position_def south_or_west_def)
  from assms(1) show ?thesis
    by (rule track_position_Inr) (use assms(2) in \<open>auto simp: never_sent_def c report_acts_def\<close>)
qed

lemma never_sent_task:
  assumes "south_or_west t" "never_sent t" "task_step env evs t = Some (Inr t')"
  shows "never_sent t'"
proof (cases "task_at t = Tracking")
  case True
  then have "track_turn env t = Some (Inr t')" using assms(3) by (simp add: task_step_def)
  then obtain t1 where t1: "(if isGpsOn t then track_position env t else Some (Inr t)) = Some (Inr t1)"
    and t': "t' = do_acts [Min_Freq_178M] (os_sleep (if motion t1 then 2000 else 120000) (do_acts [Min_Freq_32K] (feed_dog t1)))"
    by (rule track_turn_Inr)
  have "never_sent t1" using t1 assms(1,2) never_sent_position [of env t t1] by (cases "isGpsOn t") auto
  then show ?thesis by (simp add: t' never_sent_def)
next
  case False
  then show ?thesis using assms(2,3)
    by (cases "task_at t") (auto simp: task_step_def never_sent_def gps_cmd_Inr split: if_splits)
qed

lemma never_sent0: "never_sent tracker0"
  by (simp add: never_sent_def tracker0_def)

interpretation silent: kept south_or_west never_sent
  by unfold_locales (auto intro: never_sent0 never_sent_task never_sent_event never_sent_frame [OF LED_Blink_frame])

end
