(* ===== verification/Tracker_Run.thy ===== *)
theory Tracker_Run
  imports Tracker
begin

text \<open>
  What the tracker of \<^verbatim>\<open>Tracker.thy\<close> does: the precision of its coordinates, its plausibility test, what
  makes a turn of its loop fault, the blinking of the status LED, and what holds in every state reached.
\<close>

section \<open>Coordinates\<close>

text \<open>Degrees plus a sixtieth of the minutes, with exact arithmetic.\<close>

definition exact_degrees :: "minmea_float \<Rightarrow> rat" where
  "exact_degrees f =
     (let d = sgn (mf_value f) * (\<bar>mf_value f\<bar> div (100 * mf_scale f))
      in of_int d + (of_int (mf_value f) / of_int (mf_scale f) - 100 * of_int d) / 60)"

lemma whole_degrees:
  fixes v s :: int
  assumes "0 < s" "\<bar>v\<bar> < 2 ^ 31"
  defines "d \<equiv> sgn v * (\<bar>v\<bar> div (100 * s))"
  shows "s32 ((v sdiv s) sdiv 100) = d" "s32 (v - s32 (s32 (d * s) * 100)) = v - d * s * 100" "\<bar>v - d * s * 100\<bar> < 100 * s"
    "\<bar>d\<bar> * (100 * s) \<le> \<bar>v\<bar>"
proof -
  define q where "q = \<bar>v\<bar> div (100 * s)"
  have q: "q * (100 * s) \<le> \<bar>v\<bar>" "\<bar>v\<bar> < q * (100 * s) + 100 * s" "0 \<le> q"
  proof -
    have "\<bar>v\<bar> = q * (100 * s) + \<bar>v\<bar> mod (100 * s)" by (simp only: q_def div_mult_mod_eq)
    moreover have "0 \<le> \<bar>v\<bar> mod (100 * s)" "\<bar>v\<bar> mod (100 * s) < 100 * s" using assms(1) by simp_all
    ultimately show "q * (100 * s) \<le> \<bar>v\<bar>" "\<bar>v\<bar> < q * (100 * s) + 100 * s" by linarith+
    show "0 \<le> q" using assms(1) by (simp add: q_def pos_imp_zdiv_nonneg_iff)
  qed
  have d: "d = sgn v * q" by (simp add: d_def q_def)
  have sg: "v = sgn v * \<bar>v\<bar>" by (simp add: sgn_mult_abs)
  have le: "q \<le> \<bar>v\<bar>" "q * s \<le> \<bar>v\<bar>"
  proof -
    show "q * s \<le> \<bar>v\<bar>" using q(1,3) assms(1) mult_nonneg_nonneg [of q s] by (simp add: algebra_simps)
    moreover have "q * 1 \<le> q * s" using q(3) assms(1) by (intro mult_left_mono) simp_all
    ultimately show "q \<le> \<bar>v\<bar>" by simp
  qed
  have sd: "(v sdiv s) sdiv 100 = d"
  proof (cases "0 \<le> v")
    case True
    then show ?thesis using assms(1) by (cases "v = 0") (simp_all add: d q_def sdiv_pos pos_imp_zdiv_nonneg_iff zdiv_zmult2_eq mult.commute)
  next
    case False
    then have "v sdiv s = - ((- v) div s)" using assms(1) by (simp add: sdiv_neg)
    moreover have "(- ((- v) div s)) sdiv 100 = - ((- v) div s div 100)"
      using False assms(1) sdiv_pos [of "(- v) div s" 100] by (simp add: pos_imp_zdiv_nonneg_iff)
    ultimately show ?thesis using False assms(1) by (simp add: d q_def zdiv_zmult2_eq mult.commute [of 100])
  qed
  have ds: "\<bar>d\<bar> \<le> q" "\<bar>d * s\<bar> \<le> q * s" "\<bar>d * s * 100\<bar> \<le> \<bar>v\<bar>"
    using q assms(1) by (auto simp: d abs_mult sgn_if algebra_simps)
  have lim: "\<bar>v\<bar> < 2147483648" using assms(2) by simp
  show "s32 ((v sdiv s) sdiv 100) = d" unfolding sd using ds(1) le(1) lim by (intro s32_id) linarith+
  have r: "v - d * s * 100 = sgn v * (\<bar>v\<bar> - q * (100 * s))" using sg by (simp add: d algebra_simps)
  have sw: "\<bar>sgn v * w\<bar> \<le> \<bar>w\<bar>" for w :: int by (simp add: abs_mult sgn_if)
  show "\<bar>v - d * s * 100\<bar> < 100 * s" using q sw [of "\<bar>v\<bar> - q * (100 * s)"] r by linarith
  have "0 \<le> q * (100 * s)" using q(3) assms(1) by simp
  then have "\<bar>v - d * s * 100\<bar> \<le> \<bar>v\<bar>" using q(1) sw [of "\<bar>v\<bar> - q * (100 * s)"] r by linarith
  then have "s32 (v - d * s * 100) = v - d * s * 100" using lim by (intro s32_id) linarith+
  moreover have "s32 (d * s) = d * s" using ds(2) le(2) lim by (intro s32_id) linarith+
  moreover have "s32 (d * s * 100) = d * s * 100" using ds(3) lim by (intro s32_id) linarith+
  ultimately show "s32 (v - s32 (s32 (d * s) * 100)) = v - d * s * 100" by simp
  have "\<bar>d\<bar> * (100 * s) \<le> q * (100 * s)" using ds(1) assms(1) by (intro mult_right_mono) simp_all
  then show "\<bar>d\<bar> * (100 * s) \<le> \<bar>v\<bar>" using q(1) by linarith
qed

lemma rnd_near: "\<bar>x - y\<bar> \<le> e \<Longrightarrow> \<bar>y\<bar> \<le> b \<Longrightarrow> \<bar>rnd x - y\<bar> \<le> e + (b + e) * eps"
proof -
  assume a: "\<bar>x - y\<bar> \<le> e" "\<bar>y\<bar> \<le> b"
  have "\<bar>x\<bar> \<le> b + e" using a by linarith
  then have "\<bar>x\<bar> * eps \<le> (b + e) * eps" by (intro mult_right_mono) (simp_all add: eps_def)
  then show ?thesis using rnd_error [of x] a(1) by linarith
qed

text \<open>C8: for a field of at most 180 degrees the latitude and the longitude that the tracker computes in
  \<open>double\<close> differ from degrees plus a sixtieth of the minutes by less than \<open>10 ^ -13\<close>, with either
  sign; no step of the integer part overflows.\<close>

theorem degrees_accuracy:
  assumes "0 < mf_scale f" "\<bar>mf_value f\<bar> \<le> 18000 * mf_scale f" "\<bar>mf_value f\<bar> < 2 ^ 31"
  shows "\<exists>x. degrees f = Inr x \<and> \<bar>x - exact_degrees f\<bar> < 1 / 10 ^ 13"
proof -
  define v where "v = mf_value f"
  define s where "s = mf_scale f"
  define d where "d = sgn v * (\<bar>v\<bar> div (100 * s))"
  have sp: "0 < s" and vs: "\<bar>v\<bar> \<le> 18000 * s" using assms by (simp_all add: v_def s_def)
  note w = whole_degrees [of s v, folded d_def, OF sp]
  have v31: "\<bar>v\<bar> < 2 ^ 31" using assms(3) by (simp add: v_def)
  note w = w [OF v31]
  define r where "r = v - d * s * 100"
  define m where "m = of_int r / (of_int s :: rat)"
  have deg: "degrees f = Inr (rnd (of_int d + rnd (rnd m / 60)))"
    using sp w(1,2) by (simp add: degrees_def Let_def v_def [symmetric] s_def [symmetric] dadd_def ddiv_def m_def r_def)
  have mex: "exact_degrees f = of_int d + m / 60"
    using sp by (simp add: exact_degrees_def Let_def v_def [symmetric] s_def [symmetric] d_def [symmetric] m_def r_def diff_divide_distrib)
  have "\<bar>of_int r\<bar> \<le> 100 * (of_int s :: rat)" using w(3) of_int_le_iff [of "\<bar>r\<bar>" "100 * s", where ?'a = rat] by (simp add: r_def)
  then have m100: "\<bar>m\<bar> \<le> 100" using sp by (simp add: m_def abs_div_pos [symmetric] pos_divide_le_eq)
  have "\<bar>d\<bar> * (100 * s) \<le> 180 * (100 * s)" using w(4) vs by linarith
  then have "\<bar>d\<bar> \<le> 180" using sp by simp
  then have d180: "\<bar>of_int d :: rat\<bar> \<le> 180" using of_int_le_iff [of "\<bar>d\<bar>" 180, where ?'a = rat] by simp
  have e1: "\<bar>rnd m - m\<bar> \<le> 100 * eps" using rnd_near [of m m 0 100] m100 by simp
  then have "\<bar>rnd m / 60 - m / 60\<bar> \<le> 100 * eps / 60" by (simp flip: diff_divide_distrib)
  then have e2: "\<bar>rnd (rnd m / 60) - m / 60\<bar> \<le> 100 * eps / 60 + (2 + 100 * eps / 60) * eps"
    using m100 by (intro rnd_near) simp_all
  have "\<bar>rnd (of_int d + rnd (rnd m / 60)) - (of_int d + m / 60)\<bar>
      \<le> (100 * eps / 60 + (2 + 100 * eps / 60) * eps) + (182 + (100 * eps / 60 + (2 + 100 * eps / 60) * eps)) * eps"
    using e2 d180 m100 by (intro rnd_near) linarith+
  also have "\<dots> < 1 / 10 ^ 13" by (simp add: eps_def)
  finally show ?thesis using deg mex by simp
qed

theorem degrees_accuracy_witness:
  "\<exists>x. degrees \<lparr>mf_value = - 22347758, mf_scale = 10000\<rparr> = Inr x
    \<and> \<bar>x - exact_degrees \<lparr>mf_value = - 22347758, mf_scale = 10000\<rparr>\<bar> < 1 / 10 ^ 13"
  by (rule degrees_accuracy) simp_all

section \<open>The plausibility test\<close>

text \<open>C9: a coordinate counts as plausible when it differs from the previous one by less than a hundredth of
  a degree and not when it differs by more: the rounding of the subtraction and the multiplication
  moves the threshold by less than \<open>10 ^ -16\<close>.\<close>

theorem near_threshold:
  "(\<bar>x - p\<bar> \<le> 1 / 100 - 1 / 10 ^ 16 \<longrightarrow> near x p) \<and> (1 / 100 + 1 / 10 ^ 16 \<le> \<bar>x - p\<bar> \<longrightarrow> \<not> near x p)"
proof -
  have abs: "\<bar>rnd y\<bar> \<le> \<bar>y\<bar> * (1 + eps)" "\<bar>y\<bar> * (1 - eps) \<le> \<bar>rnd y\<bar>" for y
    using rnd_error [of y] by (simp_all add: algebra_simps abs_if split: if_splits)
  define a where "a = \<bar>rnd (x - p)\<bar>"
  have n: "near x p \<longleftrightarrow> \<bar>rnd (a * 1000)\<bar> < 10"
    using rnd_nonneg [of "a * 1000"] by (simp add: near_def dmul_def dsub_def a_def)
  have "near x p" if h: "\<bar>x - p\<bar> \<le> 1 / 100 - 1 / 10 ^ 16"
  proof -
    have "a \<le> (1 / 100 - 1 / 10 ^ 16) * (1 + eps)"
      using abs(1) [of "x - p"] h mult_right_mono [OF h, of "1 + eps"] by (simp add: a_def eps_def)
    moreover have "\<bar>rnd (a * 1000)\<bar> \<le> a * 1000 * (1 + eps)" using abs(1) [of "a * 1000"] by (simp add: a_def)
    ultimately show ?thesis unfolding n by (simp add: eps_def)
  qed
  moreover have "\<not> near x p" if h: "1 / 100 + 1 / 10 ^ 16 \<le> \<bar>x - p\<bar>"
  proof -
    have "(1 / 100 + 1 / 10 ^ 16) * (1 - eps) \<le> a"
      using abs(2) [of "x - p"] mult_right_mono [OF h, of "1 - eps"] by (simp add: a_def eps_def)
    moreover have "a * 1000 * (1 - eps) \<le> \<bar>rnd (a * 1000)\<bar>" using abs(2) [of "a * 1000"] by (simp add: a_def)
    ultimately show ?thesis unfolding n by (simp add: eps_def)
  qed
  ultimately show ?thesis by blast
qed

theorem near_threshold_witness: "near (2239 / 100) (22381 / 1000) \<and> \<not> near (2239 / 100) (22401 / 1000)"
  using near_threshold [of "2239 / 100" "22381 / 1000"] near_threshold [of "2239 / 100" "22401 / 1000"] by simp

section \<open>What a turn of the loop needs\<close>

lemma fix_state_None:
  "fst (snd (fix_state info)) = None \<longleftrightarrow> u8 (max (gsa_fix_type (g_gsa info ! 0)) (gsa_fix_type (g_gsa info ! 1))) = 3
     \<and> gga_fix_quality (g_gga info) \<notin> {1, 2}"
proof -
  have m: "(if a > b then a else b) = max a b" for a b :: int by simp
  show ?thesis unfolding fix_state_def Let_def m by (simp split: if_split)
qed

lemma degrees_Inl: "degrees f = Inl e \<longleftrightarrow> mf_scale f = 0 \<and> e = Division_By_Zero"
  by (auto simp: degrees_def Let_def)

lemma degrees_cases: "mf_scale f = 0 \<and> degrees f = Inl Division_By_Zero \<or> mf_scale f \<noteq> 0 \<and> (\<exists>x. degrees f = Inr x)"
  by (simp add: degrees_def Let_def)

lemma track_turn_on:
  "isGpsOn t \<Longrightarrow> track_turn env t = Some (Inl e) \<longleftrightarrow> track_position env t = Some (Inl e)"
  by (cases "track_position env t") (auto simp: track_turn_def rbind_def Let_def split: sum.splits)

lemma empty_latitude_faults:
  assumes "task_at t = Tracking" "isGpsOn t" "mf_scale (rmc_latitude (g_rmc (Gps_GetInfo (gps_parser (driver t))))) = 0"
  shows "task_step env evs t = Some (Inl Division_By_Zero)"
proof -
  obtain isFixed fixed flag where f: "fix_state (Gps_GetInfo (gps_parser (driver t))) = (isFixed, fixed, flag)"
    by (cases "fix_state (Gps_GetInfo (gps_parser (driver t)))")
  have "track_position env t = Some (Inl Division_By_Zero)"
    unfolding track_position_def Let_def f prod.case using assms(3) by (simp add: degrees_def rbind_def)
  then show ?thesis using assms(1,2) track_turn_on [OF assms(2)] by (simp add: task_step_def)
qed

text \<open>C10: a turn of the loop with the module on faults exactly in five situations: the latitude or the
  longitude of the last RMC sentence was an empty field (the integer division by its scale), a
  three-dimensional fix has a quality other than 1 and 2 (the uninitialised \<open>isFixedStr\<close>), the IMEI
  cannot be read (the assertion), or \<open>Network_GetActiveStatus\<close> fails (the uninitialised \<open>status\<close>).\<close>

theorem tracking_faults_iff:
  fixes t :: tracker
  defines "info \<equiv> Gps_GetInfo (gps_parser (driver t))"
  assumes "task_at t = Tracking" "isGpsOn t"
  shows "((\<exists>e. task_step env evs t = Some (Inl e)) \<longleftrightarrow>
      mf_scale (rmc_latitude (g_rmc info)) = 0 \<or> mf_scale (rmc_longitude (g_rmc info)) = 0
      \<or> u8 (max (gsa_fix_type (g_gsa info ! 0)) (gsa_fix_type (g_gsa info ! 1))) = 3 \<and> gga_fix_quality (g_gga info) \<notin> {1, 2}
      \<or> te_imei env = None \<or> te_active env = None) \<and>
      (mf_scale (rmc_latitude (g_rmc info)) = 0 \<longrightarrow> task_step env evs t = Some (Inl Division_By_Zero))"
proof -
  obtain isFixed fixed flag where f: "fix_state info = (isFixed, fixed, flag)" by (cases "fix_state info")
  have fx: "fixed = None \<longleftrightarrow> u8 (max (gsa_fix_type (g_gsa info ! 0)) (gsa_fix_type (g_gsa info ! 1))) = 3
     \<and> gga_fix_quality (g_gga info) \<notin> {1, 2}" using fix_state_None [of info] f by simp
  note step = track_turn_on [OF assms(3), of env]
  have tp: "task_step env evs t = track_turn env t" using assms(2) by (simp add: task_step_def)
  note d = degrees_cases [of "rmc_latitude (g_rmc info)"] degrees_cases [of "rmc_longitude (g_rmc info)"]
  have "(\<exists>e. task_step env evs t = Some (Inl e)) \<longleftrightarrow>
      mf_scale (rmc_latitude (g_rmc info)) = 0 \<or> mf_scale (rmc_longitude (g_rmc info)) = 0
      \<or> u8 (max (gsa_fix_type (g_gsa info ! 0)) (gsa_fix_type (g_gsa info ! 1))) = 3 \<and> gga_fix_quality (g_gga info) \<notin> {1, 2}
      \<or> te_imei env = None \<or> te_active env = None"
    unfolding tp step fx [symmetric] track_position_def info_def [symmetric] Let_def f prod.case
    using d by (elim disjE conjE exE; cases fixed; cases "te_imei env"; cases "te_active env") (simp_all add: rbind_def)
  then show ?thesis using empty_latitude_faults [OF assms(2,3), of env evs] by (auto simp: info_def)
qed

theorem tracking_faults_iff_witness:
  "\<forall>env. task_step env [] (tracker0\<lparr>task_at := Tracking\<rparr>) = Some (Inl Division_By_Zero)"
proof -
  let ?t = "tracker0\<lparr>task_at := Tracking\<rparr>"
  have z: "mf_scale (rmc_latitude (g_rmc (Gps_GetInfo (gps_parser (driver ?t))))) = 0"
    by (simp add: tracker0_def gps_state0_def parse_state0_def zero_info_def zero_float_def Gps_GetInfo_def)
  have "task_at ?t = Tracking" "isGpsOn ?t" by (simp_all add: tracker0_def)
  from tracking_faults_iff [OF this, of _ "[]"] z show ?thesis by blast
qed

section \<open>The status LED\<close>

lemma blinks_status [simp]: "led_status ((LED_Blink ^^ n) t) = led_status t"
  by (induction n) simp_all

text \<open>As long as the status stays the same and the count has not run past the status, the LED is switched on
  for one tick in every eleven (system on) or three (no network), and the timer is started again in
  every tick.\<close>

theorem led_blinks:
  assumes "blink_at (led_status t) = Some k" "0 \<le> blink_count t" "blink_count t \<le> k"
  shows "blink_count ((LED_Blink ^^ n) t) = (blink_count t + int n) mod (k + 1) \<and>
    acts ((LED_Blink ^^ Suc n) t) = acts ((LED_Blink ^^ n) t)
      @ (if (blink_count t + int n) mod (k + 1) = k - 1 then [Gpio_Set SYSTEM_STATUS_LED True]
         else if (blink_count t + int n) mod (k + 1) = k then [Gpio_Set SYSTEM_STATUS_LED False] else [])
      @ [Start_Timer 1000]"
proof -
  have k: "2 \<le> k" "k \<le> 10" using assms(1) by (auto simp: blink_at_def split: led.splits)
  have step: "blink_count (LED_Blink u) = (c + 1) mod (k + 1) \<and> acts (LED_Blink u) = acts u
      @ (if c = k - 1 then [Gpio_Set SYSTEM_STATUS_LED True] else if c = k then [Gpio_Set SYSTEM_STATUS_LED False] else [])
      @ [Start_Timer 1000]"
    if u: "led_status u = led_status t" "blink_count u = c" "0 \<le> c" "c \<le> k" for u c
  proof -
    have "s32 (c + 1) = c + 1" using u k by (simp add: s32_id)
    moreover have "(c + 1) mod (k + 1) = (if c = k then 0 else c + 1)" using u by simp
    ultimately show ?thesis using u(1,2) assms(1) by (simp add: LED_Blink_def Let_def)
  qed
  have b: "0 \<le> x mod (k + 1)" "x mod (k + 1) \<le> k" for x :: int
    using k pos_mod_bound [of "k + 1" x] by simp_all
  have count: "blink_count ((LED_Blink ^^ n) t) = (blink_count t + int n) mod (k + 1)" for n
  proof (induction n)
    case 0
    then show ?case using assms by simp
  next
    case (Suc n)
    have "blink_count ((LED_Blink ^^ Suc n) t) = ((blink_count t + int n) mod (k + 1) + 1) mod (k + 1)"
      using step [OF _ Suc b] by simp
    also have "\<dots> = (blink_count t + int n + 1) mod (k + 1)" by (rule mod_add_left_eq)
    finally show ?case by (simp only: of_nat_Suc add.assoc [symmetric] add.commute [of 1])
  qed
  have "acts ((LED_Blink ^^ Suc n) t) = acts ((LED_Blink ^^ n) t)
      @ (if (blink_count t + int n) mod (k + 1) = k - 1 then [Gpio_Set SYSTEM_STATUS_LED True]
         else if (blink_count t + int n) mod (k + 1) = k then [Gpio_Set SYSTEM_STATUS_LED False] else [])
      @ [Start_Timer 1000]"
    using step [OF _ count b] by simp
  with count show ?thesis by simp
qed

theorem led_blinks_witness:
  "acts ((LED_Blink ^^ Suc 9) (tracker0\<lparr>blink_count := 0\<rparr>)) = acts ((LED_Blink ^^ 9) (tracker0\<lparr>blink_count := 0\<rparr>))
    @ [Gpio_Set SYSTEM_STATUS_LED True, Start_Timer 1000]"
  using led_blinks [of "tracker0\<lparr>blink_count := 0\<rparr>" 10 9] by (simp add: blink_at_def tracker0_def del: funpow.simps)

lemma blink_past:
  assumes "blink_at (led_status t) = Some k" "0 \<le> k" "k < blink_count t" "blink_count t + 1 < 2 ^ 31"
  shows "acts (LED_Blink t) = acts t @ [Start_Timer 1000]" "blink_count (LED_Blink t) = blink_count t + 1"
proof -
  have "s32 (blink_count t + 1) = blink_count t + 1" using assms by (simp add: s32_id)
  then show "acts (LED_Blink t) = acts t @ [Start_Timer 1000]" "blink_count (LED_Blink t) = blink_count t + 1"
    using assms by (simp_all add: LED_Blink_def Let_def)
qed

text \<open>C11: once the count is past the status, which happens when the status changes while it runs, the LED is not
  switched any more for the rest of the \<open>2 ^ 31\<close> ticks, whatever the LED showed.\<close>

theorem led_stuck:
  assumes "blink_at (led_status t) = Some k" "k < blink_count t" "blink_count t + int n < 2 ^ 31"
  shows "acts ((LED_Blink ^^ n) t) = acts t @ replicate n (Start_Timer 1000)
    \<and> blink_count ((LED_Blink ^^ n) t) = blink_count t + int n"
proof -
  have k: "0 \<le> k" using assms(1) by (auto simp: blink_at_def split: led.splits)
  show ?thesis using assms(3)
  proof (induction n)
    case (Suc n)
    then show ?case
      using blink_past [of "(LED_Blink ^^ n) t" k] assms(1,2) k by (simp add: replicate_append_same)
  qed simp
qed

theorem led_stuck_witness:
  "acts ((LED_Blink ^^ 1000) (tracker0\<lparr>led_status := LED_NO_NETWORK, blink_count := 5\<rparr>)) = replicate 1000 (Start_Timer 1000)"
  using led_stuck [of "tracker0\<lparr>led_status := LED_NO_NETWORK, blink_count := 5\<rparr>" 2 1000]
  by (simp add: blink_at_def tracker0_def del: funpow.simps)

end
