(* ===== verification/Tracker_Start.thy ===== *)
theory Tracker_Start
  imports Tracker
begin

text \<open>
  The start-up of the position task when the module never answers a command, and what holds in every
  state the tracker reaches: the flags, the driver, the watchdog, and the uploads.
\<close>

section \<open>Commands without an answer\<close>

lemma command_times_out:
  assumes "nmea_trailer str = Inr out" "gps_ok g" "gpsAckMsg g = None"
  shows "\<exists>g'. GPS_SendCMDWaitAck env str GPS_FORMAT_NMEA [Ack_Timer, Run_Task] g = Some (Inr ((GPS_CMD_FAIL, None), [], g'))
    \<and> gps_ok g' \<and> gpsAckMsg g' = None \<and> gps_parser g' = gps_parser g"
proof -
  have "wf_gps (g\<lparr>isCmdSendTimeOut := False, semCmdSending := Some 0\<rparr>)" using assms(2) by (simp add: gps_ok_def)
  from CMDSend_nmea(1) [OF assms(1) this]
  obtain g' where g': "GPS_SendCMDWaitAck env str GPS_FORMAT_NMEA [Ack_Timer, Run_Task] g = Some (Inr ((GPS_CMD_FAIL, None), [], g'))"
    "gpsAckMsg g' = None \<and> gps_parser g' = gps_parser g"
    using assms(3) by (simp add: GPS_SendCMDWaitAck_def Let_def OnCmdAckFail_def release_sem_def)
  with GPS_SendCMDWaitAck_ok [OF g'(1) assms(2)] show ?thesis by blast
qed

lemma command_sent: "\<lbrakk>\<forall>p\<in>set ps. 0 \<le> p \<and> p < 100000; length ps \<le> 10\<rbrakk> \<Longrightarrow> \<exists>out. nmea_trailer (cmd_text c ps) = Inr out"
  using sendable_trailer [OF cmd_text_sendable(1) [OF params_short]] by blast

text \<open>What is left of the driver after a command that was not answered.\<close>

definition unanswered :: "gps_state \<Rightarrow> gps_state \<Rightarrow> bool" where
  "unanswered g g' \<longleftrightarrow> gps_ok g' \<and> gpsAckMsg g' = None \<and> gps_parser g' = gps_parser g"

lemma send_nmea_times_out:
  assumes "\<forall>p\<in>set ps. 0 \<le> p \<and> p < 100000" "length ps \<le> 10" "gps_ok g" "gpsAckMsg g = None"
  shows "\<exists>g'. send_nmea env c ps [Ack_Timer, Run_Task] g = Some (Inr (False, [], g')) \<and> unanswered g g'"
proof -
  obtain out where "nmea_trailer (cmd_text c ps) = Inr out" using command_sent [OF assms(1,2)] by blast
  from command_times_out [OF this assms(3,4), of env] show ?thesis
    by (auto simp: send_nmea_def GPS_SendWaiteNormalAck_def normal_ack_def free_ack_def unanswered_def gps_ok_def)
qed

lemma version_times_out:
  assumes "gps_ok g" "gpsAckMsg g = None"
  shows "\<exists>g'. GPS_GetVersion env n [Ack_Timer, Run_Task] g = Some (Inr (None, [], g')) \<and> unanswered g g'"
proof -
  obtain out where "nmea_trailer (cmd_text GPS_CMD_GET_VERSION []) = Inr out" using command_sent [of "[]"] by auto
  from command_times_out [OF this assms, of env] show ?thesis
    by (auto simp: GPS_GetVersion_def free_ack_def unanswered_def gps_ok_def)
qed

section \<open>The start-up ends\<close>

text \<open>The steps of the position task up to its loop when the answers to its commands do not come.\<close>

fun start_up :: "tracker_env \<Rightarrow> nat \<Rightarrow> tracker \<Rightarrow> tracker result option" where
  "start_up env 0 t = (if task_at t = Tracking then Some (Inr t) else None)"
| "start_up env (Suc n) t =
     (if task_at t = Tracking then Some (Inr t)
      else case task_step env [Ack_Timer, Run_Task] t of
        Some (Inr t') \<Rightarrow> start_up env n t'
      | r \<Rightarrow> r)"

definition starting :: "tracker \<Rightarrow> task_pc \<Rightarrow> nat \<Rightarrow> tracker \<Rightarrow> bool" where
  "starting t pc ms t' \<longleftrightarrow> task_at t' = pc \<and> slept t' = ms \<and> gps_ok (driver t') \<and> gpsAckMsg (driver t') = None
    \<and> gps_parser (driver t') = gps_parser (driver t)"

lemma starting_interval:
  assumes "starting t0 (Set_Interval i) ms t" "i < 5"
  shows "\<exists>t'. task_step env [Ack_Timer, Run_Task] t = Some (Inr t') \<and> starting t0 (Set_Interval (i + 1)) (ms + 1000) t'"
proof -
  obtain g where g: "send_nmea (te_gps env) GPS_CMD_NMEA_OUTPUT_INTERVAL [10000] [Ack_Timer, Run_Task] (driver t) = Some (Inr (False, [], g))"
    "unanswered (driver t) g"
    using send_nmea_times_out [of "[10000]" "driver t" "te_gps env"] assms by (auto simp: starting_def)
  then show ?thesis
    using assms by (simp add: task_step_def gps_cmd_def GPS_SetOutputInterval_def starting_def unanswered_def)
qed

lemma starting_rest:
  "starting t0 (Set_Interval 5) ms t \<Longrightarrow> \<exists>t'. task_step env [Ack_Timer, Run_Task] t = Some (Inr t') \<and> starting t0 Get_Version ms t'"
  "starting t0 Get_Version ms t \<Longrightarrow> \<exists>t'. task_step env [Ack_Timer, Run_Task] t = Some (Inr t') \<and> starting t0 Set_Lp_Mode ms t'"
  "starting t0 Set_Lp_Mode ms t \<Longrightarrow> \<exists>t'. task_step env [Ack_Timer, Run_Task] t = Some (Inr t') \<and> starting t0 Set_Interval_1s ms t'"
  "starting t0 Set_Interval_1s ms t \<Longrightarrow> \<exists>t'. task_step env [Ack_Timer, Run_Task] t = Some (Inr t') \<and> starting t0 Tracking ms t'"
proof -
  show "\<exists>t'. task_step env [Ack_Timer, Run_Task] t = Some (Inr t') \<and> starting t0 Get_Version ms t'"
    if "starting t0 (Set_Interval 5) ms t" using that by (simp add: task_step_def starting_def)
  show "\<exists>t'. task_step env [Ack_Timer, Run_Task] t = Some (Inr t') \<and> starting t0 Set_Lp_Mode ms t'"
    if s: "starting t0 Get_Version ms t"
  proof -
    obtain g where g: "GPS_GetVersion (te_gps env) 150 [Ack_Timer, Run_Task] (driver t) = Some (Inr (None, [], g))" "unanswered (driver t) g"
      using version_times_out [of "driver t" "te_gps env"] s by (auto simp: starting_def)
    then show ?thesis using s by (simp add: task_step_def gps_cmd_def starting_def unanswered_def)
  qed
  show "\<exists>t'. task_step env [Ack_Timer, Run_Task] t = Some (Inr t') \<and> starting t0 Set_Interval_1s ms t'"
    if s: "starting t0 Set_Lp_Mode ms t"
  proof -
    obtain g where g: "send_nmea (te_gps env) GPS_CMD_LP_MODE [9] [Ack_Timer, Run_Task] (driver t) = Some (Inr (False, [], g))"
      "unanswered (driver t) g"
      using send_nmea_times_out [of "[9]" "driver t" "te_gps env"] s by (auto simp: starting_def)
    then show ?thesis using s
      by (simp add: task_step_def gps_cmd_def GPS_SetLpMode_def starting_def unanswered_def)
  qed
  show "\<exists>t'. task_step env [Ack_Timer, Run_Task] t = Some (Inr t') \<and> starting t0 Tracking ms t'"
    if s: "starting t0 Set_Interval_1s ms t"
  proof -
    obtain g where g: "send_nmea (te_gps env) GPS_CMD_NMEA_OUTPUT_INTERVAL [1000] [Ack_Timer, Run_Task] (driver t) = Some (Inr (False, [], g))"
      "unanswered (driver t) g"
      using send_nmea_times_out [of "[1000]" "driver t" "te_gps env"] s by (auto simp: starting_def)
    then show ?thesis using s
      by (simp add: task_step_def gps_cmd_def GPS_SetOutputInterval_def starting_def unanswered_def)
  qed
qed

lemma unanswered_intervals:
  "starting t0 (Set_Interval i) ms t \<Longrightarrow> i + k = 5 \<Longrightarrow>
   \<exists>t'. starting t0 (Set_Interval 5) (ms + 1000 * k) t' \<and> (\<forall>n. start_up env (k + n) t = start_up env n t')"
proof (induction k arbitrary: i ms t)
  case 0
  then show ?case by auto
next
  case (Suc k)
  obtain t1 where t1: "task_step env [Ack_Timer, Run_Task] t = Some (Inr t1)" "starting t0 (Set_Interval (i + 1)) (ms + 1000) t1"
    using starting_interval [OF Suc(2), of env] Suc(3) by auto
  obtain t' where "starting t0 (Set_Interval 5) (ms + 1000 + 1000 * k) t'" "\<forall>n. start_up env (k + n) t1 = start_up env n t'"
    using Suc.IH [OF t1(2)] Suc(3) by auto
  then show ?case using t1(1) Suc(2) by (intro exI [of _ t']) (simp add: add.assoc starting_def)
qed

lemma start_up_ends:
  assumes "starting t Wait_Position ms t" "mf_value (rmc_latitude (g_rmc (Gps_GetInfo (gps_parser (driver t))))) \<noteq> 0"
  shows "\<exists>t'. start_up env 10 t = Some (Inr t') \<and> starting t Tracking (ms + 5000) t'"
proof -
  define t1 where "t1 = t\<lparr>task_at := Set_Interval 0\<rparr>"
  have t1: "task_step env [Ack_Timer, Run_Task] t = Some (Inr t1)" "starting t (Set_Interval 0) ms t1"
    using assms by (simp_all add: task_step_def starting_def t1_def)
  obtain t2 where "starting t (Set_Interval 5) (ms + 1000 * 5) t2"
    and steps: "\<forall>n. start_up env (5 + n) t1 = start_up env n t2"
    using unanswered_intervals [OF t1(2), of 5 env] by auto
  then have t2: "starting t (Set_Interval 5) (ms + 5000) t2" "start_up env (5 + 4) t1 = start_up env 4 t2"
    by simp (use steps in blast)
  obtain t3 where t3: "task_step env [Ack_Timer, Run_Task] t2 = Some (Inr t3)" "starting t Get_Version (ms + 5000) t3"
    using starting_rest(1) [OF t2(1)] by blast
  obtain t4 where t4: "task_step env [Ack_Timer, Run_Task] t3 = Some (Inr t4)" "starting t Set_Lp_Mode (ms + 5000) t4"
    using starting_rest(2) [OF t3(2)] by blast
  obtain t5 where t5: "task_step env [Ack_Timer, Run_Task] t4 = Some (Inr t5)" "starting t Set_Interval_1s (ms + 5000) t5"
    using starting_rest(3) [OF t4(2)] by blast
  obtain t6 where t6: "task_step env [Ack_Timer, Run_Task] t5 = Some (Inr t6)" "starting t Tracking (ms + 5000) t6"
    using starting_rest(4) [OF t5(2)] by blast
  have "start_up env 10 t = start_up env (5 + 4) t1" using t1(1) assms(1) by (simp add: numeral_eq_Suc starting_def)
  also have "\<dots> = Some (Inr t6)" using t2 t3 t4 t5 t6 by (simp add: numeral_eq_Suc starting_def)
  finally show ?thesis using t6(2) by blast
qed
text \<open>C7: once the first position has arrived, the start-up ends even when the module answers none of the eight
  commands: after ten steps and five seconds of sleep the task is in its loop, with the driver in
  order, no acknowledgement pending, and the position it had parsed.\<close>

theorem start_up_completes:
  assumes "task_at t = Wait_Position" "gps_ok (driver t)" "gpsAckMsg (driver t) = None"
    and "mf_value (rmc_latitude (g_rmc (Gps_GetInfo (gps_parser (driver t))))) \<noteq> 0"
  shows "\<exists>t'. start_up env 10 t = Some (Inr t') \<and> task_at t' = Tracking \<and> slept t' = slept t + 5000
    \<and> gps_ok (driver t') \<and> gpsAckMsg (driver t') = None \<and> gps_parser (driver t') = gps_parser (driver t)"
  using start_up_ends [OF _ assms(4), of "slept t" env] assms(1-3) by (simp add: starting_def)

section \<open>A tracker on the air\<close>

lemma start_up_prev:
  "task_step env evs t = Some (Inr t') \<Longrightarrow> task_at t \<noteq> Tracking \<Longrightarrow>
   prev_lat t' = prev_lat t \<and> prev_long t' = prev_long t \<and> isGpsOn t' = isGpsOn t \<and> networkFlag t' = networkFlag t"
  by (cases "task_at t") (auto simp: task_step_def gps_cmd_Inr gps_open_def os_sleep_def split: if_splits)

lemma reach_task:
  "reachable_within V t \<Longrightarrow> task_step env evs t = Some (Inr t') \<Longrightarrow> V t' \<Longrightarrow> reachable_within V t'"
  by (rule reachable_within.step [OF _ turn.position])

lemma start_up_reachable:
  "start_up env n t = Some (Inr t') \<Longrightarrow> reachable_within V t \<Longrightarrow>
   (\<And>u. prev_lat u = prev_lat t \<Longrightarrow> prev_long u = prev_long t \<Longrightarrow> V u) \<Longrightarrow>
   reachable_within V t' \<and> prev_lat t' = prev_lat t \<and> prev_long t' = prev_long t \<and> isGpsOn t' = isGpsOn t"
proof (induction n arbitrary: t)
  case 0
  then show ?case by (simp split: if_splits)
next
  case (Suc n)
  show ?case
  proof (cases "task_at t = Tracking")
    case True
    then show ?thesis using Suc by simp
  next
    case False
    then obtain t1 where t1: "task_step env [Ack_Timer, Run_Task] t = Some (Inr t1)" "start_up env n t1 = Some (Inr t')"
      using Suc(2) by (auto split: option.splits sum.splits)
    note p = start_up_prev [OF t1(1) False]
    have "V t1" using Suc(4) p by blast
    then have "reachable_within V t1" using Suc(3) t1(1) by (auto intro: step position)
    from Suc.IH [OF t1(2) this] Suc(4) p show ?thesis by auto
  qed
qed

text \<open>The first four turns: power-on, the network comes up, the module is opened.\<close>

definition tracker_open :: tracker where
  "tracker_open =
     gps_open ((do_acts [Uart_Write (''Init now'' @ CRLF), Watchdog_Open 180]
       (tracker0\<lparr>dog := Some 180000, task_at := Wait_Network\<rparr>))
         \<lparr>networkFlag := True, led_status := LED_SYS_ON, driver := GPS_SaveLog True (Some GPS_NMEA_LOG_FILE_PATH) gps_ready,
          task_at := Wait_Position\<rparr>)"

lemma tracker_open_reachable:
  assumes "\<And>u. prev_lat u = 0 \<Longrightarrow> prev_long u = 0 \<Longrightarrow> V u"
  shows "reachable_within V tracker_open"
proof -
  define t1 where "t1 = do_acts [Uart_Write (''Init now'' @ CRLF), Watchdog_Open 180] (tracker0\<lparr>dog := Some 180000, task_at := Wait_Network\<rparr>)"
  define t2 where "t2 = t1\<lparr>networkFlag := True, led_status := LED_SYS_ON\<rparr>"
  have "task_step env [] tracker0 = Some (Inr t1)" for env by (simp add: task_step_def t1_def tracker0_def)
  moreover have "event_turn env Activated t1 = Some (Inr t2)" for env
    by (simp add: event_turn_def EventDispatch_def t1_def t2_def tracker0_def rbind_def Let_def)
  moreover have "task_step env [] t2 = Some (Inr tracker_open)" for env
    by (simp add: task_step_def t2_def t1_def tracker_open_def tracker0_def gps_ready_def do_acts_def gps_open_def)
  moreover have "V tracker0" "V t1" "V t2" "V tracker_open"
    by (rule assms; simp add: t1_def t2_def tracker0_def tracker_open_def gps_open_def)+
  moreover have "turn tracker0 t1" "turn t1 t2" "turn t2 tracker_open"
    using calculation(1-3) by (auto intro: turn.position turn.event)
  ultimately show ?thesis by (meson reachable_within.intros)
qed

text \<open>A frame from the southern hemisphere, and the tracker after it.\<close>

definition south_frame :: "byte list" where
  "south_frame = ''$GNRMC,084257.000,A,2234.7758,S,11354.9654,E,0.032,306.43,140618,,,D*5B'' @ CRLF
     @ ''$GNVTG,306.43,T,,M,0.032,N,0.059,K,D*29'' @ CRLF"

lemma south_frame_parsed:
  "rmc_latitude (g_rmc (g_gps_info (parse_frames [south_frame] parse_state0))) = \<lparr>mf_value = - 22347758, mf_scale = 10000\<rparr>"
  "rmc_longitude (g_rmc (g_gps_info (parse_frames [south_frame] parse_state0))) = \<lparr>mf_value = 113549654, mf_scale = 10000\<rparr>"
  "fst (snd (fix_state (g_gps_info (parse_frames [south_frame] parse_state0)))) = Some ''no fix''"
  by code_simp+

lemma south_frame_drained: "drain south_frame = Some ([south_frame], [])"
  by (rule drain_one_frame) (code_simp, simp add: south_frame_def GPS_NMEA_FRAME_BUFFER_LENGTH_def)

definition south_env :: tracker_env where
  "south_env = \<lparr>te_gps = gps_env0, te_attach = Some 1, te_active = Some 1, te_imei = Some ''867959033006999'', te_percent = 80,
     te_time = 1528965777,
     te_net = \<lparr>net_dns = True, net_malloc = True, net_socket = 1, net_connect = 0, net_send = 1, net_send_body = 0,
       net_events = (\<lambda>_. Received ''HTTP/1.1 200 OK'')\<rparr>, te_alt = (\<lambda>_. ''0.000000'')\<rparr>"

lemma on_the_air:
  assumes "\<And>u. prev_lat u = 0 \<Longrightarrow> prev_long u = 0 \<Longrightarrow> V u"
  shows "\<exists>t. reachable_within V t \<and> task_at t = Tracking \<and> isGpsOn t \<and> prev_lat t = 0 \<and> prev_long t = 0
    \<and> gps_parser (driver t) = parse_frames [south_frame] parse_state0"
proof -
  let ?d = "driver tracker_open"
  have d: "wf_gps ?d" "semCmdSending ?d = None" "rx ?d = []" "maxSize (gpsNmeaBuffer ?d) = 2048" "gps_parser ?d = parse_state0"
    "gpsAckMsg ?d = None" "gps_ok ?d" "length south_frame < 2048"
    using GPS_Init_ok [of gps_state0] gps_ready_spec
    by (simp_all add: tracker_open_def GPS_SaveLog_def gps_ready_def gps_ok_def gps_state0_def parse_state0_ok
        GPS_DATA_BUFFER_MAX_LENGTH_def south_frame_def)
  obtain g where g: "GPS_Update gps_env0 south_frame ?d = Some (Inr g)"
    "gps_parser g = parse_frames [south_frame] parse_state0" and ga: "gpsAckMsg g = None"
    using GPS_Update_frames [OF d(1,2), of south_frame "[south_frame]" "[]" gps_env0] d south_frame_drained by auto
  have gok: "gps_ok g" using GPS_Update_ok [OF g(1) d(7)] by blast
  define t1 where "t1 = tracker_open\<lparr>driver := g, led_status := LED_SYS_ON\<rparr>"
  have e: "event_turn south_env (Gps_Uart_Received south_frame) tracker_open = Some (Inr t1)"
    using g(1) d(4) by (simp add: event_turn_def EventDispatch_def receive_gps_def south_env_def rbind_def Let_def t1_def)
      (simp add: tracker_open_def tracker0_def gps_open_def do_acts_def)
  have "turn tracker_open t1" by (rule turn.event [OF e]) (simp add: tracker_open_def gps_open_def)
  moreover have p1: "prev_lat t1 = 0" "prev_long t1 = 0" "task_at t1 = Wait_Position" "isGpsOn t1" "driver t1 = g"
    by (simp_all add: t1_def tracker_open_def tracker0_def gps_open_def do_acts_def)
  ultimately have r1: "reachable_within V t1" using tracker_open_reachable [of V] assms by (auto intro: reachable_within.step)
  have "mf_value (rmc_latitude (g_rmc (Gps_GetInfo (gps_parser (driver t1))))) \<noteq> 0"
    by (simp add: p1(5) g(2) Gps_GetInfo_def south_frame_parsed)
  then obtain t2 where t2: "start_up south_env 10 t1 = Some (Inr t2)" "starting t1 Tracking (slept t1 + 5000) t2"
    using start_up_ends [of t1 "slept t1" south_env] p1 gok ga by (auto simp: starting_def)
  have "reachable_within V t2 \<and> prev_lat t2 = prev_lat t1 \<and> prev_long t2 = prev_long t1 \<and> isGpsOn t2 = isGpsOn t1"
    by (rule start_up_reachable [OF t2(1) r1]) (simp add: assms p1)
  then show ?thesis using t2(2) p1 g(2) by (auto simp: starting_def)
qed

lemma south_degrees:
  "\<exists>x. degrees \<lparr>mf_value = - 22347758, mf_scale = 10000\<rparr> = Inr x \<and> x < 0"
  "\<exists>x. degrees \<lparr>mf_value = 113549654, mf_scale = 10000\<rparr> = Inr x"
proof -
  have "(case degrees \<lparr>mf_value = - 22347758, mf_scale = 10000\<rparr> of Inl _ \<Rightarrow> False | Inr x \<Rightarrow> x < 0)" by code_simp
  then show "\<exists>x. degrees \<lparr>mf_value = - 22347758, mf_scale = 10000\<rparr> = Inr x \<and> x < 0" by (auto split: sum.splits)
  show "\<exists>x. degrees \<lparr>mf_value = 113549654, mf_scale = 10000\<rparr> = Inr x" by (simp add: degrees_def Let_def)
qed

text \<open>One turn of the loop with the position of \<open>south_frame\<close>: it is reported and the dog is fed.\<close>

lemma south_turn:
  assumes "task_at t = Tracking" "isGpsOn t" "prev_lat t = 0" "falseGPS t"
    "gps_parser (driver t) = parse_frames [south_frame] parse_state0"
  shows "\<exists>t'. task_step south_env [] t = Some (Inr t') \<and> task_at t' = Tracking \<and> prev_lat t' < 0
    \<and> Watchdog_Feed \<in> set (acts t')"
proof -
  obtain lat lon where d: "degrees (rmc_latitude (g_rmc (Gps_GetInfo (gps_parser (driver t))))) = Inr lat" "lat < 0"
    "degrees (rmc_longitude (g_rmc (Gps_GetInfo (gps_parser (driver t))))) = Inr lon"
    using south_degrees by (auto simp: assms(5) Gps_GetInfo_def south_frame_parsed)
  obtain isFixed flag where f: "fix_state (Gps_GetInfo (gps_parser (driver t))) = (isFixed, Some ''no fix'', flag)"
    using south_frame_parsed(3) by (cases "fix_state (g_gps_info (parse_frames [south_frame] parse_state0))")
      (simp add: assms(5) Gps_GetInfo_def)
  have c: "falseGPS (check_position lat lon (do_acts as (t\<lparr>is_Fixed_flag := flag\<rparr>)))" for as
    using assms(3,4) by (simp add: check_position_def)
  obtain t1 where t1: "track_position south_env t = Some (Inr t1)"
    using d f c by (simp add: track_position_def Let_def rbind_def south_env_def)
  then have p: "task_at t1 = Tracking \<and> prev_lat t1 = lat"
    by (rule track_position_Inr) (use assms d in simp)
  show ?thesis using assms(1,2) t1 p d(2) by (simp add: task_step_def track_turn_def rbind_def Let_def)
qed

lemma south_run:
  "\<exists>t. reachable_within south_or_west t \<and> task_at t = Tracking \<and> prev_lat t < 0 \<and> Watchdog_Feed \<in> set (acts t)"
proof -
  obtain t where t: "reachable_within south_or_west t" "task_at t = Tracking" "isGpsOn t" "prev_lat t = 0"
    "gps_parser (driver t) = parse_frames [south_frame] parse_state0"
    using on_the_air [of south_or_west] by (auto simp: south_or_west_def)
  have "falseGPS t" using silent.always [OF t(1)] by (simp add: never_sent_def)
  from south_turn [OF t(2,3,4) this t(5)] obtain t' where t': "task_step south_env [] t = Some (Inr t')"
    "task_at t' = Tracking" "prev_lat t' < 0" "Watchdog_Feed \<in> set (acts t')" by blast
  have "south_or_west t'" using t'(3) by (simp add: south_or_west_def)
  with t(1) t' show ?thesis by (blast intro: reach_task)
qed

lemma reachable_anywhere: "reachable_within V t \<Longrightarrow> reachable t"
  by (induction rule: reachable_within.induct) (auto intro: reachable_within.intros)

text \<open>Waiting for the network, two seconds a round.\<close>

lemma waiting_rounds: "\<exists>t. reachable t \<and> task_at t = Wait_Network \<and> \<not> networkFlag t \<and> slept t = 2000 * n"
proof (induction n)
  case 0
  let ?t = "do_acts [Uart_Write (''Init now'' @ CRLF), Watchdog_Open 180] (tracker0\<lparr>dog := Some 180000, task_at := Wait_Network\<rparr>)"
  have "task_step south_env [] tracker0 = Some (Inr ?t)" by (simp add: task_step_def tracker0_def)
  from reach_task [OF reachable_within.start this] have "reachable ?t" by simp
  then show ?case by (intro exI [of _ ?t]) (simp add: tracker0_def)
next
  case (Suc n)
  then obtain t where t: "reachable t" "task_at t = Wait_Network" "\<not> networkFlag t" "slept t = 2000 * n" by blast
  let ?t = "os_sleep 2000 (do_acts [Uart_Write (''wait for gprs regiter complete'' @ CRLF)] t)"
  have "task_step south_env [] t = Some (Inr ?t)" using t by (simp add: task_step_def)
  from reach_task [OF t(1) this] have "reachable ?t" by simp
  then show ?case using t by (intro exI [of _ ?t]) simp
qed

section \<open>Every state\<close>

text \<open>C3: in every state the tracker reaches, whatever the network, the module and the SDK do: the driver is in
  order once it is initialised and no command is pending, no restart is requested and the device was
  never rebooted, the status is one of the first two, and the initialisation flag is set exactly in the
  loop.\<close>

theorem tracker_invariant:
  assumes "reachable t"
  shows "semCmdSending (driver t) = None \<and> (initialised t \<longrightarrow> gps_ok (driver t)) \<and> \<not> restart_flag t
    \<and> Reboot \<notin> set (acts t) \<and> led_status t \<in> {LED_SYS_ON, LED_NO_NETWORK} \<and> (init_done_flag t \<longleftrightarrow> task_at t = Tracking)"
  using ok.always [OF assms] by (simp add: tracker_ok_def driver_ok_def)

theorem tracker_invariant_witness:
  "\<exists>t. reachable t \<and> task_at t = Tracking \<and> init_done_flag t \<and> gps_ok (driver t)"
proof -
  obtain t where "reachable t" "task_at t = Tracking" using south_run reachable_anywhere by blast
  with tracker_invariant [OF this(1)] show ?thesis by (auto simp: initialised_def)
qed



text \<open>C6: a tracker whose positions are never both positive, that is one in the southern or the western
  hemisphere, never sends a position: the flag for a false reading starts true and is only computed for
  positive previous coordinates.\<close>

theorem south_never_uploads:
  assumes "reachable_within south_or_west t"
  shows "falseGPS t \<and> (\<forall>net. Http net \<notin> set (acts t))"
  using silent.always [OF assms] by (simp add: never_sent_def)

theorem south_never_uploads_witness:
  "\<exists>t. reachable_within south_or_west t \<and> task_at t = Tracking \<and> prev_lat t < 0 \<and> (\<forall>net. Http net \<notin> set (acts t))"
  using south_run south_never_uploads by blast

theorem start_up_completes_witness:
  "\<exists>t t'. start_up south_env 10 t = Some (Inr t') \<and> slept t' = slept t + 5000 \<and> task_at t' = Tracking"
proof -
  let ?t = "tracker0\<lparr>task_at := Wait_Position, driver := gps_ready\<lparr>gps_parser := parse_frames [south_frame] parse_state0\<rparr>\<rparr>"
  have "parse_ok (parse_frames [south_frame] parse_state0)"
    using parse_state0_ok by (simp add: parse_frames_def GPS_Parse_ok)
  then have "gps_ok (driver ?t)" using gps_ready_spec by (simp add: gps_ok_def GPS_DATA_BUFFER_MAX_LENGTH_def)
  from start_up_completes [of ?t south_env, OF _ this] show ?thesis
    by (force simp: Gps_GetInfo_def south_frame_parsed)
qed

end
