(* ===== verification/Device.thy ===== *)
theory Device
  imports Prelude
begin

text \<open>
  The set-up of the device: the motion sensor and the start of the tasks in \<^verbatim>\<open>firmware/app/src/app.c\<close>, and
  the memory dump of \<^verbatim>\<open>firmware/libs/utils/src/api_debug.c\<close>.
\<close>

section \<open>The motion sensor\<close>

datatype dev_act =
    I2c_Init
  | I2c_Read int int
  | I2c_Write int int int
  | Dev_Sleep nat
  | Int_Init nat nat
  | Auto_Update_Rtc
  | Power_Vpad
  | Gpio_Out nat bool
  | Uart_Init nat nat
  | Create_Task string
  | Start_Blink nat
  | Set_Main_Handle
  | Uart_Text "byte list"

text \<open>The \<open>k\<close>-th transaction on the bus fails, or not; the interrupt pin can be set up, or not.\<close>

record mpu_env =
  i2c_fails :: "nat \<Rightarrow> bool"
  int_init_ok :: bool

definition MPU_ADDRESS :: int where "MPU_ADDRESS = 104"

text \<open>The registers that are written, in order, with their values.\<close>

definition mpu_registers :: "(int \<times> int) list" where
  "mpu_registers =
    [(107, 0), (104, 7), (55, 32), (28, 1), (31, 10), (32, 40), (105, 21), (56, 64), (55, 160)]"

fun write_registers :: "mpu_env \<Rightarrow> nat \<Rightarrow> (int \<times> int) list \<Rightarrow> bool \<times> dev_act list" where
  "write_registers env k [] = (True, [])"
| "write_registers env k ((reg, val) # rs) =
     (if i2c_fails env k then (False, [I2c_Write MPU_ADDRESS reg val])
      else let (ok, as) = write_registers env (Suc k) rs in (ok, I2c_Write MPU_ADDRESS reg val # as))"

definition MPU_Init :: "mpu_env \<Rightarrow> bool \<times> dev_act list" where
  "MPU_Init env =
     (if i2c_fails env 0 then (False, [I2c_Init, I2c_Read MPU_ADDRESS 117])
      else
        let (ok, as) = write_registers env 1 mpu_registers;
            acts = [I2c_Init, I2c_Read MPU_ADDRESS 117, Dev_Sleep 3000] @ as
        in if \<not> ok then (False, acts)
           else if \<not> int_init_ok env then (False, acts @ [Int_Init 3 50])
           else (True, acts @ [Int_Init 3 50]))"

definition OnMotion_MPU :: "dev_act list" where
  "OnMotion_MPU = [Uart_Text ''MPU HIT HIT'']"

section \<open>The start of the tasks\<close>

definition MAIN_TASK_NAME :: string where "MAIN_TASK_NAME = ''GPS Test Task''"

text \<open>\<open>gps_MainTask\<close> up to its event loop; the result of \<open>MPU_Init\<close> is not used.\<close>

definition gps_MainTask_setup :: "mpu_env \<Rightarrow> dev_act list" where
  "gps_MainTask_setup env =
     [Auto_Update_Rtc, Power_Vpad, Gpio_Out 27 False, Gpio_Out 28 False, Uart_Init 1 115200] @ snd (MPU_Init env)
     @ [Create_Task MAIN_TASK_NAME, Start_Blink 1000]"

definition app_Main :: "dev_act list" where
  "app_Main = [Create_Task MAIN_TASK_NAME, Set_Main_Handle]"

text \<open>What a sequence of calls leaves in the sensor's registers.\<close>

fun mpu_memory :: "dev_act list \<Rightarrow> (int \<Rightarrow> int option) \<Rightarrow> int \<Rightarrow> int option" where
  "mpu_memory [] m = m"
| "mpu_memory (I2c_Write addr reg val # as) m = mpu_memory as (m(reg \<mapsto> val))"
| "mpu_memory (_ # as) m = mpu_memory as m"

lemma write_registers_ok:
  "fst (write_registers env k rs) \<longleftrightarrow> (\<forall>i<length rs. \<not> i2c_fails env (k + i))"
  by (induction env k rs rule: write_registers.induct) (auto simp: All_less_Suc2 prod.case_eq_if Let_def)

lemma write_registers_acts:
  "fst (write_registers env k rs) \<Longrightarrow> snd (write_registers env k rs) = map (\<lambda>(r, v). I2c_Write MPU_ADDRESS r v) rs"
  by (induction env k rs rule: write_registers.induct) (auto simp: prod.case_eq_if Let_def split: if_splits)

text \<open>The sensor is set up exactly when the ten transactions on the bus and the set-up of the interrupt pin
  succeed; the registers then hold the threshold 10, the duration 40 (not 1), the motion interrupt
  enabled and, because it is written twice, the pin configuration 160 instead of the 32 its comment
  asks for.\<close>

theorem mpu_init_registers:
  "(fst (MPU_Init env) \<longleftrightarrow> (\<forall>k<10. \<not> i2c_fails env k) \<and> int_init_ok env)
    \<and> (fst (MPU_Init env) \<longrightarrow> mpu_memory (snd (MPU_Init env)) (\<lambda>_. None)
        = [107 \<mapsto> 0, 104 \<mapsto> 7, 55 \<mapsto> 160, 28 \<mapsto> 1, 31 \<mapsto> 10, 32 \<mapsto> 40, 105 \<mapsto> 21, 56 \<mapsto> 64])"
proof -
  have ten: "(\<forall>k<10. \<not> i2c_fails env k) \<longleftrightarrow> \<not> i2c_fails env 0 \<and> (\<forall>i<9. \<not> i2c_fails env (1 + i))"
    using All_less_Suc2 [of 9 "\<lambda>k. \<not> i2c_fails env k"] by simp
  have len: "length mpu_registers = 9" by (simp add: mpu_registers_def)
  have "fst (MPU_Init env) \<longleftrightarrow> (\<forall>k<10. \<not> i2c_fails env k) \<and> int_init_ok env"
    using write_registers_ok [of env 1 mpu_registers] ten len by (simp add: MPU_Init_def Let_def prod.case_eq_if)
  moreover have "mpu_memory (snd (MPU_Init env)) (\<lambda>_. None)
        = [107 \<mapsto> 0, 104 \<mapsto> 7, 55 \<mapsto> 160, 28 \<mapsto> 1, 31 \<mapsto> 10, 32 \<mapsto> 40, 105 \<mapsto> 21, 56 \<mapsto> 64]" if "fst (MPU_Init env)"
  proof -
    have w: "fst (write_registers env 1 mpu_registers)" using that by (auto simp: MPU_Init_def Let_def prod.case_eq_if split: if_splits)
    have "snd (MPU_Init env) = [I2c_Init, I2c_Read MPU_ADDRESS 117, Dev_Sleep 3000]
        @ map (\<lambda>(r, v). I2c_Write MPU_ADDRESS r v) mpu_registers @ [Int_Init 3 50]"
      using that write_registers_acts [OF w] by (auto simp: MPU_Init_def Let_def prod.case_eq_if split: if_splits)
    then show ?thesis by (simp add: mpu_registers_def) (rule ext, simp)
  qed
  ultimately show ?thesis by blast
qed

theorem mpu_init_registers_witness:
  "mpu_memory (snd (MPU_Init \<lparr>i2c_fails = \<lambda>_. False, int_init_ok = True\<rparr>)) (\<lambda>_. None) 55 = Some 160"
  using mpu_init_registers [of "\<lparr>i2c_fails = \<lambda>_. False, int_init_ok = True\<rparr>"] by simp

section \<open>The memory dump\<close>

definition hex_digit :: "nat \<Rightarrow> byte" where
  "hex_digit n = ''0123456789abcdef'' ! n"

definition fmt_02x :: "byte \<Rightarrow> byte list" where
  "fmt_02x b = [hex_digit (nat (uchar b) div 16), hex_digit (nat (uchar b) mod 16)]"

text \<open>\<open>%3d\<close>\<close>

definition fmt_3d :: "byte \<Rightarrow> byte list" where
  "fmt_3d b = (let s = fmt_u (nat (uchar b)) in replicate (3 - length s) CHR '' '' @ s)"

definition dump_cell :: "nat \<Rightarrow> byte \<Rightarrow> byte list" where
  "dump_cell radix b = (if radix = 10 then fmt_3d b @ '' '' else fmt_02x b @ '' '')"

text \<open>
  The loop: \<open>s\<close> has 4 bytes, \<open>line_buff\<close> 64, each with its NUL. A line that is printed goes with the index
  of the byte behind it.
\<close>

fun dump_loop :: "nat \<Rightarrow> byte list \<Rightarrow> nat \<Rightarrow> byte list \<Rightarrow> (nat \<times> byte list) list \<Rightarrow> (byte list \<times> (nat \<times> byte list) list) result" where
  "dump_loop radix [] i line out = Inr (line, out)"
| "dump_loop radix (b # bs) i line out =
     (let s = dump_cell radix b
      in if 4 < length s + 1 then Inl Out_Of_Bounds
         else if i \<noteq> 0 \<and> radix = 0 then Inl Division_By_Zero
         else
           let (line, out) = (if i \<noteq> 0 \<and> i mod radix = 0 then ([], out @ [(i, line)]) else (line, out))
           in if 64 < length line + length s + 1 then Inl Out_Of_Bounds
              else dump_loop radix bs (Suc i) (line @ s) out)"

definition Trace_MemBlock :: "byte list \<Rightarrow> nat \<Rightarrow> (nat \<times> byte list) list result" where
  "Trace_MemBlock buffer radix =
     (case dump_loop radix buffer 0 [] [] of
        Inl e \<Rightarrow> Inl e
      | Inr (line, out) \<Rightarrow> Inr (if length line > 0 then out @ [(length buffer, line)] else out))"

lemma short_numbers: "n < 10 \<Longrightarrow> length (fmt_u n) = 1" "n < 100 \<Longrightarrow> length (fmt_u n) \<le> 2" "n < 1000 \<Longrightarrow> length (fmt_u n) \<le> 3"
proof -
  show a: "length (fmt_u n) = 1" if "n < 10" for n using that by (subst fmt_u.simps) simp
  show b: "length (fmt_u n) \<le> 2" if "n < 100" for n
    using that a [of n] a [of "n div 10"] by (cases "n < 10") (simp, subst fmt_u.simps, simp)
  show "length (fmt_u n) \<le> 3" if "n < 1000"
    using that a [of n] b [of "n div 10"] by (cases "n < 10") (simp, subst fmt_u.simps, simp)
qed

lemma dump_cell_length: "length (dump_cell radix b) = (if radix = 10 then 4 else 3)"
proof -
  have "nat (uchar b) < 1000" using uchar_range(2) [of b] by linarith
  from short_numbers(3) [OF this] show ?thesis by (simp add: dump_cell_def fmt_3d_def fmt_02x_def Let_def)
qed

text \<open>The line holds the cells since the last flush, one to \<open>radix\<close> of them.\<close>

definition cells_in_line :: "nat \<Rightarrow> nat \<Rightarrow> nat" where
  "cells_in_line radix i = (if i = 0 then 0 else if radix = 0 then i else (i - 1) mod radix + 1)"

lemma cells_next:
  assumes "0 < radix"
  shows "cells_in_line radix (Suc i) = (if i \<noteq> 0 \<and> i mod radix = 0 then 1 else cells_in_line radix i + 1)"
proof (cases "i = 0")
  case False
  then obtain m where i: "i = Suc m" by (cases i) auto
  show ?thesis using assms by (simp add: cells_in_line_def i mod_Suc)
qed (simp add: cells_in_line_def)

lemma dump_loop_ok:
  assumes "radix \<noteq> 10" "0 < radix" "length line = 3 * cells_in_line radix i" "radix \<le> 21 \<or> i \<le> 21"
  shows "(\<exists>r. dump_loop radix bs i line out = Inr r) \<longleftrightarrow> radix \<le> 21 \<or> i + length bs \<le> 21"
  using assms(3,4)
proof (induction bs arbitrary: i line out)
  case Nil
  then show ?case by simp
next
  case (Cons b bs)
  let ?s = "dump_cell radix b"
  let ?line = "if i \<noteq> 0 \<and> i mod radix = 0 then [] else line"
  let ?out = "if i \<noteq> 0 \<and> i mod radix = 0 then out @ [(i, line)] else out"
  have s: "length ?s = 3" using assms(1) by (simp add: dump_cell_length)
  have n: "length (?line @ ?s) = 3 * cells_in_line radix (Suc i)"
    using Cons(2) s by (simp add: cells_next [OF assms(2)])
  have step: "dump_loop radix (b # bs) i line out =
      (if 21 < cells_in_line radix (Suc i) then Inl Out_Of_Bounds else dump_loop radix bs (Suc i) (?line @ ?s) ?out)"
    using n s assms(2) by (cases "i \<noteq> 0 \<and> i mod radix = 0") (auto simp: Let_def)
  show ?case
  proof (cases "21 < cells_in_line radix (Suc i)")
    case True
    then have m: "21 \<le> i mod radix" using assms(2) by (simp add: cells_in_line_def)
    then have "\<not> radix \<le> 21" "\<not> Suc i \<le> 21"
      using mod_less_divisor [OF assms(2), of i] mod_less_eq_dividend [of i radix] by linarith+
    then show ?thesis using True step by simp
  next
    case False
    then have "radix \<le> 21 \<or> Suc i \<le> 21"
      using Cons(3) by (cases "radix \<le> 21") (simp_all add: cells_in_line_def)
    from Cons.IH [OF n this] show ?thesis unfolding step using False by simp
  qed
qed

text \<open>The dump succeeds exactly for an empty block or when the radix is not ten, whose cells of four characters do
  not fit the buffer of a cell, is not zero (unless there is one byte), and leaves at most 21 cells for
  a line; every other dump of a byte writes behind a buffer or divides by zero.\<close>

theorem dump_ok_iff:
  "(\<exists>r. Trace_MemBlock buffer radix = Inr r) \<longleftrightarrow>
     buffer = [] \<or> radix \<noteq> 10 \<and> (radix \<noteq> 0 \<or> length buffer = 1) \<and> (radix \<le> 21 \<or> length buffer \<le> 21)"
proof -
  have t: "(\<exists>r. Trace_MemBlock buffer radix = Inr r) \<longleftrightarrow> (\<exists>r. dump_loop radix buffer 0 [] [] = Inr r)"
    by (auto simp: Trace_MemBlock_def split: sum.splits)
  consider "radix = 10" | "radix = 0" | "radix \<noteq> 10" "0 < radix" by auto
  then show ?thesis
  proof cases
    case 1
    then show ?thesis unfolding t by (cases buffer) (simp_all add: dump_cell_length Let_def)
  next
    case 2
    show ?thesis
    proof (cases buffer)
      case (Cons b bs)
      then show ?thesis unfolding t using 2 by (cases bs) (simp_all add: dump_cell_length Let_def)
    qed (simp add: Trace_MemBlock_def)
  next
    case 3
    then show ?thesis unfolding t using dump_loop_ok [OF 3, of "[]" 0 buffer "[]"] by (auto simp: cells_in_line_def)
  qed
qed

theorem dump_ok_iff_witness:
  "(\<exists>r. Trace_MemBlock (replicate 3 CHR 0xFF) 2 = Inr r) \<and> Trace_MemBlock [CHR 0x41] 10 = Inl Out_Of_Bounds
    \<and> Trace_MemBlock [CHR 0x41, CHR 0x42, CHR 0xFF] 2 = Inr [(2, ''41 42 ''), (3, ''ff '')]"
proof (intro conjI)
  show "\<exists>r. Trace_MemBlock (replicate 3 CHR 0xFF) 2 = Inr r" by (subst dump_ok_iff) simp
qed code_simp+

end
