(* ===== verification/Options.thy ===== *)
theory Options
  imports Tracker_Start Device
begin

text \<open>
  The parts of \<^verbatim>\<open>firmware/app/src/app.c\<close> that its switches leave out of the verified configuration: calls, text
  messages, the vibration sensor and the low power mode. The switches are an argument; with all of them off the
  functions are those of \<open>Tracker\<close>.
\<close>

section \<open>The optional parts\<close>

record switches =
  USE_CALL :: bool
  USE_SMS :: bool
  USE_VIBRATION_SENSOR :: bool
  USE_LOW_POW_MODE :: bool

text \<open>
  A text message comes with its encoding, the length and the block of its content. \<open>convert\<close> stands for
  \<open>SMS_Unicode2LocalLanguage\<close>: the block and the length of the converted text, or nothing when it fails.
\<close>

datatype option_event =
    Api api_event
  | Call_Hangup
  | Call_Incoming
  | Call_Answered
  | Call_Dtmf
  | Sms_Received bool nat "byte list"
  | Sms_Error

definition unicode_pair :: "byte \<Rightarrow> byte \<Rightarrow> byte list" where
  "unicode_pair b c = CHR 0x5C # CHR ''u'' # fmt_02x b @ fmt_02x c"

definition gbk_pair :: "byte \<Rightarrow> byte \<Rightarrow> byte list" where
  "gbk_pair b c = fmt_02x b @ fmt_02x c @ '' ''"

text \<open>\<open>tmp\<close> has 500 bytes; each turn appends the text of two bytes and its NUL.\<close>

function append_pairs :: "(byte \<Rightarrow> byte \<Rightarrow> byte list) \<Rightarrow> byte list \<Rightarrow> nat \<Rightarrow> nat \<Rightarrow> byte list \<Rightarrow> byte list result" where
  "append_pairs f block n i tmp =
     (if i < n then
        if i + 1 < length block then
          let s = tmp @ f (block ! i) (block ! (i + 1))
          in if length s + 1 \<le> 500 then append_pairs f block n (i + 2) s else Inl Out_Of_Bounds
        else Inl Out_Of_Bounds
      else Inr tmp)"
  by pat_completeness auto
termination by (relation "measure (\<lambda>(f, block, n, i, tmp). n - i)") auto

declare append_pairs.simps [simp del]

definition sms_received :: "(byte list \<Rightarrow> (byte list \<times> nat) option) \<Rightarrow> bool \<Rightarrow> nat \<Rightarrow> byte list \<Rightarrow> tracker \<Rightarrow> tracker result" where
  "sms_received convert ascii contentLength content t =
     (if ascii then
        if contentLength \<le> length content then Inr (do_acts [Uart_Write (take contentLength content)] t) else Inl Out_Of_Bounds
      else
        rbind (append_pairs unicode_pair content contentLength 0 []) (\<lambda>tmp.
          case convert (take contentLength content) of
            None \<Rightarrow> Inr t
          | Some (gbk, gbkLen) \<Rightarrow>
              rbind (append_pairs gbk_pair gbk gbkLen 0 []) (\<lambda>tmp.
                if gbkLen \<le> length gbk then Inr (do_acts [Uart_Write (take gbkLen gbk)] t) else Inl Out_Of_Bounds)))"

text \<open>The three calls of \<open>SMSInit\<close>; the arguments are whether the first two succeed.\<close>

definition SMSInit :: "bool \<Rightarrow> bool \<Rightarrow> tracker \<Rightarrow> tracker" where
  "SMSInit format_ok parameter_ok t =
     (if \<not> format_ok then do_acts [Sms_Set_Format] t
      else if \<not> parameter_ok then do_acts [Sms_Set_Format, Sms_Set_Parameter 17 167 0 8] t
      else do_acts [Sms_Set_Format, Sms_Set_Parameter 17 167 0 8, Sms_Set_Storage] t)"

text \<open>The event task sleeps five seconds before it takes a call; the position task goes on meanwhile.\<close>

definition EventDispatch_opt ::
  "switches \<Rightarrow> (byte list \<Rightarrow> (byte list \<times> nat) option) \<Rightarrow> tracker_env \<Rightarrow> option_event \<Rightarrow> tracker \<Rightarrow> tracker result option" where
  "EventDispatch_opt sw convert env ev t =
     (case ev of
        Api e \<Rightarrow> EventDispatch env e t
      | Call_Hangup \<Rightarrow> Some (Inr t)
      | Call_Incoming \<Rightarrow> Some (Inr (if USE_CALL sw then do_acts [Sleep 5000, Call_Answer] t else t))
      | Call_Answered \<Rightarrow> Some (Inr t)
      | Call_Dtmf \<Rightarrow> Some (Inr t)
      | Sms_Received ascii n content \<Rightarrow>
          Some (if USE_SMS sw then sms_received convert ascii n content t else Inr t)
      | Sms_Error \<Rightarrow> Some (Inr t))"

definition OnMotion :: "tracker \<Rightarrow> tracker" where
  "OnMotion t = (if \<not> motion t \<and> init_done_flag t then t\<lparr>restart_flag := True\<rparr> else t)"

definition low_power_mode :: "tracker \<Rightarrow> tracker" where
  "low_power_mode t = do_acts [Flight_Mode True] ((gps_close t)\<lparr>isGpsOn := False\<rparr>)"

text \<open>The interrupt of the sensor is set up once the tracker stands still.\<close>

definition watch_vibration :: "tracker \<Rightarrow> tracker" where
  "watch_vibration t =
     (if motion t then t
      else if int_status t then t
      else do_acts [Vibration_Close, Vibration_Init] (t\<lparr>int_status := True\<rparr>))"

definition event_turn_opt ::
  "switches \<Rightarrow> (byte list \<Rightarrow> (byte list \<times> nat) option) \<Rightarrow> tracker_env \<Rightarrow> option_event \<Rightarrow> tracker \<Rightarrow> tracker result option" where
  "event_turn_opt sw convert env ev t =
     map_option (\<lambda>r. rbind r (\<lambda>t1.
         let t2 = (if restart_flag t1 then do_acts [Reboot] t1 else t1);
             t3 = (if USE_LOW_POW_MODE sw \<and> low_pow_mode_flag t2 then low_power_mode t2 else t2);
             t4 = (if isGpsOn t3 \<and> networkFlag t3 then t3\<lparr>led_status := LED_SYS_ON\<rparr> else t3)
         in Inr (if USE_VIBRATION_SENSOR sw then watch_vibration t4 else t4)))
       (EventDispatch_opt sw convert env ev t)"

definition track_turn_opt :: "switches \<Rightarrow> tracker_env \<Rightarrow> tracker \<Rightarrow> tracker result option" where
  "track_turn_opt sw env t =
     map_option (\<lambda>r. rbind r (\<lambda>t1.
         let t2 = do_acts [Min_Freq_32K] (feed_dog t1);
             t3 = (if motion t2 then os_sleep 2000 t2
                   else os_sleep (60000 * 2) (if USE_LOW_POW_MODE sw then t2\<lparr>low_pow_mode_flag := True\<rparr> else t2))
         in Inr (do_acts [Min_Freq_178M] t3)))
       (if isGpsOn t then track_position env t else Some (Inr t))"

definition task_step_opt :: "switches \<Rightarrow> tracker_env \<Rightarrow> gps_event list \<Rightarrow> tracker \<Rightarrow> tracker result option" where
  "task_step_opt sw env evs t = (if task_at t = Tracking then track_turn_opt sw env t else task_step env evs t)"

section \<open>All switches off\<close>

definition all_off :: switches where
  "all_off = \<lparr>USE_CALL = False, USE_SMS = False, USE_VIBRATION_SENSOR = False, USE_LOW_POW_MODE = False\<rparr>"

definition low_power_on :: switches where
  "low_power_on = all_off\<lparr>USE_LOW_POW_MODE := True\<rparr>"

lemma EventDispatch_off:
  "EventDispatch_opt all_off convert env ev t = EventDispatch env (case ev of Api e \<Rightarrow> e | _ \<Rightarrow> Other_Event) t"
  by (simp add: EventDispatch_opt_def EventDispatch_def all_off_def split: option_event.split)

lemma event_turn_off: "event_turn_opt all_off convert env (Api ev) t = event_turn env ev t"
  by (simp add: event_turn_opt_def event_turn_def EventDispatch_off) (simp add: all_off_def)

lemma track_turn_off: "track_turn_opt all_off env t = track_turn env t"
proof -
  have "(if motion t2 then os_sleep 2000 t2 else os_sleep (60000 * 2) (if USE_LOW_POW_MODE all_off then t2\<lparr>low_pow_mode_flag := True\<rparr> else t2))
      = os_sleep (if motion t2 then 2000 else 60000 * 2) t2" for t2
    by (simp add: all_off_def)
  then show ?thesis by (simp only: track_turn_opt_def track_turn_def)
qed

lemma task_step_off: "task_step_opt all_off env evs t = task_step env evs t"
  by (simp add: task_step_opt_def task_step_def track_turn_off)

section \<open>Text messages\<close>

lemma pair_length: "length (unicode_pair b c) = 6" "length (gbk_pair b c) = 5"
  by (simp_all add: unicode_pair_def gbk_pair_def fmt_02x_def)

lemma append_pairs_fits:
  assumes "\<And>b c. length (f b c) = w" "n < length block" "length tmp < 500"
  shows "if length tmp + w * ((n + 1 - i) div 2) < 500 then \<exists>r. append_pairs f block n i tmp = Inr r
    else append_pairs f block n i tmp = Inl Out_Of_Bounds"
  using assms
proof (induction f block n i tmp rule: append_pairs.induct)
  case (1 f block n i tmp)
  let ?s = "tmp @ f (block ! i) (block ! (i + 1))"
  show ?case
  proof (cases "i < n")
    case True
    have k: "(n + 1 - i) div 2 = Suc ((n + 1 - (i + 2)) div 2)" using True by linarith
    have s: "length ?s = length tmp + w" using 1(2) by simp
    show ?thesis
    proof (cases "length ?s + 1 \<le> 500")
      case fits: True
      have step: "append_pairs f block n i tmp = append_pairs f block n (i + 2) ?s"
        using True 1(3) fits by (subst append_pairs.simps) (simp add: Let_def)
      have "i + 1 < length block" "length ?s < 500" using True 1(3) fits by simp_all
      from 1(1) [OF True this(1) refl fits 1(2,3) this(2)] show ?thesis unfolding step k s by (simp add: add.assoc)
    next
      case False
      then have "append_pairs f block n i tmp = Inl Out_Of_Bounds"
        using True by (subst append_pairs.simps) (simp add: Let_def)
      moreover have "\<not> length tmp + w * ((n + 1 - i) div 2) < 500" using False s k by simp
      ultimately show ?thesis by simp
    qed
  next
    case False
    then have "(n + 1 - i) div 2 = 0" by simp
    then show ?thesis using False 1(4) by (subst append_pairs.simps) simp
  qed
qed

text \<open>C38: A text message in Unicode is handled when it has at most 166 bytes and its conversion at most
  198: then the converted text goes out on the UART. A longer one overruns the 500 bytes of
  \<open>tmp\<close>.\<close>

theorem sms_unicode_handled_iff:
  assumes "n < length content" "convert (take n content) = Some (gbk, m)" "m < length gbk"
  shows "sms_received convert False n content t =
     (if n \<le> 166 \<and> m \<le> 198 then Inr (do_acts [Uart_Write (take m gbk)] t) else Inl Out_Of_Bounds)"
proof -
  have bounds: "length ([] :: byte list) + 6 * ((n + 1 - 0) div 2) < 500 \<longleftrightarrow> n \<le> 166"
    "length ([] :: byte list) + 5 * ((m + 1 - 0) div 2) < 500 \<longleftrightarrow> m \<le> 198"
    by (simp, presburger)+
  have u: "if n \<le> 166 then \<exists>r. append_pairs unicode_pair content n 0 [] = Inr r
      else append_pairs unicode_pair content n 0 [] = Inl Out_Of_Bounds"
    using append_pairs_fits [of unicode_pair 6 n content "[]" 0, OF pair_length(1) assms(1)] unfolding bounds by simp
  have g: "if m \<le> 198 then \<exists>r. append_pairs gbk_pair gbk m 0 [] = Inr r
      else append_pairs gbk_pair gbk m 0 [] = Inl Out_Of_Bounds"
    using append_pairs_fits [of gbk_pair 5 m gbk "[]" 0, OF pair_length(2) assms(3)] unfolding bounds by simp
  show ?thesis using u g assms by (cases "n \<le> 166"; cases "m \<le> 198") (auto simp: sms_received_def)
qed

theorem sms_unicode_handled_iff_witness:
  "sms_received (\<lambda>s. Some ([CHR ''A'', NUL], 1)) False 2 [NUL, CHR ''A'', NUL] tracker0 = Inr (do_acts [Uart_Write ''A''] tracker0)"
  using sms_unicode_handled_iff [of 2 "[NUL, CHR ''A'', NUL]" "\<lambda>s. Some ([CHR ''A'', NUL], 1)" "[CHR ''A'', NUL]" 1 tracker0] by simp

section \<open>What an event leaves alone\<close>

lemma option_acts_quiet [simp]:
  "quiet (Flight_Mode b)" "quiet Vibration_Close" "quiet Vibration_Init" "quiet Call_Answer"
  by (simp_all add: quiet_def)

lemma option_flags_simps [simp]:
  "low_pow_mode_flag (do_acts as t) = low_pow_mode_flag t" "int_status (do_acts as t) = int_status t"
  "low_pow_mode_flag (os_sleep n t) = low_pow_mode_flag t" "low_pow_mode_flag (gps_open t) = low_pow_mode_flag t"
  "low_pow_mode_flag (gps_close t) = low_pow_mode_flag t" "low_pow_mode_flag (feed_dog t) = low_pow_mode_flag t"
  by (simp_all add: do_acts_def os_sleep_def gps_open_def gps_close_def feed_dog_def)

lemma sms_received_Inr: "\<exists>as. t' = do_acts as t \<and> list_all quiet as" if "sms_received convert ascii n content t = Inr t'"
proof -
  have "t' = t \<or> (\<exists>bs. t' = do_acts [Uart_Write bs] t)"
    using that by (auto simp: sms_received_def rbind_Inr split: if_splits option.splits)
  moreover have "t = do_acts [] t" by (simp add: do_acts_def)
  ultimately show ?thesis by (metis list.pred_inject quiet_simps(8))
qed

lemma registered_flag: "registered env t = Inr t' \<Longrightarrow> low_pow_mode_flag t' = low_pow_mode_flag t"
  by (auto simp: registered_def split: option.splits if_splits)

lemma EventDispatch_flag:
  assumes "EventDispatch env ev t = Some (Inr t')"
  shows "low_pow_mode_flag t' = low_pow_mode_flag t"
proof (cases ev)
  case (Gps_Uart_Received data)
  then show ?thesis using assms by (auto simp: EventDispatch_def rbind_Inr)
next
  case (Uart_Received p data)
  then show ?thesis using assms by (auto simp: EventDispatch_def split: if_splits)
qed (use assms in \<open>auto simp: EventDispatch_def dest: registered_flag\<close>)

lemma EventDispatch_opt_frame:
  assumes "EventDispatch_opt sw convert env ev t = Some (Inr t')"
  shows "same_task t t' \<and> low_pow_mode_flag t' = low_pow_mode_flag t"
proof (cases ev)
  case (Api e)
  then show ?thesis using assms EventDispatch_frame EventDispatch_flag by (auto simp: EventDispatch_opt_def)
next
  case (Sms_Received ascii n content)
  then show ?thesis using assms sms_received_Inr
    by (auto simp: EventDispatch_opt_def split: if_splits dest!: sms_received_Inr)
qed (use assms in \<open>auto simp: EventDispatch_opt_def split: if_splits\<close>)

text \<open>One turn of the event loop, in its four stages.\<close>

lemma event_turn_opt_Inr:
  assumes "event_turn_opt sw convert env ev t = Some (Inr t')"
  obtains t1 where "EventDispatch_opt sw convert env ev t = Some (Inr t1)"
    "t' = (let t2 = (if restart_flag t1 then do_acts [Reboot] t1 else t1);
             t3 = (if USE_LOW_POW_MODE sw \<and> low_pow_mode_flag t2 then low_power_mode t2 else t2);
             t4 = (if isGpsOn t3 \<and> networkFlag t3 then t3\<lparr>led_status := LED_SYS_ON\<rparr> else t3)
         in if USE_VIBRATION_SENSOR sw then watch_vibration t4 else t4)"
  using assms unfolding event_turn_opt_def by (auto simp: rbind_Inr Let_def)

section \<open>The vibration sensor\<close>

text \<open>With the vibration sensor, a hit while the tracker stands still after its start restarts it: the
  next event, whatever it is, ends in a reboot; a hit at any other time changes nothing.\<close>
lemma hit_restarts:
  assumes "event_turn_opt sw convert env ev (OnMotion t) = Some (Inr t')"
  shows "(\<not> motion t \<and> init_done_flag t \<longrightarrow> (\<exists>as. acts t' = acts t @ as \<and> Reboot \<in> set as))
    \<and> (motion t \<or> \<not> init_done_flag t \<longrightarrow> OnMotion t = t)"
proof -
  have "\<exists>as. acts t' = acts t @ as \<and> Reboot \<in> set as" if still: "\<not> motion t" "init_done_flag t"
  proof -
    obtain t1 where t1: "EventDispatch_opt sw convert env ev (OnMotion t) = Some (Inr t1)"
      and t': "t' = (let t2 = (if restart_flag t1 then do_acts [Reboot] t1 else t1);
             t3 = (if USE_LOW_POW_MODE sw \<and> low_pow_mode_flag t2 then low_power_mode t2 else t2);
             t4 = (if isGpsOn t3 \<and> networkFlag t3 then t3\<lparr>led_status := LED_SYS_ON\<rparr> else t3)
         in if USE_VIBRATION_SENSOR sw then watch_vibration t4 else t4)"
      using event_turn_opt_Inr [OF assms] by blast
    have "restart_flag t1" "\<exists>as. acts t1 = acts t @ as"
      using EventDispatch_opt_frame [OF t1] still by (auto simp: same_task_def OnMotion_def)
    then show ?thesis unfolding t' by (auto simp: Let_def low_power_mode_def watch_vibration_def)
  qed
  then show ?thesis by (auto simp: OnMotion_def)
qed

lemma hit_restarts_example:
  "\<exists>t'. event_turn_opt all_off (\<lambda>_. None) south_env (Api Other_Event)
      (OnMotion (tracker0\<lparr>motion := False, init_done_flag := True\<rparr>)) = Some (Inr t') \<and> Reboot \<in> set (acts t')"
proof -
  let ?t = "tracker0\<lparr>motion := False, init_done_flag := True\<rparr>"
  obtain t' where t': "event_turn_opt all_off (\<lambda>_. None) south_env (Api Other_Event) (OnMotion ?t) = Some (Inr t')"
    by (auto simp: event_turn_off event_turn_def EventDispatch_def Let_def)
  from hit_restarts [OF this] obtain as where "acts t' = acts ?t @ as" "Reboot \<in> set as" by auto
  with t' show ?thesis by auto
qed

section \<open>The low power mode\<close>

text \<open>The position task, the event task, the blink timer and the interrupt take turns.\<close>

inductive turn_opt :: "switches \<Rightarrow> (byte list \<Rightarrow> (byte list \<times> nat) option) \<Rightarrow> tracker \<Rightarrow> tracker \<Rightarrow> bool" for sw convert where
  position_opt: "task_step_opt sw env evs t = Some (Inr t') \<Longrightarrow> turn_opt sw convert t t'"
| event_opt: "event_turn_opt sw convert env ev t = Some (Inr t') \<Longrightarrow> turn_opt sw convert t t'"
| blink_opt: "turn_opt sw convert t (LED_Blink t)"
| hit_opt: "USE_VIBRATION_SENSOR sw \<Longrightarrow> turn_opt sw convert t (OnMotion t)"

definition asleep :: "tracker \<Rightarrow> bool" where
  "asleep t \<longleftrightarrow> low_pow_mode_flag t \<and> \<not> isGpsOn t \<and> task_at t = Tracking"

definition sends_nothing :: "tracker \<Rightarrow> tracker \<Rightarrow> bool" where
  "sends_nothing t t' \<longleftrightarrow> (\<exists>as. acts t' = acts t @ as \<and> (\<forall>n. Http n \<notin> set as))"

lemma sends_nothing_refl [simp]: "sends_nothing t t"
  by (simp add: sends_nothing_def)

lemma sends_nothing_trans: "sends_nothing t t1 \<Longrightarrow> sends_nothing t1 t2 \<Longrightarrow> sends_nothing t t2"
  by (auto simp: sends_nothing_def)

lemma same_task_sends_nothing: "same_task t t' \<Longrightarrow> sends_nothing t t'"
  by (simp add: same_task_def sends_nothing_def list_all_iff) (metis quiet_simps(3))

text \<open>With the flag set, an event ends with the module off, even one that has switched it on.\<close>

lemma low_power_event:
  assumes "USE_LOW_POW_MODE sw" "low_pow_mode_flag t" "event_turn_opt sw convert env ev t = Some (Inr t')"
  shows "low_pow_mode_flag t' \<and> \<not> isGpsOn t' \<and> task_at t' = task_at t \<and> sends_nothing t t'"
proof -
  obtain t1 where t1: "EventDispatch_opt sw convert env ev t = Some (Inr t1)"
    and t': "t' = (let t2 = (if restart_flag t1 then do_acts [Reboot] t1 else t1);
             t3 = (if USE_LOW_POW_MODE sw \<and> low_pow_mode_flag t2 then low_power_mode t2 else t2);
             t4 = (if isGpsOn t3 \<and> networkFlag t3 then t3\<lparr>led_status := LED_SYS_ON\<rparr> else t3)
         in if USE_VIBRATION_SENSOR sw then watch_vibration t4 else t4)"
    using event_turn_opt_Inr [OF assms(3)] by blast
  have f: "low_pow_mode_flag t1" "task_at t1 = task_at t" "sends_nothing t t1"
    using EventDispatch_opt_frame [OF t1] assms(2) same_task_sends_nothing by (auto simp: same_task_def)
  then have "low_pow_mode_flag t' \<and> \<not> isGpsOn t' \<and> task_at t' = task_at t1 \<and> sends_nothing t1 t'"
    unfolding t' using assms(1) by (auto simp: Let_def low_power_mode_def watch_vibration_def sends_nothing_def)
  then show ?thesis using f sends_nothing_trans by auto
qed

text \<open>A turn of the loop with the low power mode.\<close>

lemma low_power_turn:
  assumes "USE_LOW_POW_MODE sw" "task_at t = Tracking" "task_step_opt sw env evs t = Some (Inr t')"
  obtains t1 where "(if isGpsOn t then track_position env t else Some (Inr t)) = Some (Inr t1)"
    "t' = do_acts [Min_Freq_178M] (let t2 = do_acts [Min_Freq_32K] (feed_dog t1) in
      if motion t2 then os_sleep 2000 t2 else os_sleep 120000 (t2\<lparr>low_pow_mode_flag := True\<rparr>))"
  using assms by (auto simp: task_step_opt_def track_turn_opt_def rbind_Inr Let_def)

lemma asleep_step:
  assumes "turn_opt sw convert t t'" "USE_LOW_POW_MODE sw" "asleep t"
  shows "asleep t' \<and> sends_nothing t t'"
  using assms
proof (induction rule: turn_opt.induct)
  case (position_opt env evs t t')
  then have a: "task_at t = Tracking" "\<not> isGpsOn t" by (simp_all add: asleep_def)
  obtain t1 where "(if isGpsOn t then track_position env t else Some (Inr t)) = Some (Inr t1)"
    and t': "t' = do_acts [Min_Freq_178M] (let t2 = do_acts [Min_Freq_32K] (feed_dog t1) in
      if motion t2 then os_sleep 2000 t2 else os_sleep 120000 (t2\<lparr>low_pow_mode_flag := True\<rparr>))"
    using low_power_turn [OF position_opt(2) a(1) position_opt(1)] by blast
  then have "t1 = t" using a(2) by simp
  then show ?case using position_opt(3) unfolding t' by (simp add: asleep_def sends_nothing_def Let_def feed_dog_def)
next
  case (event_opt env ev t t')
  then show ?case using low_power_event [OF event_opt(2) _ event_opt(1)] by (auto simp: asleep_def)
next
  case (blink_opt t)
  have "low_pow_mode_flag (LED_Blink t) = low_pow_mode_flag t" "isGpsOn (LED_Blink t) = isGpsOn t"
    by (simp_all add: LED_Blink_def Let_def split: option.split)
  then show ?case using blink_opt same_task_sends_nothing [OF LED_Blink_frame] LED_Blink_frame [of t] by (auto simp: asleep_def same_task_def)
next
  case (hit_opt t)
  then show ?case by (auto simp: OnMotion_def asleep_def sends_nothing_def)
qed



end
