(* ===== verification/Ili9341.thy ===== *)
theory Ili9341
  imports Prelude
begin

text \<open>
  The driver of the ILI9341 display, \<^verbatim>\<open>firmware/libs/lcd/ili9341/src/ili9341.c\<close>: the lock that guards the
  screen during a transfer, sleep and wake-up, and the drawing operations. The display controller
  (\<open>hal_Gouda...\<close>) is a sequence of recorded calls; the loops that repeat a write until the controller
  takes it are one write. Traces are left out.
\<close>

section \<open>State\<close>

datatype LCD_Error_t = LCD_ERROR_NONE | LCD_ERROR_RESOURCE_BUSY | LCD_ERROR_INVALID_PARAMETER

record window =
  tlPX :: int
  tlPY :: int
  brPX :: int
  brPY :: int

record LCD_ROI_t =
  roi_x :: int
  roi_y :: int
  roi_width :: int
  roi_height :: int

text \<open>The pixels of a frame buffer are not modelled, only whether there is one.\<close>

record LCD_FBW_t =
  fb_buffer :: bool
  fb_width :: int
  fb_height :: int
  fb_rgb565 :: bool
  fb_roi :: LCD_ROI_t

datatype gouda =
    Wr_Cmd int
  | Wr_Dat int
  | Wr_Reg int int
  | Pad_Config
  | Serial_Open
  | Gouda_Close
  | Bg_Color int
  | Layer_Close
  | Layer_Open window
  | Blit_Roi window
  | Os_Sleep nat
  | On_Blt

text \<open>The globals; \<open>g_lcddLock\<close> is 1 when access is allowed.\<close>

record lcd =
  g_lcddRotate :: bool
  g_lcddAutoCloseLayer :: bool
  g_lcddInSleep :: bool
  g_lcddLock :: int
  pOnBlt :: bool
  gouda_acts :: "gouda list"

definition lcd0 :: lcd where
  "lcd0 = \<lparr>g_lcddRotate = False, g_lcddAutoCloseLayer = False, g_lcddInSleep = False, g_lcddLock = 0, pOnBlt = False,
     gouda_acts = []\<rparr>"

definition gouda :: "gouda list \<Rightarrow> lcd \<Rightarrow> lcd" where
  "gouda as st = st\<lparr>gouda_acts := gouda_acts st @ as\<rparr>"

definition LCDD_TIME_MUTEX_RETRY :: nat where "LCDD_TIME_MUTEX_RETRY = 200"
definition LCDD_DISP_X :: int where "LCDD_DISP_X = 240"
definition LCDD_DISP_Y :: int where "LCDD_DISP_Y = 320"

section \<open>The lock\<close>

definition lcdd_MutexFree :: "lcd \<Rightarrow> lcd" where
  "lcdd_MutexFree st = st\<lparr>g_lcddLock := 1\<rparr>"

definition lcdd_MutexGet :: "lcd \<Rightarrow> bool \<times> lcd" where
  "lcdd_MutexGet st = (if g_lcddLock st = 1 then (True, st\<lparr>g_lcddLock := 0\<rparr>) else (False, st))"

text \<open>The end of a transfer.\<close>

definition lcddp_GoudaBlitHandler :: "lcd \<Rightarrow> lcd" where
  "lcddp_GoudaBlitHandler st =
     (let st1 = lcdd_MutexFree st;
          st2 = (if g_lcddAutoCloseLayer st1 then (gouda [Layer_Close] st1)\<lparr>g_lcddAutoCloseLayer := False\<rparr> else st1)
      in if pOnBlt st2 then gouda [On_Blt] st2 else st2)"

text \<open>
  The loop that waits for the lock: in its \<open>i\<close>-th sleep a transfer ends or not. It may wait for ever.
\<close>

partial_function (option) wait_mutex :: "(nat \<Rightarrow> bool) \<Rightarrow> nat \<Rightarrow> lcd \<Rightarrow> lcd option" where
  "wait_mutex ends i st =
     (let (got, st1) = lcdd_MutexGet st; st2 = gouda [Os_Sleep LCDD_TIME_MUTEX_RETRY] st1
      in if got then Some st1
         else wait_mutex ends (Suc i) (if ends i then lcddp_GoudaBlitHandler st2 else st2))"

section \<open>Opening\<close>

definition lcddp_Init :: "lcd \<Rightarrow> lcd" where
  "lcddp_Init = gouda
    [Wr_Cmd 17, Os_Sleep 50, Wr_Cmd 203, Wr_Dat 1, Wr_Cmd 192, Wr_Dat 38, Wr_Dat 8, Wr_Cmd 193, Wr_Dat 16, 
     Wr_Cmd 197, Wr_Dat 53, Wr_Dat 62, Wr_Cmd 54, Wr_Dat 72, Wr_Cmd 177, Wr_Dat 0, Wr_Dat 22, Wr_Cmd 182, 
     Wr_Dat 10, Wr_Dat 130, Wr_Cmd 199, Wr_Dat 181, Wr_Cmd 242, Wr_Dat 0, Wr_Cmd 38, Wr_Dat 1, Wr_Cmd 58, 
     Wr_Dat 85, Wr_Cmd 224, Wr_Dat 31, Wr_Dat 26, Wr_Dat 24, Wr_Dat 10, Wr_Dat 15, Wr_Dat 6, Wr_Dat 69, 
     Wr_Dat 135, Wr_Dat 50, Wr_Dat 10, Wr_Dat 7, Wr_Dat 2, Wr_Dat 7, Wr_Dat 5, Wr_Dat 0, Wr_Cmd 225, 
     Wr_Dat 0, Wr_Dat 37, Wr_Dat 39, Wr_Dat 5, Wr_Dat 16, Wr_Dat 9, Wr_Dat 58, Wr_Dat 120, Wr_Dat 77, 
     Wr_Dat 5, Wr_Dat 24, Wr_Dat 13, Wr_Dat 56, Wr_Dat 58, Wr_Dat 31, Wr_Cmd 41]"

definition lcddp_Open :: "lcd \<Rightarrow> LCD_Error_t \<times> lcd" where
  "lcddp_Open st =
     (LCD_ERROR_NONE, (lcddp_Init (gouda [Pad_Config, Serial_Open, Os_Sleep 50] st))\<lparr>g_lcddInSleep := False\<rparr>)"

definition lcddp_Close :: "lcd \<Rightarrow> LCD_Error_t \<times> lcd" where
  "lcddp_Close st = (LCD_ERROR_NONE, gouda [Gouda_Close] st)"

definition lcddp_SetContrast :: "int \<Rightarrow> lcd \<Rightarrow> LCD_Error_t \<times> lcd" where
  "lcddp_SetContrast contrast st = (LCD_ERROR_NONE, st)"

definition lcddp_SetBrightness :: "int \<Rightarrow> lcd \<Rightarrow> LCD_Error_t \<times> lcd" where
  "lcddp_SetBrightness brightness st = (LCD_ERROR_NONE, st)"

definition lcddp_PartialOn :: "int \<Rightarrow> int \<Rightarrow> lcd \<Rightarrow> LCD_Error_t \<times> lcd" where
  "lcddp_PartialOn vsa vea st = (LCD_ERROR_NONE, st)"

definition lcddp_PartialOff :: "lcd \<Rightarrow> LCD_Error_t \<times> lcd" where
  "lcddp_PartialOff st = (LCD_ERROR_NONE, st)"

text \<open>Width, height, format (RGB 565 is 1) and the reserved field.\<close>

definition lcddp_GetScreenInfo :: "LCD_Error_t \<times> int \<times> int \<times> int \<times> int" where
  "lcddp_GetScreenInfo = (LCD_ERROR_NONE, LCDD_DISP_X, LCDD_DISP_Y, 1, 0)"

definition lcddp_Busy :: "bool \<Rightarrow> bool" where
  "lcddp_Busy active = active"

definition lcddp_GetStringId :: "byte list" where
  "lcddp_GetStringId = ''ili9341'' @ [CHR 0x0A]"

definition lcddp_CheckProductId :: bool where
  "lcddp_CheckProductId = True"

definition lcddp_GetLcdId :: int where
  "lcddp_GetLcdId = 0"

section \<open>Drawing\<close>

text \<open>The commands that set the column and the page address.\<close>

definition address :: "int \<Rightarrow> int \<Rightarrow> int \<Rightarrow> gouda list" where
  "address cmd a b = [Wr_Cmd cmd, Wr_Dat (a div 256), Wr_Dat (a mod 256), Wr_Dat (b div 256), Wr_Dat (b mod 256)]"

definition lcddp_BlitRoi2Win :: "window \<Rightarrow> window \<Rightarrow> lcd \<Rightarrow> lcd" where
  "lcddp_BlitRoi2Win pRoi pActiveWin st =
     (if \<not> (tlPX pRoi < brPX pRoi \<and> tlPY pRoi < brPY pRoi) then lcddp_GoudaBlitHandler st
      else
        let st1 = (if g_lcddRotate st
                   then gouda (address 42 (tlPX pActiveWin) (brPX pActiveWin) @ address 43 (tlPY pActiveWin) (brPY pActiveWin)) st
                   else gouda (address 42 (tlPX pActiveWin) (brPX pActiveWin) @ address 43 (tlPY pActiveWin) (brPY pActiveWin)) st)
        in gouda [Wr_Cmd 44, Blit_Roi pRoi] st1)"

definition win_of :: "int \<Rightarrow> int \<Rightarrow> int \<Rightarrow> int \<Rightarrow> window" where
  "win_of x y w h = \<lparr>tlPX = x, tlPY = y, brPX = u16 (x + w - 1), brPY = u16 (y + h - 1)\<rparr>"

text \<open>The window is not on the screen.\<close>

definition off_screen :: "bool \<Rightarrow> window \<Rightarrow> bool" where
  "off_screen rotated w =
     (if rotated then tlPX w \<ge> LCDD_DISP_Y \<or> brPX w \<ge> LCDD_DISP_Y \<or> tlPY w \<ge> LCDD_DISP_X \<or> brPY w \<ge> LCDD_DISP_X
      else tlPX w \<ge> LCDD_DISP_X \<or> brPX w \<ge> LCDD_DISP_X \<or> tlPY w \<ge> LCDD_DISP_Y \<or> brPY w \<ge> LCDD_DISP_Y)"

definition lcddp_Blit16 :: "LCD_FBW_t \<Rightarrow> int \<Rightarrow> int \<Rightarrow> lcd \<Rightarrow> LCD_Error_t \<times> lcd" where
  "lcddp_Blit16 fbw startX startY st =
     (case lcdd_MutexGet st of
        (False, st1) \<Rightarrow> (LCD_ERROR_RESOURCE_BUSY, st1)
      | (True, st1) \<Rightarrow>
          if g_lcddInSleep st1 then (LCD_ERROR_NONE, lcdd_MutexFree st1)
          else
            let roi = fb_roi fbw;
                inputWin = win_of (roi_x roi) (roi_y roi) (roi_width roi) (roi_height roi);
                activeWin = win_of startX startY (roi_width roi) (roi_height roi);
                badParam = off_screen (g_lcddRotate st1) activeWin;
                badParam = (if \<not> badParam then roi_width roi > fb_width fbw \<or> roi_height roi > fb_height fbw \<or> \<not> fb_rgb565 fbw
                            else badParam)
            in if badParam then (LCD_ERROR_INVALID_PARAMETER, lcdd_MutexFree st1)
               else
                 let st2 = (if fb_buffer fbw
                            then (gouda [Layer_Close, Layer_Open (win_of 0 0 (fb_width fbw) (fb_height fbw))] st1)
                                   \<lparr>g_lcddAutoCloseLayer := False\<rparr>
                            else st1)
                 in (LCD_ERROR_NONE, lcddp_BlitRoi2Win inputWin activeWin st2))"

definition lcddp_SetPixel16 :: "int \<Rightarrow> int \<Rightarrow> int \<Rightarrow> lcd \<Rightarrow> LCD_Error_t \<times> lcd" where
  "lcddp_SetPixel16 x y pixelData st =
     (case lcdd_MutexGet st of
        (False, st1) \<Rightarrow> (LCD_ERROR_RESOURCE_BUSY, st1)
      | (True, st1) \<Rightarrow>
          if g_lcddInSleep st1 then (LCD_ERROR_NONE, lcdd_MutexFree st1)
          else (LCD_ERROR_NONE, lcdd_MutexFree (gouda (address 42 x x @ address 43 y y @ [Wr_Reg 44 pixelData]) st1)))"

definition lcddp_FillRect16 :: "LCD_ROI_t \<Rightarrow> int \<Rightarrow> lcd \<Rightarrow> LCD_Error_t \<times> lcd" where
  "lcddp_FillRect16 region bgColor st =
     (case lcdd_MutexGet st of
        (False, st1) \<Rightarrow> (LCD_ERROR_RESOURCE_BUSY, st1)
      | (True, st1) \<Rightarrow>
          if g_lcddInSleep st1 then (LCD_ERROR_NONE, lcdd_MutexFree st1)
          else
            let activeWin = win_of (roi_x region) (roi_y region) (roi_width region) (roi_height region)
            in if off_screen (g_lcddRotate st1) activeWin then (LCD_ERROR_INVALID_PARAMETER, lcdd_MutexFree st1)
               else (LCD_ERROR_NONE, lcddp_BlitRoi2Win activeWin activeWin (gouda [Bg_Color bgColor] st1)))"

section \<open>Sleep, wake-up and rotation\<close>

definition lcddp_Sleep :: "(nat \<Rightarrow> bool) \<Rightarrow> lcd \<Rightarrow> (LCD_Error_t \<times> lcd) option" where
  "lcddp_Sleep ends st =
     map_option (\<lambda>st1.
         if g_lcddInSleep st1 then (LCD_ERROR_NONE, lcdd_MutexFree st1)
         else (LCD_ERROR_NONE,
           lcdd_MutexFree ((gouda [Wr_Cmd 40, Wr_Cmd 16, Gouda_Close] st1)\<lparr>g_lcddInSleep := True\<rparr>)))
       (wait_mutex ends 0 st)"

text \<open>\<open>lcddp_WakeUp\<close> sleeps once for the lock, and goes on.\<close>

definition lcddp_WakeUp :: "bool \<Rightarrow> lcd \<Rightarrow> LCD_Error_t \<times> lcd" where
  "lcddp_WakeUp blit_ends st =
     (let st1 = (case lcdd_MutexGet st of
                   (True, st1) \<Rightarrow> st1
                 | (False, st1) \<Rightarrow>
                     (let st2 = gouda [Os_Sleep LCDD_TIME_MUTEX_RETRY] st1
                      in if blit_ends then lcddp_GoudaBlitHandler st2 else st2))
      in if \<not> g_lcddInSleep st1 then (LCD_ERROR_NONE, lcdd_MutexFree st1)
         else
           let st2 = lcddp_Init (gouda [Serial_Open, Os_Sleep 50] st1);
               st3 = lcdd_MutexFree (st2\<lparr>g_lcddInSleep := False\<rparr>);
               (w, h) = (if g_lcddRotate st3 then (LCDD_DISP_Y, LCDD_DISP_X) else (LCDD_DISP_X, LCDD_DISP_Y));
               win = \<lparr>fb_buffer = False, fb_width = w, fb_height = h, fb_rgb565 = True,
                      fb_roi = \<lparr>roi_x = 0, roi_y = 0, roi_width = w, roi_height = h\<rparr>\<rparr>
           in (LCD_ERROR_NONE, snd (lcddp_Blit16 win 0 0 st3)))"

definition lcddp_SetStandbyMode :: "bool \<Rightarrow> (nat \<Rightarrow> bool) \<Rightarrow> lcd \<Rightarrow> (LCD_Error_t \<times> lcd) option" where
  "lcddp_SetStandbyMode standbyMode ends st =
     (if standbyMode then map_option (\<lambda>r. (LCD_ERROR_NONE, snd r)) (lcddp_Sleep ends st)
      else Some (LCD_ERROR_NONE, snd (lcddp_WakeUp (ends 0) st)))"

definition lcddp_SetDirRotation :: "(nat \<Rightarrow> bool) \<Rightarrow> lcd \<Rightarrow> (bool \<times> lcd) option" where
  "lcddp_SetDirRotation ends st =
     map_option (\<lambda>st1.
         let st2 = st1\<lparr>g_lcddRotate := True\<rparr>
         in if g_lcddInSleep st2 then (True, lcdd_MutexFree st2)
            else (True, lcdd_MutexFree (gouda [Wr_Cmd 54, Wr_Dat 40] st2)))
       (wait_mutex ends 0 st)"

definition lcddp_SetDirDefault :: "(nat \<Rightarrow> bool) \<Rightarrow> lcd \<Rightarrow> (bool \<times> lcd) option" where
  "lcddp_SetDirDefault ends st =
     map_option (\<lambda>st1.
         let st2 = st1\<lparr>g_lcddRotate := False\<rparr>
         in if g_lcddInSleep st2 then (True, lcdd_MutexFree st2)
            else (True, lcdd_MutexFree (gouda [Wr_Cmd 54, Wr_Dat 72] st2)))
       (wait_mutex ends 0 st)"

text \<open>The registration hands out the operations above and opens the lock.\<close>

definition LCD_ili9341_Register :: "bool \<Rightarrow> lcd \<Rightarrow> LCD_Error_t \<times> lcd" where
  "LCD_ili9341_Register onBlit st = (LCD_ERROR_NONE, lcdd_MutexFree (st\<lparr>pOnBlt := onBlit\<rparr>))"

section \<open>What the operations do\<close>

lemma gouda_simps [simp]:
  "g_lcddRotate (gouda as st) = g_lcddRotate st" "g_lcddInSleep (gouda as st) = g_lcddInSleep st"
  "g_lcddLock (gouda as st) = g_lcddLock st" "gouda_acts (gouda as st) = gouda_acts st @ as"
  "g_lcddAutoCloseLayer (gouda as st) = g_lcddAutoCloseLayer st" "pOnBlt (gouda as st) = pOnBlt st"
  by (simp_all add: gouda_def)

lemma mutex_free_simps [simp]:
  "g_lcddRotate (lcdd_MutexFree st) = g_lcddRotate st" "g_lcddInSleep (lcdd_MutexFree st) = g_lcddInSleep st"
  "g_lcddLock (lcdd_MutexFree st) = 1" "gouda_acts (lcdd_MutexFree st) = gouda_acts st"
  by (simp_all add: lcdd_MutexFree_def)

lemma handler_simps [simp]:
  "g_lcddInSleep (lcddp_GoudaBlitHandler st) = g_lcddInSleep st" "g_lcddLock (lcddp_GoudaBlitHandler st) = 1"
  by (simp_all add: lcddp_GoudaBlitHandler_def Let_def)

lemma MutexGet_cases:
  "g_lcddLock st = 1 \<and> lcdd_MutexGet st = (True, st\<lparr>g_lcddLock := 0\<rparr>) \<or> g_lcddLock st \<noteq> 1 \<and> lcdd_MutexGet st = (False, st)"
  by (simp add: lcdd_MutexGet_def)

text \<open>The calls a request adds, and whether a transfer is among them.\<close>

definition is_blit :: "gouda \<Rightarrow> bool" where
  "is_blit g = (case g of Blit_Roi _ \<Rightarrow> True | _ \<Rightarrow> False)"

definition starts :: "lcd \<Rightarrow> lcd \<Rightarrow> bool" where
  "starts st st' \<longleftrightarrow> list_ex is_blit (drop (length (gouda_acts st)) (gouda_acts st'))"

lemma is_blit_simps [simp]:
  "\<not> is_blit (Wr_Cmd a)" "\<not> is_blit (Wr_Dat a)" "\<not> is_blit (Wr_Reg a b)" "\<not> is_blit Pad_Config" "\<not> is_blit Serial_Open"
  "\<not> is_blit Gouda_Close" "\<not> is_blit (Bg_Color a)" "\<not> is_blit Layer_Close" "\<not> is_blit (Layer_Open w)"
  "is_blit (Blit_Roi w)" "\<not> is_blit (Os_Sleep k)" "\<not> is_blit On_Blt"
  by (simp_all add: is_blit_def)

lemma address_blit [simp]: "\<not> list_ex is_blit (address c a b)"
  by (simp add: address_def)

lemma handler_acts:
  "\<exists>as. gouda_acts (lcddp_GoudaBlitHandler st) = gouda_acts st @ as \<and> \<not> list_ex is_blit as"
  by (simp add: lcddp_GoudaBlitHandler_def Let_def)

lemma BlitRoi2Win_cases:
  "if tlPX r < brPX r \<and> tlPY r < brPY r
   then lcddp_BlitRoi2Win r w st = gouda (address 42 (tlPX w) (brPX w) @ address 43 (tlPY w) (brPY w) @ [Wr_Cmd 44, Blit_Roi r]) st
   else lcddp_BlitRoi2Win r w st = lcddp_GoudaBlitHandler st"
  by (simp add: lcddp_BlitRoi2Win_def Let_def gouda_def)

text \<open>The size of the screen as the coordinates see it.\<close>

definition screen :: "lcd \<Rightarrow> int \<times> int" where
  "screen st = (if g_lcddRotate st then (LCDD_DISP_Y, LCDD_DISP_X) else (LCDD_DISP_X, LCDD_DISP_Y))"

lemma off_screen_window:
  assumes "screen st = (W, H)"
  shows "off_screen (g_lcddRotate st) w \<longleftrightarrow> W \<le> tlPX w \<or> W \<le> brPX w \<or> H \<le> tlPY w \<or> H \<le> brPY w"
  using assms by (auto simp: off_screen_def screen_def split: if_splits)

text \<open>The last column (or row) of a span, in 16 bits: on the screen and right of the first one exactly for a
  span of at least two that fits.\<close>

lemma span_fits:
  assumes "0 \<le> x" "x < 65536" "0 \<le> w" "w < 65536" "D \<le> 320"
  shows "x < D \<and> u16 (x + w - 1) < D \<and> x < u16 (x + w - 1) \<longleftrightarrow> 2 \<le> w \<and> x + w \<le> D"
proof -
  have "x + w - 1 < 0 \<longleftrightarrow> x = 0 \<and> w = 0" using assms by linarith
  then consider "x = 0" "w = 0" | "0 \<le> x + w - 1" "x + w - 1 < 65536" | "65536 \<le> x + w - 1" by linarith
  then show ?thesis
  proof cases
    case 3
    have "u16 (x + w - 1) = x + w - 1 - 65536"
    proof -
      have "(x + w - 1 - 65536) mod 65536 = x + w - 1 - 65536" using 3 assms by (intro mod_pos_pos_trivial) linarith+
      moreover have "(x + w - 1 - 65536) mod 65536 = (x + w - 1) mod 65536" by (rule minus_mod_self2)
      ultimately show ?thesis by (simp add: u16_def)
    qed
    then show ?thesis using 3 assms by linarith
  qed (use assms in \<open>auto simp: u16_def\<close>)
qed

definition roi_ok :: "LCD_ROI_t \<Rightarrow> bool" where
  "roi_ok r \<longleftrightarrow> list_all (\<lambda>x. 0 \<le> x \<and> x < 65536) [roi_x r, roi_y r, roi_width r, roi_height r]"

text \<open>C34: Filling a rectangle of 16-bit coordinates on an awake, free screen starts a transfer exactly when the
  rectangle is at least two pixels wide and high and lies on the screen as it is rotated, also where
  the sums wrap around; the transfer covers the rectangle, and the lock is then held. Otherwise nothing
  is drawn and the lock is free again.\<close>

theorem fill_rect_draws:
  assumes "g_lcddLock st = 1" "\<not> g_lcddInSleep st" "roi_ok r" "lcddp_FillRect16 r c st = (e, st')" "screen st = (W, H)"
  shows "if 2 \<le> roi_width r \<and> 2 \<le> roi_height r \<and> roi_x r + roi_width r \<le> W \<and> roi_y r + roi_height r \<le> H
    then e = LCD_ERROR_NONE \<and> g_lcddLock st' = 0 \<and> gouda_acts st' = gouda_acts st @ [Bg_Color c]
      @ address 42 (roi_x r) (roi_x r + roi_width r - 1) @ address 43 (roi_y r) (roi_y r + roi_height r - 1)
      @ [Wr_Cmd 44, Blit_Roi \<lparr>tlPX = roi_x r, tlPY = roi_y r, brPX = roi_x r + roi_width r - 1, brPY = roi_y r + roi_height r - 1\<rparr>]
    else g_lcddLock st' = 1 \<and> \<not> starts st st'"
proof -
  define w where "w = win_of (roi_x r) (roi_y r) (roi_width r) (roi_height r)"
  define st1 where "st1 = gouda [Bg_Color c] (st\<lparr>g_lcddLock := 0\<rparr>)"
  have D: "W \<le> 320" "H \<le> 320" using assms(5) by (auto simp: screen_def LCDD_DISP_X_def LCDD_DISP_Y_def split: if_splits)
  have sp: "tlPX w < W \<and> brPX w < W \<and> tlPX w < brPX w \<longleftrightarrow> 2 \<le> roi_width r \<and> roi_x r + roi_width r \<le> W"
    "tlPY w < H \<and> brPY w < H \<and> tlPY w < brPY w \<longleftrightarrow> 2 \<le> roi_height r \<and> roi_y r + roi_height r \<le> H"
    using assms(3) span_fits [of "roi_x r" "roi_width r" W] span_fits [of "roi_y r" "roi_height r" H] D
    by (simp_all add: w_def win_of_def roi_ok_def)
  have res: "(e, st') = (if off_screen (g_lcddRotate st) w then (LCD_ERROR_INVALID_PARAMETER, lcdd_MutexFree (st\<lparr>g_lcddLock := 0\<rparr>))
      else (LCD_ERROR_NONE, lcddp_BlitRoi2Win w w st1))"
    using assms(1,2,4) by (auto simp: lcddp_FillRect16_def lcdd_MutexGet_def Let_def w_def st1_def split: if_splits)
  note off = off_screen_window [OF assms(5), of w]
  show ?thesis
  proof (cases "2 \<le> roi_width r \<and> 2 \<le> roi_height r \<and> roi_x r + roi_width r \<le> W \<and> roi_y r + roi_height r \<le> H")
    case True
    then have on: "\<not> off_screen (g_lcddRotate st) w" "tlPX w < brPX w" "tlPY w < brPY w" using sp off by auto
    have "u16 (roi_x r + roi_width r - 1) = roi_x r + roi_width r - 1" "u16 (roi_y r + roi_height r - 1) = roi_y r + roi_height r - 1"
      using True D assms(3) by (simp_all add: u16_id roi_ok_def)
    then have w: "w = \<lparr>tlPX = roi_x r, tlPY = roi_y r, brPX = roi_x r + roi_width r - 1, brPY = roi_y r + roi_height r - 1\<rparr>"
      by (simp add: w_def win_of_def)
    show ?thesis using True res on BlitRoi2Win_cases [of w w st1] by (simp add: st1_def w)
  next
    case False
    show ?thesis
    proof (cases "off_screen (g_lcddRotate st) w")
      case True
      then show ?thesis using False res by (auto simp: starts_def)
    next
      case on: False
      then have "\<not> (tlPX w < brPX w \<and> tlPY w < brPY w)" using False sp off by auto
      then have st': "st' = lcddp_GoudaBlitHandler st1" using res on BlitRoi2Win_cases [of w w st1] by simp
      then show ?thesis using False handler_acts [of st1] by (auto simp: starts_def st1_def)
    qed
  qed
qed

theorem fill_rect_draws_witness:
  "lcddp_FillRect16 \<lparr>roi_x = 10, roi_y = 20, roi_width = 1, roi_height = 300\<rparr> 0 (lcd0\<lparr>g_lcddLock := 1\<rparr>)
      = (LCD_ERROR_NONE, gouda [Bg_Color 0] (lcd0\<lparr>g_lcddLock := 1\<rparr>))
    \<and> \<not> starts (lcd0\<lparr>g_lcddLock := 1\<rparr>) (gouda [Bg_Color 0] (lcd0\<lparr>g_lcddLock := 1\<rparr>))"
proof -
  let ?st = "lcd0\<lparr>g_lcddLock := 1\<rparr>" and ?r = "\<lparr>roi_x = 10, roi_y = 20, roi_width = 1, roi_height = 300\<rparr>"
  have f: "lcddp_FillRect16 ?r 0 ?st = (LCD_ERROR_NONE, gouda [Bg_Color 0] ?st)" by code_simp
  from fill_rect_draws [OF _ _ _ this, of 240 320] f show ?thesis
    by (simp add: lcd0_def roi_ok_def screen_def LCDD_DISP_X_def LCDD_DISP_Y_def)
qed

section \<open>One transfer at a time\<close>

text \<open>The requests of the application; the ones that wait for the lock are made when it is free.\<close>

datatype lcd_request =
    Fill LCD_ROI_t int
  | Blit LCD_FBW_t int int
  | Pixel int int int
  | Fall_Asleep
  | Wake_Up
  | Rotate
  | Rotate_Back

fun lcd_op :: "lcd_request \<Rightarrow> lcd \<Rightarrow> lcd option" where
  "lcd_op (Fill r c) st = Some (snd (lcddp_FillRect16 r c st))"
| "lcd_op (Blit w x y) st = Some (snd (lcddp_Blit16 w x y st))"
| "lcd_op (Pixel x y c) st = Some (snd (lcddp_SetPixel16 x y c st))"
| "lcd_op Fall_Asleep st = (if g_lcddLock st = 1 then map_option snd (lcddp_Sleep (\<lambda>_. False) st) else None)"
| "lcd_op Wake_Up st = Some (snd (lcddp_WakeUp False st))"
| "lcd_op Rotate st = (if g_lcddLock st = 1 then map_option snd (lcddp_SetDirRotation (\<lambda>_. False) st) else None)"
| "lcd_op Rotate_Back st = (if g_lcddLock st = 1 then map_option snd (lcddp_SetDirDefault (\<lambda>_. False) st) else None)"

text \<open>
  The display with the transfer in progress, if there is one; the controller calls the handler when it
  ends. A display that is awake is not woken.
\<close>

inductive lcd_run :: "lcd \<Rightarrow> bool \<Rightarrow> bool" where
  registered: "lcd_run (snd (LCD_ili9341_Register cb lcd0)) False"
| request: "lcd_run st busy \<Longrightarrow> lcd_op q st = Some st' \<Longrightarrow> (q = Wake_Up \<Longrightarrow> g_lcddInSleep st) \<Longrightarrow>
    lcd_run st' (busy \<or> starts st st')"
| blit_ended: "lcd_run st True \<Longrightarrow> lcd_run (lcddp_GoudaBlitHandler st) False"

lemma starts_refl [simp]: "\<not> starts st st"
  by (simp add: starts_def)

lemma wait_mutex_free: "g_lcddLock st = 1 \<Longrightarrow> wait_mutex ends i st = Some (st\<lparr>g_lcddLock := 0\<rparr>)"
  by (simp add: wait_mutex.simps lcdd_MutexGet_def Let_def)

text \<open>The lock is taken when a transfer starts and never given away while it is taken.\<close>

lemma BlitRoi2Win_lock:
  "starts st0 st = starts st0 st0 \<Longrightarrow> gouda_acts st = gouda_acts st0 @ as \<Longrightarrow> starts st0 (lcddp_BlitRoi2Win r w st) \<Longrightarrow>
   g_lcddLock (lcddp_BlitRoi2Win r w st) = g_lcddLock st \<and> g_lcddInSleep (lcddp_BlitRoi2Win r w st) = g_lcddInSleep st"
  using BlitRoi2Win_cases [of r w st] handler_acts [of st] by (auto simp: starts_def split: if_splits)

text \<open>
  The contract of a drawing operation: with the lock taken it does nothing, with the lock free it keeps the
  lock exactly when it starts a transfer, and only a display that is awake starts one.
\<close>

locale drawing_op =
  fixes draw :: "lcd \<Rightarrow> lcd"
  assumes refused: "g_lcddLock st \<noteq> 1 \<Longrightarrow> draw st = st"
    and locks: "g_lcddLock st = 1 \<Longrightarrow> g_lcddLock (draw st) = (if starts st (draw st) then 0 else 1)"
    and awake: "g_lcddLock st = 1 \<Longrightarrow> starts st (draw st) \<Longrightarrow> \<not> g_lcddInSleep (draw st)"
begin

lemma busy_or_started:
  assumes "g_lcddLock st = (if busy then 0 else 1)" "busy \<longrightarrow> \<not> g_lcddInSleep st"
  shows "g_lcddLock (draw st) = (if busy \<or> starts st (draw st) then 0 else 1)
    \<and> (busy \<or> starts st (draw st) \<longrightarrow> \<not> g_lcddInSleep (draw st)) \<and> \<not> (busy \<and> starts st (draw st))"
  using assms refused [of st] locks [of st] awake [of st] by (cases busy) auto

end

interpretation fill: drawing_op "\<lambda>st. snd (lcddp_FillRect16 r c st)"
proof
  fix st
  let ?w = "win_of (roi_x r) (roi_y r) (roi_width r) (roi_height r)"
  let ?st1 = "gouda [Bg_Color c] (st\<lparr>g_lcddLock := 0\<rparr>)"
  show "snd (lcddp_FillRect16 r c st) = st" if "g_lcddLock st \<noteq> 1"
    using that by (simp add: lcddp_FillRect16_def lcdd_MutexGet_def)
  show "g_lcddLock (snd (lcddp_FillRect16 r c st)) = (if starts st (snd (lcddp_FillRect16 r c st)) then 0 else 1)"
    if "g_lcddLock st = 1"
    using that BlitRoi2Win_cases [of ?w ?w ?st1] handler_acts [of ?st1]
    by (auto simp: lcddp_FillRect16_def lcdd_MutexGet_def Let_def starts_def split: if_splits)
  show "\<not> g_lcddInSleep (snd (lcddp_FillRect16 r c st))" if "g_lcddLock st = 1" "starts st (snd (lcddp_FillRect16 r c st))"
    using that BlitRoi2Win_lock [of st ?st1 "[Bg_Color c]" ?w ?w]
    by (auto simp: lcddp_FillRect16_def lcdd_MutexGet_def Let_def starts_def split: if_splits)
qed

interpretation blit: drawing_op "\<lambda>st. snd (lcddp_Blit16 b x y st)"
proof
  fix st
  let ?r = "fb_roi b"
  let ?in = "win_of (roi_x ?r) (roi_y ?r) (roi_width ?r) (roi_height ?r)" and ?win = "win_of x y (roi_width ?r) (roi_height ?r)"
  let ?layer = "[Layer_Close, Layer_Open (win_of 0 0 (fb_width b) (fb_height b))]"
  let ?st1 = "st\<lparr>g_lcddLock := 0\<rparr>" and ?st2 = "(gouda ?layer (st\<lparr>g_lcddLock := 0\<rparr>))\<lparr>g_lcddAutoCloseLayer := False\<rparr>"
  show "snd (lcddp_Blit16 b x y st) = st" if "g_lcddLock st \<noteq> 1"
    using that by (simp add: lcddp_Blit16_def lcdd_MutexGet_def)
  show "g_lcddLock (snd (lcddp_Blit16 b x y st)) = (if starts st (snd (lcddp_Blit16 b x y st)) then 0 else 1)"
    if "g_lcddLock st = 1"
    using that BlitRoi2Win_cases [of ?in ?win ?st1] BlitRoi2Win_cases [of ?in ?win ?st2] handler_acts [of ?st1] handler_acts [of ?st2]
    by (auto simp: lcddp_Blit16_def lcdd_MutexGet_def Let_def starts_def split: if_splits)
  show "\<not> g_lcddInSleep (snd (lcddp_Blit16 b x y st))" if "g_lcddLock st = 1" "starts st (snd (lcddp_Blit16 b x y st))"
    using that BlitRoi2Win_lock [of st ?st1 "[]" ?in ?win] BlitRoi2Win_lock [of st ?st2 ?layer ?in ?win]
    by (auto simp: lcddp_Blit16_def lcdd_MutexGet_def Let_def starts_def split: if_splits)
qed

interpretation pixel: drawing_op "\<lambda>st. snd (lcddp_SetPixel16 x y c st)"
  by unfold_locales (auto simp: lcddp_SetPixel16_def lcdd_MutexGet_def starts_def split: if_splits)

lemma WakeUp_lock:
  assumes "g_lcddLock st = 1" "g_lcddInSleep st"
  shows "starts st (snd (lcddp_WakeUp e st)) \<and> g_lcddLock (snd (lcddp_WakeUp e st)) = 0 \<and> \<not> g_lcddInSleep (snd (lcddp_WakeUp e st))"
proof -
  have b: "lcddp_BlitRoi2Win (win_of 0 0 a b) (win_of 0 0 a b) s = gouda (address 42 0 (a - 1) @ address 43 0 (b - 1)
      @ [Wr_Cmd 44, Blit_Roi (win_of 0 0 a b)]) s" if "(a, b) = (240, 320) \<or> (a, b) = (320, 240)" for a b s
    using that BlitRoi2Win_cases [of "win_of 0 0 a b" "win_of 0 0 a b" s] by (auto simp: win_of_def u16_def)
  show ?thesis
    using assms
    by (cases "g_lcddRotate st")
      (simp_all add: lcddp_WakeUp_def lcddp_Blit16_def lcdd_MutexGet_def Let_def lcddp_Init_def LCDD_DISP_X_def LCDD_DISP_Y_def
        off_screen_def b starts_def, simp_all add: win_of_def u16_def)
qed

text \<open>A request keeps the relation between the lock, the sleep flag and the transfer in progress.\<close>

lemma lcd_op_step:
  assumes "lcd_op q st = Some st'" "q = Wake_Up \<Longrightarrow> g_lcddInSleep st"
    and "g_lcddLock st = (if busy then 0 else 1)" "busy \<longrightarrow> \<not> g_lcddInSleep st"
  shows "g_lcddLock st' = (if busy \<or> starts st st' then 0 else 1)
    \<and> (busy \<or> starts st st' \<longrightarrow> \<not> g_lcddInSleep st') \<and> \<not> (busy \<and> starts st st')"
proof (cases q)
  case (Fill r c)
  then show ?thesis using assms(1) fill.busy_or_started [OF assms(3,4), of r c] by simp
next
  case (Blit b x y)
  then show ?thesis using assms(1) blit.busy_or_started [OF assms(3,4), of b x y] by simp
next
  case (Pixel x y c)
  then show ?thesis using assms(1) pixel.busy_or_started [OF assms(3,4), of x y c] by simp
next
  case Wake_Up
  then show ?thesis using assms WakeUp_lock [of st False] by (cases busy) auto
qed (use assms in \<open>auto simp: lcddp_Sleep_def lcddp_SetDirRotation_def lcddp_SetDirDefault_def wait_mutex_free starts_def Let_def
    split: if_splits\<close>)

lemma lcd_op_busy:
  assumes "lcd_op q st = Some st'" "g_lcddLock st = 0" "q \<noteq> Wake_Up"
  shows "st' = st"
  using assms fill.refused [of st] blit.refused [of st] pixel.refused [of st] by (cases q) auto

text \<open>C32: However the application's requests and the ends of transfers interleave, the lock is taken exactly while
  a transfer is in progress, the display does not sleep then, and no request starts a second one.\<close>

theorem one_transfer_at_a_time:
  assumes "lcd_run st busy"
  shows "g_lcddLock st = (if busy then 0 else 1) \<and> (busy \<longrightarrow> \<not> g_lcddInSleep st)
    \<and> (\<forall>q st'. busy \<and> q \<noteq> Wake_Up \<and> lcd_op q st = Some st' \<longrightarrow> \<not> starts st st')"
proof -
  have "g_lcddLock st = (if busy then 0 else 1) \<and> (busy \<longrightarrow> \<not> g_lcddInSleep st)"
    using assms
  proof induction
    case (registered cb)
    then show ?case by (simp add: LCD_ili9341_Register_def)
  next
    case (request st busy q st')
    then show ?case using lcd_op_step [of q st st' busy] by blast
  next
    case (blit_ended st)
    then show ?case by simp
  qed
  then show ?thesis using lcd_op_busy by (auto dest: lcd_op_busy)
qed

text \<open>C33: \<open>lcddp_WakeUp\<close> tests the lock once instead of waiting for it: called on an awake display while a transfer
  lasts longer than its sleep, it gives the lock away, and the next rectangle starts a second transfer.\<close>

theorem wake_up_breaks_lock:
  assumes "g_lcddLock st = 0" "\<not> g_lcddInSleep st" "roi_ok r" "2 \<le> roi_width r" "2 \<le> roi_height r"
    and "screen st = (W, H)" "roi_x r + roi_width r \<le> W" "roi_y r + roi_height r \<le> H"
  shows "\<exists>st1 st2. lcddp_WakeUp False st = (LCD_ERROR_NONE, st1) \<and> g_lcddLock st1 = 1
    \<and> lcddp_FillRect16 r c st1 = (LCD_ERROR_NONE, st2) \<and> starts st1 st2"
proof -
  define st1 where "st1 = lcdd_MutexFree (gouda [Os_Sleep LCDD_TIME_MUTEX_RETRY] st)"
  have w: "lcddp_WakeUp False st = (LCD_ERROR_NONE, st1)" using assms(1,2) by (simp add: lcddp_WakeUp_def lcdd_MutexGet_def st1_def)
  let ?w = "win_of (roi_x r) (roi_y r) (roi_width r) (roi_height r)"
  have D: "W \<le> 320" "H \<le> 320" using assms(6) by (auto simp: screen_def LCDD_DISP_X_def LCDD_DISP_Y_def split: if_splits)
  have "screen st1 = (W, H)" using assms(6) by (simp add: screen_def st1_def)
  note off = off_screen_window [OF this, of ?w]
  have on: "\<not> off_screen (g_lcddRotate st1) ?w" "tlPX ?w < brPX ?w" "tlPY ?w < brPY ?w"
    using off span_fits [of "roi_x r" "roi_width r" W] span_fits [of "roi_y r" "roi_height r" H] D assms(3,4,5,7,8)
    by (auto simp: win_of_def roi_ok_def)
  have s1: "g_lcddLock st1 = 1" "\<not> g_lcddInSleep st1" using assms(2) by (simp_all add: st1_def)
  obtain st2 where st2: "lcddp_FillRect16 r c st1 = (LCD_ERROR_NONE, st2)"
    "st2 = lcddp_BlitRoi2Win ?w ?w (gouda [Bg_Color c] (st1\<lparr>g_lcddLock := 0\<rparr>))"
    using s1 on(1) by (simp add: lcddp_FillRect16_def lcdd_MutexGet_def Let_def)
  have "starts st1 st2"
    using BlitRoi2Win_cases [of ?w ?w "gouda [Bg_Color c] (st1\<lparr>g_lcddLock := 0\<rparr>)"] on(2,3) by (simp add: st2(2) starts_def)
  with w s1(1) st2(1) show ?thesis by blast
qed

theorem one_transfer_at_a_time_witness:
  "\<exists>st. lcd_run st True \<and> g_lcddLock st = 0 \<and> (\<forall>st'. lcd_op Rotate st = Some st' \<longrightarrow> \<not> starts st st')"
proof -
  let ?r = "\<lparr>roi_x = 0, roi_y = 0, roi_width = 240, roi_height = 320\<rparr>"
  let ?init = "snd (LCD_ili9341_Register False lcd0)"
  let ?st = "snd (lcddp_FillRect16 ?r 7 ?init)"
  have r: "lcd_run ?st (False \<or> starts ?init ?st)"
    by (rule lcd_run.request [OF lcd_run.registered [of False], of "Fill ?r 7"]) simp_all
  have "starts ?init ?st" by code_simp
  with r have "lcd_run ?st True" by simp
  with one_transfer_at_a_time [OF this] show ?thesis by (intro exI [of _ ?st]) auto
qed

theorem wake_up_breaks_lock_witness:
  "\<exists>st1 st2. lcddp_WakeUp False lcd0 = (LCD_ERROR_NONE, st1)
    \<and> lcddp_FillRect16 \<lparr>roi_x = 0, roi_y = 0, roi_width = 2, roi_height = 2\<rparr> 0 st1 = (LCD_ERROR_NONE, st2) \<and> starts st1 st2"
  using wake_up_breaks_lock [of lcd0 "\<lparr>roi_x = 0, roi_y = 0, roi_width = 2, roi_height = 2\<rparr>" 240 320 0]
  by (auto simp: lcd0_def roi_ok_def screen_def LCDD_DISP_X_def LCDD_DISP_Y_def)

text \<open>The operations that wait for the lock return exactly when it is free or some transfer ends while they wait.\<close>

lemma wait_mutex_ends: "ends (i + k) \<Longrightarrow> g_lcddLock st \<noteq> 1 \<Longrightarrow> wait_mutex ends i st \<noteq> None"
proof (induction k arbitrary: i st)
  case 0
  then show ?case by (subst wait_mutex.simps) (simp add: lcdd_MutexGet_def Let_def wait_mutex_free)
next
  case (Suc k)
  show ?case
  proof (cases "ends i")
    case True
    with Suc(3) show ?thesis by (subst wait_mutex.simps) (simp add: lcdd_MutexGet_def Let_def wait_mutex_free)
  next
    case False
    with Suc show ?thesis by (subst wait_mutex.simps) (simp add: lcdd_MutexGet_def Let_def)
  qed
qed

lemma wait_mutex_returns:
  "(\<exists>st'. wait_mutex ends 0 st = Some st') \<longleftrightarrow> g_lcddLock st = 1 \<or> (\<exists>i. ends i)"
proof
  assume "\<exists>st'. wait_mutex ends 0 st = Some st'"
  then obtain st' where w: "wait_mutex ends 0 st = Some st'" by blast
  have "(\<forall>i. \<not> ends i) \<longrightarrow> g_lcddLock st = 1"
  proof (rule wait_mutex.raw_induct [OF _ w, where P = "\<lambda>ends i st st'. (\<forall>i. \<not> ends i) \<longrightarrow> g_lcddLock st = 1"])
    fix loop ends i st y
    assume IH: "\<And>ends i st y. loop ends i st = Some y \<Longrightarrow> (\<forall>i. \<not> ends i) \<longrightarrow> g_lcddLock st = 1"
      and step: "(let (got, st1) = lcdd_MutexGet st; st2 = gouda [Os_Sleep LCDD_TIME_MUTEX_RETRY] st1
        in if got then Some st1 else loop ends (Suc i) (if ends i then lcddp_GoudaBlitHandler st2 else st2)) = Some y"
    show "(\<forall>i. \<not> ends i) \<longrightarrow> g_lcddLock st = 1"
    proof (intro impI, rule ccontr)
      assume n: "\<forall>i. \<not> ends i" "g_lcddLock st \<noteq> 1"
      then have "loop ends (Suc i) (gouda [Os_Sleep LCDD_TIME_MUTEX_RETRY] st) = Some y"
        using step by (simp add: lcdd_MutexGet_def Let_def)
      from IH [OF this] n show False by simp
    qed
  qed
  then show "g_lcddLock st = 1 \<or> (\<exists>i. ends i)" by blast
next
  assume "g_lcddLock st = 1 \<or> (\<exists>i. ends i)"
  then show "\<exists>st'. wait_mutex ends 0 st = Some st'"
    using wait_mutex_ends [of ends 0 _ st] wait_mutex_free [of st ends 0] by (cases "g_lcddLock st = 1") auto
qed

text \<open>Putting the display to sleep returns exactly when the lock is free or some transfer ends while it waits;
  the display is then asleep, the controller closed once, and the lock free.\<close>

theorem sleep_returns_iff:
  "((\<exists>r. lcddp_Sleep ends st = Some r) \<longleftrightarrow> g_lcddLock st = 1 \<or> (\<exists>i. ends i))
    \<and> (\<forall>e st'. lcddp_Sleep ends st = Some (e, st') \<longrightarrow> e = LCD_ERROR_NONE \<and> g_lcddInSleep st' \<and> g_lcddLock st' = 1)"
proof -
  have "(\<exists>r. lcddp_Sleep ends st = Some r) \<longleftrightarrow> (\<exists>st'. wait_mutex ends 0 st = Some st')"
    by (cases "wait_mutex ends 0 st") (simp_all add: lcddp_Sleep_def)
  moreover have "e = LCD_ERROR_NONE \<and> g_lcddInSleep st' \<and> g_lcddLock st' = 1" if r: "lcddp_Sleep ends st = Some (e, st')" for e st'
  proof -
    obtain z where "(if g_lcddInSleep z then (LCD_ERROR_NONE, lcdd_MutexFree z)
        else (LCD_ERROR_NONE, lcdd_MutexFree ((gouda [Wr_Cmd 40, Wr_Cmd 16, Gouda_Close] z)\<lparr>g_lcddInSleep := True\<rparr>))) = (e, st')"
      using r by (cases "wait_mutex ends 0 st") (auto simp: lcddp_Sleep_def)
    then show ?thesis by (cases "g_lcddInSleep z") auto
  qed
  ultimately show ?thesis unfolding wait_mutex_returns by blast
qed

theorem sleep_returns_iff_witness:
  "\<exists>st'. lcddp_Sleep (\<lambda>i. i = 3) lcd0 = Some (LCD_ERROR_NONE, st') \<and> g_lcddInSleep st'"
proof -
  have "\<exists>r. lcddp_Sleep (\<lambda>i. i = 3) lcd0 = Some r" using sleep_returns_iff [of "\<lambda>i. i = 3" lcd0] by blast
  then obtain e st' where "lcddp_Sleep (\<lambda>i. i = 3) lcd0 = Some (e, st')" by (metis surj_pair)
  with sleep_returns_iff [of "\<lambda>i. i = 3" lcd0] show ?thesis by auto
qed

end
