(* ===== verification/Ssd1306.thy ===== *)
theory Ssd1306
  imports Prelude
begin

text \<open>
  The driver of the SSD1306 display, \<^verbatim>\<open>firmware/libs/lcd/ssd1306/src/ssd1306.c\<close>, with its two fonts, and
  \<open>GPIO_EnablePower\<close> of \<^verbatim>\<open>firmware/libs/utils/src/hal_gpio.c\<close>. What is sent is recorded: the level of
  the data/command pin and the bytes on the SPI bus. A read behind a table or a picture is a fault.
\<close>

section \<open>Fonts\<close>

definition F6x8 :: "int list list" where
  "F6x8 =
    [[0, 0, 0, 0, 0, 0], [0, 0, 0, 47, 0, 0], [0, 0, 7, 0, 7, 0], [0, 20, 127, 20, 127, 20],
     [0, 36, 42, 127, 42, 18], [0, 98, 100, 8, 19, 35], [0, 54, 73, 85, 34, 80], [0, 0, 5, 3, 0, 0],
     [0, 0, 28, 34, 65, 0], [0, 0, 65, 34, 28, 0], [0, 20, 8, 62, 8, 20], [0, 8, 8, 62, 8, 8],
     [0, 0, 0, 160, 96, 0], [0, 8, 8, 8, 8, 8], [0, 0, 96, 96, 0, 0], [0, 32, 16, 8, 4, 2],
     [0, 62, 81, 73, 69, 62], [0, 0, 66, 127, 64, 0], [0, 66, 97, 81, 73, 70], [0, 33, 65, 69, 75, 49],
     [0, 24, 20, 18, 127, 16], [0, 39, 69, 69, 69, 57], [0, 60, 74, 73, 73, 48], [0, 1, 113, 9, 5, 3],
     [0, 54, 73, 73, 73, 54], [0, 6, 73, 73, 41, 30], [0, 0, 54, 54, 0, 0], [0, 0, 86, 54, 0, 0],
     [0, 8, 20, 34, 65, 0], [0, 20, 20, 20, 20, 20], [0, 0, 65, 34, 20, 8], [0, 2, 1, 81, 9, 6],
     [0, 50, 73, 89, 81, 62], [0, 124, 18, 17, 18, 124], [0, 127, 73, 73, 73, 54], [0, 62, 65, 65, 65, 34],
     [0, 127, 65, 65, 34, 28], [0, 127, 73, 73, 73, 65], [0, 127, 9, 9, 9, 1], [0, 62, 65, 73, 73, 122],
     [0, 127, 8, 8, 8, 127], [0, 0, 65, 127, 65, 0], [0, 32, 64, 65, 63, 1], [0, 127, 8, 20, 34, 65],
     [0, 127, 64, 64, 64, 64], [0, 127, 2, 12, 2, 127], [0, 127, 4, 8, 16, 127], [0, 62, 65, 65, 65, 62],
     [0, 127, 9, 9, 9, 6], [0, 62, 65, 81, 33, 94], [0, 127, 9, 25, 41, 70], [0, 70, 73, 73, 73, 49],
     [0, 1, 1, 127, 1, 1], [0, 63, 64, 64, 64, 63], [0, 31, 32, 64, 32, 31], [0, 63, 64, 56, 64, 63],
     [0, 99, 20, 8, 20, 99], [0, 7, 8, 112, 8, 7], [0, 97, 81, 73, 69, 67], [0, 0, 127, 65, 65, 0],
     [0, 85, 42, 85, 42, 85], [0, 0, 65, 65, 127, 0], [0, 4, 2, 1, 2, 4], [0, 64, 64, 64, 64, 64],
     [0, 0, 1, 2, 4, 0], [0, 32, 84, 84, 84, 120], [0, 127, 72, 68, 68, 56], [0, 56, 68, 68, 68, 32],
     [0, 56, 68, 68, 72, 127], [0, 56, 84, 84, 84, 24], [0, 8, 126, 9, 1, 2], [0, 24, 164, 164, 164, 124],
     [0, 127, 8, 4, 4, 120], [0, 0, 68, 125, 64, 0], [0, 64, 128, 132, 125, 0], [0, 127, 16, 40, 68, 0],
     [0, 0, 65, 127, 64, 0], [0, 124, 4, 24, 4, 120], [0, 124, 8, 4, 4, 120], [0, 56, 68, 68, 68, 56],
     [0, 252, 36, 36, 36, 24], [0, 24, 36, 36, 24, 252], [0, 124, 8, 4, 4, 8], [0, 72, 84, 84, 84, 32],
     [0, 4, 63, 68, 64, 32], [0, 60, 64, 64, 32, 124], [0, 28, 32, 64, 32, 28], [0, 60, 64, 48, 64, 60],
     [0, 68, 40, 16, 40, 68], [0, 28, 160, 160, 160, 124], [0, 68, 100, 84, 76, 68], [20, 20, 20, 20, 20, 20]]"

text \<open>One flat array in the source, sixteen bytes a character.\<close>

definition F8X16 :: "int list" where
  "F8X16 = concat
    [[0, 0, 0, 0, 0, 0, 0, 0, 0, 0, 0, 0, 0, 0, 0, 0],
     [0, 0, 0, 248, 0, 0, 0, 0, 0, 0, 0, 51, 48, 0, 0, 0],
     [0, 16, 12, 6, 16, 12, 6, 0, 0, 0, 0, 0, 0, 0, 0, 0],
     [64, 192, 120, 64, 192, 120, 64, 0, 4, 63, 4, 4, 63, 4, 4, 0],
     [0, 112, 136, 252, 8, 48, 0, 0, 0, 24, 32, 255, 33, 30, 0, 0],
     [240, 8, 240, 0, 224, 24, 0, 0, 0, 33, 28, 3, 30, 33, 30, 0],
     [0, 240, 8, 136, 112, 0, 0, 0, 30, 33, 35, 36, 25, 39, 33, 16],
     [16, 22, 14, 0, 0, 0, 0, 0, 0, 0, 0, 0, 0, 0, 0, 0],
     [0, 0, 0, 224, 24, 4, 2, 0, 0, 0, 0, 7, 24, 32, 64, 0],
     [0, 2, 4, 24, 224, 0, 0, 0, 0, 64, 32, 24, 7, 0, 0, 0],
     [64, 64, 128, 240, 128, 64, 64, 0, 2, 2, 1, 15, 1, 2, 2, 0],
     [0, 0, 0, 240, 0, 0, 0, 0, 1, 1, 1, 31, 1, 1, 1, 0],
     [0, 0, 0, 0, 0, 0, 0, 0, 128, 176, 112, 0, 0, 0, 0, 0],
     [0, 0, 0, 0, 0, 0, 0, 0, 0, 1, 1, 1, 1, 1, 1, 1],
     [0, 0, 0, 0, 0, 0, 0, 0, 0, 48, 48, 0, 0, 0, 0, 0],
     [0, 0, 0, 0, 128, 96, 24, 4, 0, 96, 24, 6, 1, 0, 0, 0],
     [0, 224, 16, 8, 8, 16, 224, 0, 0, 15, 16, 32, 32, 16, 15, 0],
     [0, 16, 16, 248, 0, 0, 0, 0, 0, 32, 32, 63, 32, 32, 0, 0],
     [0, 112, 8, 8, 8, 136, 112, 0, 0, 48, 40, 36, 34, 33, 48, 0],
     [0, 48, 8, 136, 136, 72, 48, 0, 0, 24, 32, 32, 32, 17, 14, 0],
     [0, 0, 192, 32, 16, 248, 0, 0, 0, 7, 4, 36, 36, 63, 36, 0],
     [0, 248, 8, 136, 136, 8, 8, 0, 0, 25, 33, 32, 32, 17, 14, 0],
     [0, 224, 16, 136, 136, 24, 0, 0, 0, 15, 17, 32, 32, 17, 14, 0],
     [0, 56, 8, 8, 200, 56, 8, 0, 0, 0, 0, 63, 0, 0, 0, 0],
     [0, 112, 136, 8, 8, 136, 112, 0, 0, 28, 34, 33, 33, 34, 28, 0],
     [0, 224, 16, 8, 8, 16, 224, 0, 0, 0, 49, 34, 34, 17, 15, 0],
     [0, 0, 0, 192, 192, 0, 0, 0, 0, 0, 0, 48, 48, 0, 0, 0],
     [0, 0, 0, 128, 0, 0, 0, 0, 0, 0, 128, 96, 0, 0, 0, 0],
     [0, 0, 128, 64, 32, 16, 8, 0, 0, 1, 2, 4, 8, 16, 32, 0],
     [64, 64, 64, 64, 64, 64, 64, 0, 4, 4, 4, 4, 4, 4, 4, 0],
     [0, 8, 16, 32, 64, 128, 0, 0, 0, 32, 16, 8, 4, 2, 1, 0],
     [0, 112, 72, 8, 8, 8, 240, 0, 0, 0, 0, 48, 54, 1, 0, 0],
     [192, 48, 200, 40, 232, 16, 224, 0, 7, 24, 39, 36, 35, 20, 11, 0],
     [0, 0, 192, 56, 224, 0, 0, 0, 32, 60, 35, 2, 2, 39, 56, 32],
     [8, 248, 136, 136, 136, 112, 0, 0, 32, 63, 32, 32, 32, 17, 14, 0],
     [192, 48, 8, 8, 8, 8, 56, 0, 7, 24, 32, 32, 32, 16, 8, 0],
     [8, 248, 8, 8, 8, 16, 224, 0, 32, 63, 32, 32, 32, 16, 15, 0],
     [8, 248, 136, 136, 232, 8, 16, 0, 32, 63, 32, 32, 35, 32, 24, 0],
     [8, 248, 136, 136, 232, 8, 16, 0, 32, 63, 32, 0, 3, 0, 0, 0],
     [192, 48, 8, 8, 8, 56, 0, 0, 7, 24, 32, 32, 34, 30, 2, 0],
     [8, 248, 8, 0, 0, 8, 248, 8, 32, 63, 33, 1, 1, 33, 63, 32],
     [0, 8, 8, 248, 8, 8, 0, 0, 0, 32, 32, 63, 32, 32, 0, 0],
     [0, 0, 8, 8, 248, 8, 8, 0, 192, 128, 128, 128, 127, 0, 0, 0],
     [8, 248, 136, 192, 40, 24, 8, 0, 32, 63, 32, 1, 38, 56, 32, 0],
     [8, 248, 8, 0, 0, 0, 0, 0, 32, 63, 32, 32, 32, 32, 48, 0],
     [8, 248, 248, 0, 248, 248, 8, 0, 32, 63, 0, 63, 0, 63, 32, 0],
     [8, 248, 48, 192, 0, 8, 248, 8, 32, 63, 32, 0, 7, 24, 63, 0],
     [224, 16, 8, 8, 8, 16, 224, 0, 15, 16, 32, 32, 32, 16, 15, 0],
     [8, 248, 8, 8, 8, 8, 240, 0, 32, 63, 33, 1, 1, 1, 0, 0],
     [224, 16, 8, 8, 8, 16, 224, 0, 15, 24, 36, 36, 56, 80, 79, 0],
     [8, 248, 136, 136, 136, 136, 112, 0, 32, 63, 32, 0, 3, 12, 48, 32],
     [0, 112, 136, 8, 8, 8, 56, 0, 0, 56, 32, 33, 33, 34, 28, 0],
     [24, 8, 8, 248, 8, 8, 24, 0, 0, 0, 32, 63, 32, 0, 0, 0],
     [8, 248, 8, 0, 0, 8, 248, 8, 0, 31, 32, 32, 32, 32, 31, 0],
     [8, 120, 136, 0, 0, 200, 56, 8, 0, 0, 7, 56, 14, 1, 0, 0],
     [248, 8, 0, 248, 0, 8, 248, 0, 3, 60, 7, 0, 7, 60, 3, 0],
     [8, 24, 104, 128, 128, 104, 24, 8, 32, 48, 44, 3, 3, 44, 48, 32],
     [8, 56, 200, 0, 200, 56, 8, 0, 0, 0, 32, 63, 32, 0, 0, 0],
     [16, 8, 8, 8, 200, 56, 8, 0, 32, 56, 38, 33, 32, 32, 24, 0],
     [0, 0, 0, 254, 2, 2, 2, 0, 0, 0, 0, 127, 64, 64, 64, 0],
     [0, 12, 48, 192, 0, 0, 0, 0, 0, 0, 0, 1, 6, 56, 192, 0],
     [0, 2, 2, 2, 254, 0, 0, 0, 0, 64, 64, 64, 127, 0, 0, 0],
     [0, 0, 4, 2, 2, 2, 4, 0, 0, 0, 0, 0, 0, 0, 0, 0],
     [0, 0, 0, 0, 0, 0, 0, 0, 128, 128, 128, 128, 128, 128, 128, 128],
     [0, 2, 2, 4, 0, 0, 0, 0, 0, 0, 0, 0, 0, 0, 0, 0],
     [0, 0, 128, 128, 128, 128, 0, 0, 0, 25, 36, 34, 34, 34, 63, 32],
     [8, 248, 0, 128, 128, 0, 0, 0, 0, 63, 17, 32, 32, 17, 14, 0],
     [0, 0, 0, 128, 128, 128, 0, 0, 0, 14, 17, 32, 32, 32, 17, 0],
     [0, 0, 0, 128, 128, 136, 248, 0, 0, 14, 17, 32, 32, 16, 63, 32],
     [0, 0, 128, 128, 128, 128, 0, 0, 0, 31, 34, 34, 34, 34, 19, 0],
     [0, 128, 128, 240, 136, 136, 136, 24, 0, 32, 32, 63, 32, 32, 0, 0],
     [0, 0, 128, 128, 128, 128, 128, 0, 0, 107, 148, 148, 148, 147, 96, 0],
     [8, 248, 0, 128, 128, 128, 0, 0, 32, 63, 33, 0, 0, 32, 63, 32],
     [0, 128, 152, 152, 0, 0, 0, 0, 0, 32, 32, 63, 32, 32, 0, 0],
     [0, 0, 0, 128, 152, 152, 0, 0, 0, 192, 128, 128, 128, 127, 0, 0],
     [8, 248, 0, 0, 128, 128, 128, 0, 32, 63, 36, 2, 45, 48, 32, 0],
     [0, 8, 8, 248, 0, 0, 0, 0, 0, 32, 32, 63, 32, 32, 0, 0],
     [128, 128, 128, 128, 128, 128, 128, 0, 32, 63, 32, 0, 63, 32, 0, 63],
     [128, 128, 0, 128, 128, 128, 0, 0, 32, 63, 33, 0, 0, 32, 63, 32],
     [0, 0, 128, 128, 128, 128, 0, 0, 0, 31, 32, 32, 32, 32, 31, 0],
     [128, 128, 0, 128, 128, 0, 0, 0, 128, 255, 161, 32, 32, 17, 14, 0],
     [0, 0, 0, 128, 128, 128, 128, 0, 0, 14, 17, 32, 32, 160, 255, 128],
     [128, 128, 128, 0, 128, 128, 128, 0, 32, 32, 63, 33, 32, 0, 1, 0],
     [0, 0, 128, 128, 128, 128, 128, 0, 0, 51, 36, 36, 36, 36, 25, 0],
     [0, 128, 128, 224, 128, 128, 0, 0, 0, 0, 0, 31, 32, 32, 0, 0],
     [128, 128, 0, 0, 0, 128, 128, 0, 0, 31, 32, 32, 32, 16, 63, 32],
     [128, 128, 128, 0, 0, 128, 128, 128, 0, 1, 14, 48, 8, 6, 1, 0],
     [128, 128, 0, 128, 0, 128, 128, 128, 15, 48, 12, 3, 12, 48, 15, 0],
     [0, 128, 128, 0, 128, 128, 128, 0, 0, 32, 49, 46, 14, 49, 32, 0],
     [128, 128, 128, 0, 0, 128, 128, 128, 128, 129, 142, 112, 24, 6, 1, 0],
     [0, 128, 128, 128, 128, 128, 128, 0, 0, 33, 48, 44, 34, 33, 48, 0],
     [0, 0, 0, 0, 128, 124, 2, 2, 0, 0, 0, 0, 0, 63, 64, 64],
     [0, 0, 0, 0, 255, 0, 0, 0, 0, 0, 0, 0, 255, 0, 0, 0],
     [0, 2, 2, 124, 128, 0, 0, 0, 0, 64, 64, 63, 0, 0, 0, 0],
     [0, 6, 1, 1, 2, 2, 4, 4, 0, 0, 0, 0, 0, 0, 0, 0]]"

section \<open>Pins and power\<close>

datatype Power_Type_t = POWER_TYPE_VPAD | POWER_TYPE_MMC | POWER_TYPE_LCD | POWER_TYPE_CAM

datatype ssd_act =
    Power_Enable Power_Type_t bool
  | Gpio_Init int
  | Spi_Init
  | Gpio_Set int bool
  | Spi_Byte int
  | Os_Sleep nat

definition GPIO_EnablePower :: "int \<Rightarrow> bool \<Rightarrow> ssd_act list" where
  "GPIO_EnablePower pin enable =
     (if pin \<ge> 0 \<and> pin \<le> 7 then [Power_Enable POWER_TYPE_VPAD enable]
      else if pin \<ge> 8 \<and> pin \<le> 13 then [Power_Enable POWER_TYPE_MMC enable]
      else if pin \<ge> 14 \<and> pin \<le> 18 then [Power_Enable POWER_TYPE_LCD enable]
      else if pin \<ge> 19 \<and> pin \<le> 24 then [Power_Enable POWER_TYPE_CAM enable]
      else [])"

text \<open>The globals; the SPI port is \<open>SPI_MAX\<close>, which is 3, before the initialisation.\<close>

record ssd =
  ssd1306_width :: int
  ssd1306_height :: int
  ssd1306_spi :: int
  ssd1306_rst :: int
  ssd1306_dc :: int

definition ssd0 :: ssd where
  "ssd0 = \<lparr>ssd1306_width = 0, ssd1306_height = 0, ssd1306_spi = 3, ssd1306_rst = 35, ssd1306_dc = 35\<rparr>"

definition SSD1306_SET_RST :: "ssd \<Rightarrow> bool \<Rightarrow> ssd_act list" where
  "SSD1306_SET_RST d rst = [Gpio_Set (ssd1306_rst d) (\<not> rst)]"

definition SSD1306_DC_DATA :: "ssd \<Rightarrow> ssd_act list" where
  "SSD1306_DC_DATA d = [Gpio_Set (ssd1306_dc d) True]"

definition SSD1306_DC_CMD :: "ssd \<Rightarrow> ssd_act list" where
  "SSD1306_DC_CMD d = [Gpio_Set (ssd1306_dc d) False]"

section \<open>Bytes\<close>

text \<open>The byte read back is not used.\<close>

definition SPI_WriteReadByte :: "int \<Rightarrow> ssd_act list" where
  "SPI_WriteReadByte data = [Spi_Byte data]"

definition SSD1306_CMD :: int where "SSD1306_CMD = 0"
definition SSD1306_DATA :: int where "SSD1306_DATA = 1"

definition SSD1306_WriteByte :: "ssd \<Rightarrow> int \<Rightarrow> int \<Rightarrow> ssd_act list" where
  "SSD1306_WriteByte d data cmd =
     (if cmd = SSD1306_CMD then SSD1306_DC_CMD d else SSD1306_DC_DATA d) @ SPI_WriteReadByte data @ SSD1306_DC_CMD d"

definition SSD1306_Clear :: "ssd \<Rightarrow> ssd_act list" where
  "SSD1306_Clear d =
     concat (map (\<lambda>i. SSD1306_WriteByte d (176 + int i) SSD1306_CMD @ SSD1306_WriteByte d 0 SSD1306_CMD
       @ SSD1306_WriteByte d 16 SSD1306_CMD @ concat (replicate 128 (SSD1306_WriteByte d 0 SSD1306_DATA))) [0..<8])"

definition SSD1306_DisplayOn :: "ssd \<Rightarrow> ssd_act list" where
  "SSD1306_DisplayOn d =
     SSD1306_WriteByte d 141 SSD1306_CMD @ SSD1306_WriteByte d 20 SSD1306_CMD @ SSD1306_WriteByte d 175 SSD1306_CMD"

definition SSD1306_DisplayOff :: "ssd \<Rightarrow> ssd_act list" where
  "SSD1306_DisplayOff d =
     SSD1306_WriteByte d 141 SSD1306_CMD @ SSD1306_WriteByte d 16 SSD1306_CMD @ SSD1306_WriteByte d 174 SSD1306_CMD"

text \<open>The high and the low half of the column.\<close>

definition column_high :: "int \<Rightarrow> int" where
  "column_high x = or (x div 16) 16"

definition column_low :: "int \<Rightarrow> int" where
  "column_low x = or (x mod 16) 1"

definition SSD1306_SetPos :: "ssd \<Rightarrow> int \<Rightarrow> int \<Rightarrow> ssd_act list" where
  "SSD1306_SetPos d x y =
     SSD1306_WriteByte d (u8 (176 + y)) SSD1306_CMD @ SSD1306_WriteByte d (column_high x) SSD1306_CMD
     @ SSD1306_WriteByte d (column_low x) SSD1306_CMD"

section \<open>Characters\<close>

definition glyph_bytes :: "ssd \<Rightarrow> int list \<Rightarrow> ssd_act list" where
  "glyph_bytes d bs = concat (map (\<lambda>b. SSD1306_WriteByte d b SSD1306_DATA) bs)"

definition SSD1306_ShowChar :: "ssd \<Rightarrow> int \<Rightarrow> int \<Rightarrow> int \<Rightarrow> int \<Rightarrow> ssd_act list result" where
  "SSD1306_ShowChar d x y chr font =
     (let c = nat (u8 (chr - 32)); (x, y) = (if x > ssd1306_width d - 1 then (0, u8 (y + 2)) else (x, y))
      in if font = 16 then
           if length F8X16 < c * 16 + 16 then Inl Out_Of_Bounds
           else Inr (SSD1306_SetPos d x y @ glyph_bytes d (take 8 (drop (c * 16) F8X16))
                  @ SSD1306_SetPos d x (u8 (y + 1)) @ glyph_bytes d (take 8 (drop (c * 16 + 8) F8X16)))
         else if length F6x8 \<le> c then Inl Out_Of_Bounds
         else Inr (SSD1306_SetPos d x (u8 (y + 1)) @ glyph_bytes d (F6x8 ! c)))"

text \<open>The index into the string is an \<open>unsigned char\<close>: behind 256 characters the loop starts over.\<close>

partial_function (option) show_loop :: "ssd \<Rightarrow> byte list \<Rightarrow> int \<Rightarrow> nat \<Rightarrow> int \<Rightarrow> int \<Rightarrow> ssd_act list \<Rightarrow> ssd_act list result option" where
  "show_loop d chr font j x y out =
     (if j < length chr \<and> chr ! j \<noteq> NUL then
        (case SSD1306_ShowChar d x y (uchar (chr ! j)) font of
           Inl e \<Rightarrow> Some (Inl e)
         | Inr as \<Rightarrow>
             (let x' = u8 (x + 8)
              in if x' > 120 then show_loop d chr font (if j = 255 then 0 else Suc j) 0 (u8 (y + 2)) (out @ as)
                 else show_loop d chr font (if j = 255 then 0 else Suc j) x' y (out @ as)))
      else Some (Inr out))"

definition SSD1306_ShowString :: "ssd \<Rightarrow> int \<Rightarrow> int \<Rightarrow> byte list \<Rightarrow> int \<Rightarrow> ssd_act list result option" where
  "SSD1306_ShowString d x y chr font = show_loop d chr font 0 x y []"

section \<open>Pictures\<close>

text \<open>The pixels of one row of a picture from index \<open>j\<close> on; the loop over the columns ends, or reads behind the picture.\<close>

function bmp_columns :: "ssd \<Rightarrow> int \<Rightarrow> int \<Rightarrow> int list \<Rightarrow> nat \<Rightarrow> (ssd_act list \<times> nat) result" where
  "bmp_columns d x x1 bmp j =
     (if x \<le> x1 then
        if j < length bmp then
          (case bmp_columns d (u8 (x + 1)) x1 bmp (Suc j) of
             Inl e \<Rightarrow> Inl e
           | Inr (as, j') \<Rightarrow> Inr (SSD1306_WriteByte d (bmp ! j) SSD1306_DATA @ as, j'))
        else Inl Out_Of_Bounds
      else Inr ([], j))"
  by pat_completeness auto
termination by (relation "measure (\<lambda>(d, x, x1, bmp, j). length bmp - j)") auto

partial_function (option) bmp_rows :: "ssd \<Rightarrow> int \<Rightarrow> int \<Rightarrow> int \<Rightarrow> int \<Rightarrow> int list \<Rightarrow> nat \<Rightarrow> ssd_act list \<Rightarrow> ssd_act list result option" where
  "bmp_rows d x0 x1 y y1 bmp j out =
     (if y \<le> y1 then
        (case bmp_columns d x0 x1 bmp j of
           Inl e \<Rightarrow> Some (Inl e)
         | Inr (as, j') \<Rightarrow> bmp_rows d x0 x1 (u8 (y + 1)) y1 bmp j' (out @ SSD1306_SetPos d x0 y @ as))
      else Some (Inr out))"

definition SSD1306_DrawBMP :: "ssd \<Rightarrow> int \<Rightarrow> int \<Rightarrow> int \<Rightarrow> int \<Rightarrow> int list \<Rightarrow> ssd_act list result option" where
  "SSD1306_DrawBMP d x0 x1 y0 y1 bmp = bmp_rows d x0 x1 y0 y1 bmp 0 []"

definition SSD1306_Show :: "ssd \<Rightarrow> int list \<Rightarrow> ssd_act list result" where
  "SSD1306_Show d data =
     (let w = nat (ssd1306_width d); pages = nat (ssd1306_height d div 8)
      in if length data < pages * w then Inl Out_Of_Bounds
         else Inr (concat (map (\<lambda>i. SSD1306_SetPos d 0 (u8 (int i)) @ SSD1306_DC_DATA d
                @ concat (map (\<lambda>j. SPI_WriteReadByte (data ! (i * w + j))) [0..<w])) [0..<pages]) @ SSD1306_DC_CMD d))"

section \<open>Initialisation\<close>

definition ssd_init_commands :: "int list" where
  "ssd_init_commands =
    [174, 0, 16, 64, 129, 207, 161, 200, 166, 168, 63, 211, 0, 213, 128, 217, 241, 218, 18, 219, 64, 32, 2,
     141, 20, 164, 166, 175]"

definition SSD1306_Init :: "int \<Rightarrow> int \<Rightarrow> int \<Rightarrow> bool \<Rightarrow> int \<Rightarrow> int \<Rightarrow> ssd \<Rightarrow> bool \<times> ssd_act list \<times> ssd" where
  "SSD1306_Init width height spiN spiConfig rst dc d =
     (if spiN = 3 \<or> \<not> spiConfig \<or> width = 0 \<or> height = 0 then (False, [], d)
      else
        let d = \<lparr>ssd1306_width = width, ssd1306_height = height, ssd1306_spi = spiN, ssd1306_rst = rst, ssd1306_dc = dc\<rparr>
        in (True,
            GPIO_EnablePower rst True @ GPIO_EnablePower dc True @ [Gpio_Init rst, Gpio_Init dc, Spi_Init]
            @ SSD1306_SET_RST d False @ [Os_Sleep 100] @ SSD1306_SET_RST d True @ [Os_Sleep 200] @ SSD1306_SET_RST d False
            @ concat (map (\<lambda>b. SSD1306_WriteByte d b SSD1306_CMD) ssd_init_commands)
            @ SSD1306_Clear d @ SSD1306_SetPos d 0 0,
            d))"

section \<open>Positions and strings\<close>

lemma font_sizes [simp]: "length F6x8 = 92" "list_all (\<lambda>r. length r = 6) F6x8" "length F8X16 = 1520"
  by code_simp+

text \<open>A character is shown exactly when the font has it: 92 characters in the small one, 95 in the big one.\<close>

lemma ShowChar_in_font:
  assumes "0 \<le> chr" "chr < 256"
  shows "(\<exists>as. SSD1306_ShowChar d x y chr font = Inr as) \<longleftrightarrow> 32 \<le> chr \<and> chr < (if font = 16 then 127 else 124)"
proof -
  have c: "u8 (chr - 32) = (if 32 \<le> chr then chr - 32 else chr + 224)"
  proof (cases "32 \<le> chr")
    case False
    have "(chr - 32 + 256) mod 256 = (chr - 32) mod 256" by (rule mod_add_self2)
    then show ?thesis using False assms by (simp add: u8_def)
  qed (use assms in \<open>simp add: u8_def\<close>)
  show ?thesis using assms by (simp add: SSD1306_ShowChar_def c Let_def split: prod.split) linarith
qed

lemma low_bits: "list_all (\<lambda>k. or k 1 = (if even k then k + 1 else k) \<and> or k 16 = k + 16) [0..(15::int)]"
  by code_simp

lemma column_low_odd: "column_low x = (if even x then x mod 16 + 1 else x mod 16)"
proof -
  have "x mod 16 \<in> set [0..15]" by simp
  then have "or (x mod 16) 1 = (if even (x mod 16) then x mod 16 + 1 else x mod 16)" using low_bits by (auto simp: list_all_iff)
  moreover have "even (x mod 16) \<longleftrightarrow> even x" by (simp add: dvd_mod_iff)
  ultimately show ?thesis by (simp add: column_low_def)
qed

lemma column_high_plain: "0 \<le> x \<Longrightarrow> x < 256 \<Longrightarrow> column_high x = x div 16 + 16"
proof -
  assume "0 \<le> x" "x < 256"
  then have "x div 16 \<in> set [0..15]" by auto
  then show ?thesis using low_bits by (auto simp: list_all_iff column_high_def)
qed

text \<open>\<open>SSD1306_SetPos\<close> does not set an even column: with the lowest bit of the low half always set, the column
  the display is sent is one to the right of the one asked for, for every even column; odd columns and
  the page are set as asked.\<close>

theorem set_pos_column:
  assumes "0 \<le> x" "x < 128" "0 \<le> y" "y < 8"
  shows "\<exists>lo hi. SSD1306_SetPos d x y = SSD1306_WriteByte d (176 + y) SSD1306_CMD @ SSD1306_WriteByte d (16 + hi) SSD1306_CMD
      @ SSD1306_WriteByte d lo SSD1306_CMD \<and> 0 \<le> lo \<and> lo < 16 \<and> 16 * hi + lo = (if even x then x + 1 else x)"
proof -
  have "x mod 16 < 16" "0 \<le> x mod 16" "16 * (x div 16) + x mod 16 = x" by simp_all
  moreover have "even x \<Longrightarrow> x mod 16 \<noteq> 15" by presburger
  ultimately show ?thesis
    using assms by (intro exI [of _ "column_low x"] exI [of _ "x div 16"])
      (auto simp: SSD1306_SetPos_def column_high_plain column_low_odd u8_id add.commute)
qed

theorem set_pos_column_witness:
  "SSD1306_SetPos ssd0 64 3 = SSD1306_WriteByte ssd0 179 SSD1306_CMD @ SSD1306_WriteByte ssd0 20 SSD1306_CMD
    @ SSD1306_WriteByte ssd0 1 SSD1306_CMD"
proof -
  obtain lo hi where r: "SSD1306_SetPos ssd0 64 3 = SSD1306_WriteByte ssd0 (176 + 3) SSD1306_CMD @ SSD1306_WriteByte ssd0 (16 + hi) SSD1306_CMD
      @ SSD1306_WriteByte ssd0 lo SSD1306_CMD" "0 \<le> lo" "lo < 16" "16 * hi + lo = 65"
    using set_pos_column [of 64 3 ssd0] by auto
  have "hi = 4" "lo = 1" using r(2-4) by presburger+
  with r(1) show ?thesis by simp
qed

text \<open>Where the character number \<open>k\<close> of a string goes: sixteen a line, two pages a line.\<close>

definition char_acts :: "ssd \<Rightarrow> int \<Rightarrow> byte list \<Rightarrow> int \<Rightarrow> nat \<Rightarrow> ssd_act list" where
  "char_acts d y s font k =
     projr (SSD1306_ShowChar d (8 * (int k mod 16)) (u8 (y + 2 * (int k div 16))) (uchar (s ! k)) font)"

definition printable :: "int \<Rightarrow> byte \<Rightarrow> bool" where
  "printable font c \<longleftrightarrow> 32 \<le> uchar c \<and> uchar c < (if font = 16 then 127 else 124)"

lemma next_sixteen:
  fixes z :: int
  shows "z mod 16 \<noteq> 15 \<Longrightarrow> (z + 1) mod 16 = z mod 16 + 1 \<and> (z + 1) div 16 = z div 16"
    and "z mod 16 = 15 \<Longrightarrow> (z + 1) mod 16 = 0 \<and> (z + 1) div 16 = z div 16 + 1"
proof -
  have z: "z + 1 = 16 * (z div 16) + (z mod 16 + 1)" "0 \<le> z mod 16" "z mod 16 < 16" by simp_all
  show "(z + 1) mod 16 = z mod 16 + 1 \<and> (z + 1) div 16 = z div 16" if "z mod 16 \<noteq> 15"
    using int_div_pos_eq [OF z(1)] int_mod_pos_eq [OF z(1)] z(2,3) that by simp
  have z': "z + 1 = 16 * (z div 16 + 1) + 0" if "z mod 16 = 15" using z(1) that by simp
  show "(z + 1) mod 16 = 0 \<and> (z + 1) div 16 = z div 16 + 1" if "z mod 16 = 15"
    using int_div_pos_eq [OF z' [OF that]] int_mod_pos_eq [OF z' [OF that]] by simp
qed

lemma next_cursor:
  "u8 (8 * (int k mod 16) + 8) > 120 \<longleftrightarrow> int k mod 16 = 15"
  "int k mod 16 \<noteq> 15 \<Longrightarrow> u8 (8 * (int k mod 16) + 8) = 8 * (int (Suc k) mod 16) \<and> int (Suc k) div 16 = int k div 16"
  "int k mod 16 = 15 \<Longrightarrow> int (Suc k) mod 16 = 0 \<and> int (Suc k) div 16 = int k div 16 + 1"
proof -
  have m: "0 \<le> int k mod 16" "int k mod 16 < 16" by simp_all
  have u: "u8 (8 * (int k mod 16) + 8) = 8 * (int k mod 16) + 8" by (rule u8_id) (use m in linarith)+
  have S: "int (Suc k) = int k + 1" by simp
  show "u8 (8 * (int k mod 16) + 8) > 120 \<longleftrightarrow> int k mod 16 = 15" using m u by linarith
  show "u8 (8 * (int k mod 16) + 8) = 8 * (int (Suc k) mod 16) \<and> int (Suc k) div 16 = int k div 16" if "int k mod 16 \<noteq> 15"
    unfolding u S using next_sixteen(1) [OF that] by simp
  show "int (Suc k) mod 16 = 0 \<and> int (Suc k) div 16 = int k div 16 + 1" if "int k mod 16 = 15"
    unfolding S using next_sixteen(2) [OF that] by simp
qed

lemma show_loop_layout:
  assumes "length s < 256" "list_all (printable font) s" "n + j = length s"
  shows "show_loop d s font j (8 * (int j mod 16)) (u8 (y + 2 * (int j div 16))) out
    = Some (Inr (out @ concat (map (char_acts d y s font) [j..<length s])))"
  using assms(3)
proof (induction n arbitrary: j out)
  case 0
  then show ?case by (subst show_loop.simps) simp
next
  case (Suc n)
  then have j: "j < length s" "j \<noteq> 255" using assms(1) by simp_all
  have p: "printable font (s ! j)" using assms(2) j(1) by (simp add: list_all_length)
  then have nul: "s ! j \<noteq> NUL" by (auto simp: printable_def uchar_def)
  obtain as where as: "SSD1306_ShowChar d (8 * (int j mod 16)) (u8 (y + 2 * (int j div 16))) (uchar (s ! j)) font = Inr as"
    using ShowChar_in_font [OF uchar_range] p unfolding printable_def by blast
  have ca: "char_acts d y s font j = as" by (simp add: char_acts_def as)
  have up: "[j..<length s] = j # [Suc j..<length s]" using j(1) by (simp add: upt_conv_Cons)
  have yy: "u8 (u8 (y + 2 * (int j div 16)) + 2) = u8 (y + 2 * (int j div 16 + 1))"
    by (simp add: u8_def mod_simps) (simp add: algebra_simps)
  have IH: "show_loop d s font (Suc j) (8 * (int (Suc j) mod 16)) (u8 (y + 2 * (int (Suc j) div 16))) (out @ as)
      = Some (Inr ((out @ as) @ concat (map (char_acts d y s font) [Suc j..<length s])))"
    by (rule Suc.IH) (use Suc(2) in simp)
  show ?case
  proof (cases "int j mod 16 = 15")
    case True
    then show ?thesis
      using IH next_cursor(1) [of j] next_cursor(3) [OF True] j nul as ca up yy
      by (subst show_loop.simps) (simp add: Let_def)
  next
    case False
    then show ?thesis
      using IH next_cursor(1) [of j] next_cursor(2) [OF False] j nul as ca up
      by (subst show_loop.simps) (simp add: Let_def)
  qed
qed



section \<open>Pictures and pages\<close>

text \<open>One row of a picture is sent byte by byte when the picture has them.\<close>

lemma bmp_columns_row:
  assumes "0 \<le> x" "x1 < 255" "n = nat (x1 + 1 - x)" "j + n \<le> length bmp"
  shows "bmp_columns d x x1 bmp j = Inr (glyph_bytes d (take n (drop j bmp)), j + n)"
  using assms
proof (induction n arbitrary: x j)
  case 0
  then show ?case by (simp add: glyph_bytes_def)
next
  case (Suc n)
  then have "x \<le> x1" "u8 (x + 1) = x + 1" by (simp_all add: u8_id)
  moreover have "bmp_columns d (x + 1) x1 bmp (Suc j) = Inr (glyph_bytes d (take n (drop (Suc j) bmp)), Suc j + n)"
    by (rule Suc.IH) (use Suc(2-5) in auto)
  moreover have "take (Suc n) (drop j bmp) = bmp ! j # take n (drop (Suc j) bmp)"
    using Suc(5) by (simp add: take_Suc_conv_app_nth Cons_nth_drop_Suc [symmetric])
  ultimately show ?case using Suc(5) by (subst bmp_columns.simps) (simp add: glyph_bytes_def del: bmp_columns.simps)
qed

declare bmp_columns.simps [simp del]

lemma bmp_rows_picture:
  assumes "0 \<le> x0" "x0 \<le> x1" "x1 < 255" "0 \<le> y" "y1 < 255" "w = nat (x1 + 1 - x0)" "n = nat (y1 + 1 - y)" "j + n * w \<le> length bmp"
  shows "bmp_rows d x0 x1 y y1 bmp j out = Some (Inr (out
    @ concat (map (\<lambda>i. SSD1306_SetPos d x0 (y + int i) @ glyph_bytes d (take w (drop (j + i * w) bmp))) [0..<n])))"
  using assms(4,7,8)
proof (induction n arbitrary: y j out)
  case 0
  then show ?case by (subst bmp_rows.simps) simp
next
  case (Suc n)
  have l: "j + w + n * w \<le> length bmp" using Suc(4) by simp
  have y: "y \<le> y1" "u8 (y + 1) = y + 1" using Suc(2,3) assms(5) by (simp_all add: u8_id)
  have row: "bmp_columns d x0 x1 bmp j = Inr (glyph_bytes d (take w (drop j bmp)), j + w)"
    by (rule bmp_columns_row) (use assms Suc(4) in auto)
  have IH: "bmp_rows d x0 x1 (y + 1) y1 bmp (j + w) out' = Some (Inr (out'
    @ concat (map (\<lambda>i. SSD1306_SetPos d x0 (y + 1 + int i) @ glyph_bytes d (take w (drop (j + w + i * w) bmp))) [0..<n])))" for out'
    by (rule Suc.IH) (use Suc(2,3) l in auto)
  have up: "[0..<Suc n] = 0 # map Suc [0..<n]" by (simp add: upt_conv_Cons map_Suc_upt del: upt_Suc)
  show ?case using y row IH unfolding up by (subst bmp_rows.simps) (simp add: comp_def algebra_simps)
qed

text \<open>A picture of \<open>w\<close> columns and \<open>n\<close> pages is drawn row by row: every page is addressed at the left edge of
  the picture and gets its \<open>w\<close> bytes in order, and nothing behind the picture is read.\<close>

theorem draw_bmp_rows:
  assumes "0 \<le> x0" "x0 \<le> x1" "x1 < 255" "0 \<le> y0" "y0 \<le> y1" "y1 < 255"
    and "w = nat (x1 + 1 - x0)" "n = nat (y1 + 1 - y0)" "n * w \<le> length bmp"
  shows "SSD1306_DrawBMP d x0 x1 y0 y1 bmp = Some (Inr
    (concat (map (\<lambda>i. SSD1306_SetPos d x0 (y0 + int i) @ glyph_bytes d (take w (drop (i * w) bmp))) [0..<n])))"
  using bmp_rows_picture [OF assms(1,2,3,4,6,7,8), of 0 bmp d "[]"] assms(9) by (simp add: SSD1306_DrawBMP_def)

theorem draw_bmp_rows_witness:
  "SSD1306_DrawBMP ssd0 0 1 0 1 [1, 2, 3, 4] = Some (Inr
    (SSD1306_SetPos ssd0 0 0 @ glyph_bytes ssd0 [1, 2] @ SSD1306_SetPos ssd0 0 1 @ glyph_bytes ssd0 [3, 4]))"
proof -
  have "SSD1306_DrawBMP ssd0 0 1 0 1 [1, 2, 3, 4] = Some (Inr
    (concat (map (\<lambda>i. SSD1306_SetPos ssd0 0 (0 + int i) @ glyph_bytes ssd0 (take 2 (drop (i * 2) [1, 2, 3, 4]))) [0..<2])))"
    by (rule draw_bmp_rows) simp_all
  moreover have "[0..<2] = [0, 1]" by code_simp
  ultimately show ?thesis by simp
qed

end
