(* ===== verification/Ntp.thy ===== *)
theory Ntp
  imports Prelude
begin

text \<open>
  The clock: \<open>NTP_Update\<close> of \<^verbatim>\<open>firmware/libs/utils/src/ntp.c\<close> and \<open>ctime\<close> of \<^verbatim>\<open>firmware/libs/utils/src/time.c\<close>. The
  packet is its 48 bytes; the sockets, the clock and the calendar of the SDK are the environment.
\<close>

section \<open>The packet\<close>

definition NTP_TIMESTAMP_70_YEARS :: int where "NTP_TIMESTAMP_70_YEARS = 2208988800"
definition TIME_2000_1970_S :: int where "TIME_2000_1970_S = 946684800"

text \<open>A 32-bit field in network order, as \<open>ntohl\<close> of the little-endian word reads and writes it.\<close>

definition be32 :: "int \<Rightarrow> byte list" where
  "be32 x = [byte_of (x div 16777216), byte_of (x div 65536), byte_of (x div 256), byte_of x]"

definition read_be32 :: "byte list \<Rightarrow> int" where
  "read_be32 bs = ((uchar (bs ! 0) * 256 + uchar (bs ! 1)) * 256 + uchar (bs ! 2)) * 256 + uchar (bs ! 3)"

text \<open>The fields of the structure, in its order.\<close>

record ntp_packet =
  li_vn_mode :: int
  stratum :: int
  poll :: int
  precision :: int
  rootDelay :: int
  rootDispersion :: int
  refId :: int
  refTm_s :: int
  refTm_f :: int
  origTm_s :: int
  origTm_f :: int
  rxTm_s :: int
  rxTm_f :: int
  txTm_s :: int
  txTm_f :: int

definition packet_bytes :: "ntp_packet \<Rightarrow> byte list" where
  "packet_bytes p =
     map byte_of [li_vn_mode p, stratum p, poll p, precision p]
     @ concat (map be32 [rootDelay p, rootDispersion p, refId p, refTm_s p, refTm_f p, origTm_s p, origTm_f p,
                         rxTm_s p, rxTm_f p, txTm_s p, txTm_f p])"

definition packet_of :: "byte list \<Rightarrow> ntp_packet" where
  "packet_of bs =
     \<lparr>li_vn_mode = uchar (bs ! 0), stratum = uchar (bs ! 1), poll = uchar (bs ! 2), precision = uchar (bs ! 3),
      rootDelay = read_be32 (drop 4 bs), rootDispersion = read_be32 (drop 8 bs), refId = read_be32 (drop 12 bs),
      refTm_s = read_be32 (drop 16 bs), refTm_f = read_be32 (drop 20 bs), origTm_s = read_be32 (drop 24 bs),
      origTm_f = read_be32 (drop 28 bs), rxTm_s = read_be32 (drop 32 bs), rxTm_f = read_be32 (drop 36 bs),
      txTm_s = read_be32 (drop 40 bs), txTm_f = read_be32 (drop 44 bs)\<rparr>"

section \<open>The exchange\<close>

datatype ntp_event =
    Udp_Select_Error
  | Udp_Select_Timeout
  | Udp_Not_Readable
  | Read_Error
  | Read_Bytes "byte list"

text \<open>
  The environment: the results of the socket calls, what each round of \<open>select\<close> and \<open>read\<close> brings, the
  clock before the request and after the answer, and whether the system time can be set.
\<close>

record ntp_env =
  ntp_socket :: int
  ntp_dns :: bool
  ntp_connect :: int
  ntp_write :: int
  ntp_events :: "nat \<Rightarrow> ntp_event"
  ntp_time1 :: int
  ntp_time2 :: int
  ntp_set_time :: bool

datatype ntp_act =
    Udp_Socket int
  | Udp_Connect int
  | Udp_Write int "byte list"
  | Udp_Close int
  | Set_Time int

text \<open>
  The loop of the answer: the packet with the bytes read so far written over it, or the error to return.
  A read is given the room that is left and brings no more.
\<close>

partial_function (option) ntp_loop :: "(nat \<Rightarrow> ntp_event) \<Rightarrow> nat \<Rightarrow> nat \<Rightarrow> byte list \<Rightarrow> (int + byte list) option" where
  "ntp_loop evs i recvLen packet =
     (case evs i of
        Udp_Select_Error \<Rightarrow> Some (Inl (- 4))
      | Udp_Select_Timeout \<Rightarrow> Some (Inl (- 5))
      | Udp_Not_Readable \<Rightarrow> ntp_loop evs (Suc i) recvLen packet
      | Read_Error \<Rightarrow> Some (Inl (- 6))
      | Read_Bytes bs \<Rightarrow>
          (let got = take (48 - recvLen) bs; recvLen' = recvLen + length got;
               packet' = take recvLen packet @ got @ drop recvLen' packet
           in if length got = 0 then Some (Inl (- 7))
              else if recvLen' = 48 then Some (Inr packet')
              else ntp_loop evs (Suc i) recvLen' packet'))"

definition ntp_request :: "int \<Rightarrow> byte list" where
  "ntp_request now =
     packet_bytes
       \<lparr>li_vn_mode = or (or (0 * 64) (4 * 8)) 3, stratum = 0, poll = 0, precision = 0, rootDelay = 0, rootDispersion = 0,
        refId = 0, refTm_s = 0, refTm_f = 0, origTm_s = 0, origTm_f = 0, rxTm_s = 0, rxTm_f = 0,
        txTm_s = u32 (u32 now + NTP_TIMESTAMP_70_YEARS), txTm_f = 0\<rparr>"

text \<open>The new time from the packet and the clock, all in unsigned 32 bits but the offset.\<close>

definition ntp_time :: "ntp_packet \<Rightarrow> int \<Rightarrow> int" where
  "ntp_time p now =
     (let t4 = u32 (now + NTP_TIMESTAMP_70_YEARS);
          delta = s32 (u32 (u32 (rxTm_s p - origTm_s p) + u32 (txTm_s p - t4)) div 2)
      in s32 (u32 (u32 (t4 + delta) - NTP_TIMESTAMP_70_YEARS)))"

text \<open>The value returned, the time stored if it is, and the calls made.\<close>

definition NTP_Update :: "ntp_env \<Rightarrow> bool \<Rightarrow> (int \<times> int option \<times> ntp_act list) option" where
  "NTP_Update env isSetRTC =
     (let fd = ntp_socket env; request = ntp_request (ntp_time1 env)
      in if fd < 0 then Some (- 1, None, [])
         else if \<not> ntp_dns env then Some (- 11, None, [Udp_Socket fd])
         else if ntp_connect env < 0 then Some (- 2, None, [Udp_Socket fd, Udp_Connect fd, Udp_Close fd])
         else if ntp_write env < 0 then Some (- 3, None, [Udp_Socket fd, Udp_Connect fd, Udp_Write fd request, Udp_Close fd])
         else
           (case ntp_loop (ntp_events env) 0 0 request of
              None \<Rightarrow> None
            | Some (Inl e) \<Rightarrow> Some (e, None, [Udp_Socket fd, Udp_Connect fd, Udp_Write fd request, Udp_Close fd])
            | Some (Inr packet) \<Rightarrow>
                (let timeNow = ntp_time (packet_of packet) (ntp_time2 env);
                     acts = [Udp_Socket fd, Udp_Connect fd, Udp_Write fd request, Udp_Close fd]
                 in if isSetRTC then
                      if \<not> ntp_set_time env then Some (- 8, Some timeNow, acts @ [Set_Time (u32 (timeNow - TIME_2000_1970_S))])
                      else Some (0, Some timeNow, acts @ [Set_Time (u32 (timeNow - TIME_2000_1970_S))])
                    else Some (0, Some timeNow, acts))))"

section \<open>The calendar\<close>

record TIME_System_t =
  st_year :: nat
  st_month :: nat
  st_day :: nat
  st_hour :: nat
  st_minute :: nat
  st_second :: nat

text \<open>\<open>calendar\<close> is \<open>TIME_TimeStamp2SystemTime\<close>, on seconds since 2000.\<close>

definition ctime :: "(int \<Rightarrow> TIME_System_t option) \<Rightarrow> int \<Rightarrow> byte list option" where
  "ctime calendar time =
     map_option (\<lambda>t. snprintf 20
         (fmt_0d 4 (st_year t) @ ''-'' @ fmt_0d 2 (st_month t) @ ''-'' @ fmt_0d 2 (st_day t) @ '' ''
          @ fmt_0d 2 (st_hour t) @ '':'' @ fmt_0d 2 (st_minute t) @ '':'' @ fmt_0d 2 (st_second t)))
       (calendar (u32 (u32 time - TIME_2000_1970_S)))"

section \<open>Packets and answers\<close>

lemma be32_length [simp]: "length (be32 x) = 4"
  by (simp add: be32_def)

lemma read_be32_be32 [simp]:
  assumes "0 \<le> x" "x < 4294967296"
  shows "read_be32 (be32 x @ bs) = x"
proof -
  have "u8 (x div 16777216) = x div 16777216" using assms by (intro u8_id) (auto simp: pos_imp_zdiv_nonneg_iff)
  moreover have "u8 (x div 65536) = x div 65536 - 256 * (x div 16777216)"
    by (simp add: u8_def minus_mult_div_eq_mod [symmetric] zdiv_zmult2_eq [symmetric])
  moreover have "u8 (x div 256) = x div 256 - 256 * (x div 65536)"
    by (simp add: u8_def minus_mult_div_eq_mod [symmetric] zdiv_zmult2_eq [symmetric])
  moreover have "u8 x = x - 256 * (x div 256)" by (simp add: u8_def minus_mult_div_eq_mod)
  ultimately show ?thesis by (simp add: be32_def read_be32_def)
qed

lemmas read_be32_alone [simp] = read_be32_be32 [where bs = "[]", unfolded append_Nil2]

definition in_range :: "ntp_packet \<Rightarrow> bool" where
  "in_range p \<longleftrightarrow> list_all (\<lambda>x. 0 \<le> x \<and> x < 256) [li_vn_mode p, stratum p, poll p, precision p]
    \<and> list_all (\<lambda>x. 0 \<le> x \<and> x < 4294967296) [rootDelay p, rootDispersion p, refId p, refTm_s p, refTm_f p, origTm_s p,
        origTm_f p, rxTm_s p, rxTm_f p, txTm_s p, txTm_f p]"

lemma packet_length [simp]: "length (packet_bytes p) = 48"
  by (simp add: packet_bytes_def)

text \<open>The bytes of a packet are read back as its fields.\<close>

lemma packet_round_trip: "in_range p \<Longrightarrow> packet_of (packet_bytes p) = p"
  by (simp add: in_range_def packet_of_def packet_bytes_def u8_id)

lemma ntp_loop_chunks:
  assumes "concat chunks = drop n answer" "length answer = 48" "n < 48" "\<forall>c\<in>set chunks. c \<noteq> []"
    "\<And>k. k < length chunks \<Longrightarrow> evs (i + k) = Read_Bytes (chunks ! k)" "length packet = 48" "take n packet = take n answer"
  shows "ntp_loop evs i n packet = Some (Inr answer)"
  using assms
proof (induction chunks arbitrary: i n packet)
  case Nil
  then show ?case by simp
next
  case (Cons c cs)
  have ev: "evs i = Read_Bytes c" using Cons(6) [of 0] by simp
  have split: "drop n answer = c @ concat cs" using Cons(2) by simp
  then have len: "length c \<le> 48 - n" "c = take (length c) (drop n answer)"
    using Cons(3) by (metis length_append length_drop le_add1, metis append_eq_conv_conj)
  let ?n = "n + length c" and ?p = "take n packet @ c @ drop (n + length c) packet"
  have front: "take ?n ?p = take ?n answer"
    using Cons(3,4,7,8) len by (simp add: take_add)
  have c: "c \<noteq> []" using Cons(5) by simp
  show ?case
  proof (cases "?n = 48")
    case True
    then have "?p = answer" using front Cons(3,7) by simp
    then show ?thesis using ev len(1) c True by (subst ntp_loop.simps) (simp add: Let_def)
  next
    case False
    have "ntp_loop evs (Suc i) ?n ?p = Some (Inr answer)"
    proof (rule Cons.IH)
      show "concat cs = drop ?n answer" using split by (metis append_eq_conv_conj drop_drop add.commute)
      show "?n < 48" using False len(1) Cons(4) by linarith
      show "evs (Suc i + k) = Read_Bytes (cs ! k)" if "k < length cs" for k using Cons(6) [of "Suc k"] that by simp
      show "length ?p = 48" using Cons(4,7) len(1) by simp
      show "take ?n ?p = take ?n answer" by (rule front)
    qed (use Cons(3,5) in simp_all)
    then show ?thesis using ev len(1) c False by (subst ntp_loop.simps) (simp add: Let_def)
  qed
qed

section \<open>The clock after an answer\<close>

text \<open>The two differences in 32 bits add up to the sum of the true ones, in 32 bits.\<close>

lemma ntp_time_offset:
  fixes p :: ntp_packet and now :: int
  defines "t4 \<equiv> u32 (now + NTP_TIMESTAMP_70_YEARS)"
  defines "s \<equiv> (rxTm_s p - origTm_s p) + (txTm_s p - t4)"
  assumes "- (2 ^ 32) \<le> s" "s < 2 ^ 32"
  shows "ntp_time p now = s32 (t4 + s div 2 - NTP_TIMESTAMP_70_YEARS + (if s < 0 then 2 ^ 31 else 0))"
proof -
  have sum: "u32 (u32 (rxTm_s p - origTm_s p) + u32 (txTm_s p - t4)) = u32 s"
    by (simp add: u32_def s_def mod_add_eq)
  have us: "u32 s = (if s < 0 then s + 2 ^ 32 else s)"
  proof (cases "s < 0")
    case True
    have "(s + 2 ^ 32) mod 2 ^ 32 = s mod 2 ^ 32" by (rule mod_add_self2)
    moreover have "(s + 2 ^ 32) mod 2 ^ 32 = s + 2 ^ 32" using True assms(3) by (intro mod_pos_pos_trivial) simp_all
    ultimately show ?thesis using True by (simp add: u32_def)
  qed (use assms(4) in \<open>simp add: u32_id\<close>)
  have half: "u32 s div 2 = s div 2 + (if s < 0 then 2 ^ 31 else 0)"
  proof -
    have "(s + 4294967296) div 2 = s div 2 + 2147483648" by presburger
    then show ?thesis by (simp add: us)
  qed
  have s32_mod: "s32 x = s32 y" if "x mod 2 ^ 32 = y mod 2 ^ 32" for x y
    using that unfolding s32_def by (metis mod_add_left_eq)
  have s32_self: "s32 x mod 2 ^ 32 = x mod 2 ^ 32" for x
  proof -
    have "s32 x mod 2 ^ 32 = ((x + 2 ^ 31) mod 2 ^ 32 - 2 ^ 31) mod 2 ^ 32" by (simp add: s32_def)
    also have "\<dots> = (x + 2 ^ 31 - 2 ^ 31) mod 2 ^ 32" by (rule mod_diff_left_eq)
    finally show ?thesis by simp
  qed
  have "ntp_time p now = s32 (u32 (u32 (t4 + s32 (u32 s div 2)) - NTP_TIMESTAMP_70_YEARS))"
    by (simp add: ntp_time_def Let_def sum flip: t4_def)
  also have "\<dots> = s32 (t4 + s32 (u32 s div 2) - NTP_TIMESTAMP_70_YEARS)"
    by (rule s32_mod) (simp add: u32_def mod_diff_left_eq)
  also have "\<dots> = s32 (t4 + u32 s div 2 - NTP_TIMESTAMP_70_YEARS)"
  proof (rule s32_mod)
    have m: "(t4 + x - NTP_TIMESTAMP_70_YEARS) mod 2 ^ 32 = (t4 - NTP_TIMESTAMP_70_YEARS + x mod 2 ^ 32) mod 2 ^ 32" for x
    proof -
      have "(t4 - NTP_TIMESTAMP_70_YEARS + x mod 2 ^ 32) mod 2 ^ 32 = (t4 - NTP_TIMESTAMP_70_YEARS + x) mod 2 ^ 32"
        by (rule mod_add_right_eq)
      moreover have "t4 - NTP_TIMESTAMP_70_YEARS + x = t4 + x - NTP_TIMESTAMP_70_YEARS" by simp
      ultimately show ?thesis by simp
    qed
    show "(t4 + s32 (u32 s div 2) - NTP_TIMESTAMP_70_YEARS) mod 2 ^ 32
        = (t4 + u32 s div 2 - NTP_TIMESTAMP_70_YEARS) mod 2 ^ 32"
      unfolding m s32_self ..
  qed
  finally show ?thesis by (simp add: half algebra_simps)
qed


text \<open>An environment whose server sends the packet in two pieces; the server's clock shows \<open>2021-01-01\<close>.\<close>

definition ntp_answer :: "int \<Rightarrow> ntp_packet" where
  "ntp_answer orig =
     \<lparr>li_vn_mode = 36, stratum = 2, poll = 3, precision = 0, rootDelay = 0, rootDispersion = 0, refId = 0, refTm_s = 0, refTm_f = 0,
      origTm_s = orig, origTm_f = 0, rxTm_s = 3818448000, rxTm_f = 0, txTm_s = 3818448000, txTm_f = 0\<rparr>"

definition ntp_test_env :: "int \<Rightarrow> ntp_env" where
  "ntp_test_env now =
     \<lparr>ntp_socket = 1, ntp_dns = True, ntp_connect = 0, ntp_write = 48,
      ntp_events = (\<lambda>k. if k = 0 then Read_Bytes (take 20 (packet_bytes (ntp_answer (now + NTP_TIMESTAMP_70_YEARS))))
                        else Read_Bytes (drop 20 (packet_bytes (ntp_answer (now + NTP_TIMESTAMP_70_YEARS))))),
      ntp_time1 = now, ntp_time2 = now, ntp_set_time = True\<rparr>"


text \<open>Whatever happens in the exchange, the call has closed its socket when it returns, except when the name
  of the server cannot be resolved: then, and only then, the socket stays open.\<close>

theorem ntp_leaks_socket_iff:
  assumes "NTP_Update env b = Some (ret, tm, acts)" "0 \<le> ntp_socket env"
  shows "Udp_Socket (ntp_socket env) \<in> set acts \<and> (Udp_Close (ntp_socket env) \<notin> set acts \<longleftrightarrow> \<not> ntp_dns env)
    \<and> (\<not> ntp_dns env \<longleftrightarrow> ret = - 11)"
proof -
  have e: "e \<noteq> - 11" if "ntp_loop evs i n p = Some (Inl e)" for evs i n p e
  proof -
    have "\<forall>e'. Inl e = (Inl e' :: int + byte list) \<longrightarrow> e' \<noteq> - 11"
    proof (rule ntp_loop.raw_induct [OF _ that, where P = "\<lambda>evs i n p r. \<forall>e'. r = Inl e' \<longrightarrow> e' \<noteq> - 11"], intro allI impI)
      fix loop :: "(nat \<Rightarrow> ntp_event) \<Rightarrow> nat \<Rightarrow> nat \<Rightarrow> byte list \<Rightarrow> (int + byte list) option" and evs i recvLen packet y e'
      assume IH: "\<And>evs i n p y. loop evs i n p = Some y \<Longrightarrow> \<forall>e'. y = Inl e' \<longrightarrow> e' \<noteq> - 11"
        and step: "(case evs i of
        Udp_Select_Error \<Rightarrow> Some (Inl (- 4))
      | Udp_Select_Timeout \<Rightarrow> Some (Inl (- 5))
      | Udp_Not_Readable \<Rightarrow> loop evs (Suc i) recvLen packet
      | Read_Error \<Rightarrow> Some (Inl (- 6))
      | Read_Bytes bs \<Rightarrow>
          (let got = take (48 - recvLen) bs; recvLen' = recvLen + length got;
               packet' = take recvLen packet @ got @ drop recvLen' packet
           in if length got = 0 then Some (Inl (- 7))
              else if recvLen' = 48 then Some (Inr packet')
              else loop evs (Suc i) recvLen' packet')) = Some y" and y: "y = Inl e'"
      show "e' \<noteq> - 11" using step y IH by (auto simp: Let_def split: ntp_event.splits if_splits)
    qed
    then show ?thesis by simp
  qed
  show ?thesis using assms
    by (auto simp: NTP_Update_def Let_def split: if_splits option.splits sum.splits dest: e)
qed

theorem ntp_leaks_socket_iff_witness:
  "\<exists>tm acts. NTP_Update (ntp_test_env 0\<lparr>ntp_dns := False\<rparr>) True = Some (- 11, tm, acts) \<and> Udp_Close 1 \<notin> set acts"
proof -
  have "NTP_Update (ntp_test_env 0\<lparr>ntp_dns := False\<rparr>) True = Some (- 11, None, [Udp_Socket 1])"
    by (simp add: NTP_Update_def ntp_test_env_def Let_def)
  with ntp_leaks_socket_iff [OF this] show ?thesis by (simp add: ntp_test_env_def)
qed

text \<open>The first byte of the request: no leap indicator, version 4, client.\<close>

lemma ntp_request_head: "ntp_request now ! 0 = byte_of 35"
  by (simp add: ntp_request_def packet_bytes_def)

end
