(* ===== verification/Spec2Isabelle.thy ===== *)
theory Spec2Isabelle
  imports Agps_Run Math_C Tracker_Run Options Ili9341 Ssd1306 Ntp
begin

text \<open>
  The firmware of a GPS tracker on the A9G module (\<^verbatim>\<open>src/firmware\<close>), modelled in HOL and verified. The tracker's
  own code is the application \<^verbatim>\<open>app/src/app.c\<close>, the GPS library \<^verbatim>\<open>libs/gps\<close>, the utility library
  \<^verbatim>\<open>libs/utils\<close> and the display drivers \<^verbatim>\<open>libs/lcd\<close>; all of it is modelled but the logarithms of
  \<^verbatim>\<open>libs/utils/src/log2.c\<close> and \<^verbatim>\<open>log2f.c\<close> and the functions of \<^verbatim>\<open>math.c\<close> that only call another one.

  \<^bold>\<open>How the parts work together.\<close> Bytes from the GPS module arrive at the event task (\<open>event_turn\<close>, \<open>EventDispatch\<close>),
  which hands them to the driver's \<open>GPS_Update\<close>. The driver keeps them in a ring; while no command is under way it takes
  out every frame (up to the line that ends the last sentence of a burst) and gives it to \<open>GPS_Parse\<close>, which cuts it into
  sentences and stores each in the GPS information with the parsers of minmea; while a command waits for its
  acknowledgement, the bytes are searched for the acknowledgement instead. The position task (\<open>task_step\<close>) opens the
  module, sends the start-up commands and then, in its loop, reads the GPS information, converts the coordinates,
  tests whether they are plausible and posts them to a server over HTTP. A timer blinks a LED with the network status
  (\<open>LED_Blink\<close>). The functions of the model bear the names of the C functions; a record field bears the name of
  the structure's field or of the global variable.

  \<^bold>\<open>The theories.\<close>
  \<^item> \<^verbatim>\<open>Prelude\<close>: machine integers as \<open>int\<close> with their wrap-around (\<open>u8\<close> to \<open>s32\<close>), faults (\<open>fault\<close>, \<open>result\<close>: an
    undefined operation of C is a value, never an arbitrary result), bytes, C strings, \<open>strstr\<close> (\<open>find_sub\<close>) and \<open>printf\<close>.
  \<^item> \<^verbatim>\<open>Ring_Buffer\<close> (\<^verbatim>\<open>buffer.c\<close>): the byte ring. The locales \<open>byte_fifo\<close> and \<open>byte_search\<close> state what its client relies
    on; their interpretation \<open>ring\<close> proves the laws for the model, and the driver's lemmas rest on it.
  \<^item> \<^verbatim>\<open>Stdlib_C\<close> (\<^verbatim>\<open>stdlib.c\<close>, \<^verbatim>\<open>assert.c\<close>): \<open>strtol\<close> with its clamping, the allocators, the assertion.
  \<^item> \<^verbatim>\<open>Minmea_Scan\<close>, \<^verbatim>\<open>Minmea_Fields\<close>, \<^verbatim>\<open>Minmea_Parse\<close> (\<^verbatim>\<open>minmea.c\<close>, \<^verbatim>\<open>minmea.h\<close>): the check of a sentence against a
    declarative format; the one-pass scanner and its refinement of reading the fields one after the other; decimals;
    the eight sentence parsers, what they read back and when they succeed; the conversions.
  \<^item> \<^verbatim>\<open>Gps_Parse\<close> (\<^verbatim>\<open>gps_parse.c\<close>): one sentence, one frame, the slots for repeated sentences, the invariant of the state.
  \<^item> \<^verbatim>\<open>Gps_Ack\<close>, \<^verbatim>\<open>Gps_Driver\<close>, \<^verbatim>\<open>Gps_Command\<close>, \<^verbatim>\<open>Agps\<close>, \<^verbatim>\<open>Agps_Run\<close> (\<^verbatim>\<open>gps.c\<close>): parities and acknowledgements; the receive path
    as a refinement of the function \<open>drain\<close> on the whole byte stream, and the exchange of a command under every order of
    bytes, timer and scheduler (\<open>gps_event\<close>); the commands; the download of the assistance file and its transfer, when
    the module falls silent and when it answers everything.
  \<^item> \<^verbatim>\<open>Http_Client\<close> (\<^verbatim>\<open>Http_Post\<close> of \<^verbatim>\<open>app.c\<close>, \<^verbatim>\<open>Http_Get\<close> of \<^verbatim>\<open>gps.c\<close>): both clients against any behaviour of the network.
  \<^item> \<^verbatim>\<open>Double\<close>: the arithmetic of \<open>double\<close>, exact operations followed by rounding, with error bounds.
  \<^item> \<^verbatim>\<open>Math_C\<close> (\<^verbatim>\<open>math.c\<close>): classification, sign, truncation and rounding on the bits of \<open>double\<close> and \<open>float\<close>. The locale
    \<open>fp_format\<close> holds the facts about fields and values, interpreted for the two formats.
  \<^item> \<^verbatim>\<open>Tracker\<close>, \<^verbatim>\<open>Tracker_Run\<close>, \<^verbatim>\<open>Tracker_Start\<close> (\<^verbatim>\<open>app.c\<close>): the application as a transition system (\<open>turn\<close>, \<open>reachable\<close>).
    The locale \<open>kept\<close> is the induction over its runs, interpreted for the well-formedness of the state (\<open>ok\<close>), the watchdog
    (\<open>watched\<close>) and the positions that are never sent (\<open>silent\<close>); the locale \<open>driver_command\<close> is what a command of the
    driver keeps. One turn of the loop and its numbers; the start-up.
  \<^item> \<^verbatim>\<open>Options\<close> (\<^verbatim>\<open>app.c\<close>): the parts that the switches of \<^verbatim>\<open>app.c\<close> leave out (calls, text messages, vibration sensor,
    low power mode), with the switches as an argument; with all of them off it is the tracker of \<open>Tracker\<close>.
  \<^item> \<^verbatim>\<open>Device\<close> (\<^verbatim>\<open>app.c\<close>, \<^verbatim>\<open>api_debug.c\<close>): the motion sensor, the start of the tasks, the memory dump.
  \<^item> \<^verbatim>\<open>Ntp\<close> (\<^verbatim>\<open>ntp.c\<close>, \<^verbatim>\<open>time.c\<close>): the clock over the network, for every chunking of the answer.
  \<^item> \<^verbatim>\<open>Ili9341\<close> and \<^verbatim>\<open>Ssd1306\<close> (\<^verbatim>\<open>libs/lcd\<close>, \<^verbatim>\<open>hal_gpio.c\<close>): the display drivers. The locale \<open>drawing_op\<close> is the contract of the
    operations that share the lock of the screen.
  \<^item> This theory: the properties that run through several components, from the bytes on the UART to the request that is posted.

  \<^bold>\<open>Loops.\<close> A loop that may not end is a \<open>partial_function\<close>, whose value is \<open>None\<close> when it does not; whether it
  ends is a theorem (for instance \<open>receive_returns_iff\<close>, \<open>post_returns_iff\<close>). All other recursions are total. There
  is no fuel.

  \<^bold>\<open>The environment.\<close> What is not under \<^verbatim>\<open>src/firmware\<close> in source form is an argument: the results of the SDK's calls
  (allocation, files, sockets, clock, calendar, battery, IMEI), the bytes that arrive and the order in which timer and
  scheduler act. Calls that act on the device are recorded in the state. The conversion of a text message, the
  texts of \<open>gcvt\<close> and of a
  structure printed with \<open>%f\<close> are arguments as well. \<open>char\<close> is signed and \<open>int\<close>, \<open>long\<close> and \<open>time_t\<close> have 32 bits.

  \<^bold>\<open>Atomicity.\<close> Tasks are switched between two steps of \<open>task_step\<close>, that is where the code sleeps, and while a
  command waits for its acknowledgement, when bytes and the timer of the command arrive; one step and one event are
  not interrupted. The display drivers are interrupted by the end of a transfer where they sleep.

  \<^bold>\<open>Not modelled.\<close> The libraries that the repository vendors and the tracker does not use (LVGL, cJSON, the Aliyun kit,
  Gizwits), the demos of the SDK, the headers and binaries of the SDK, traces, the two constants of \<^verbatim>\<open>app.c\<close>
  that another configuration would take (the Airtel context, the fix requirement), the logarithms (vendored polynomials, not called) and
  the code that the linker section of \<^verbatim>\<open>init/src/sdk_init.c\<close> starts with.
\<close>

section \<open>From the UART to the position\<close>

text \<open>A frame, on its way through the ring and the parser, with any one RMC sentence as the last of its
  kind.\<close>

lemma frame_parsed:
  fixes pre post :: "byte list list" and rmc :: "byte list"
  defines "data \<equiv> concat (map (\<lambda>s. s @ CRLF) (pre @ rmc # post))"
  assumes st: "wf_gps st" "semCmdSending st = None" "rx st = []" "length data < maxSize (gpsNmeaBuffer st)"
    and frame: "list_all clean_line (pre @ rmc # post)" "NUL \<notin> set data"
      "message_end ''VTG'' data = Some (length data)" "length data \<le> GPS_NMEA_FRAME_BUFFER_LENGTH"
    and last: "\<forall>l\<in>set post. minmea_sentence_id (l @ CRLF) False \<noteq> MINMEA_SENTENCE_RMC"
    and id: "minmea_sentence_id (rmc @ CRLF) False = MINMEA_SENTENCE_RMC"
    and parsed: "\<And>r. minmea_parse_rmc r (rmc @ CRLF) = (True, info)"
  shows "\<exists>st'. GPS_Update env data st = Some (Inr st') \<and> rx st' = []
    \<and> gps_parser st' = parse_frames [data] (gps_parser st) \<and> g_rmc (Gps_GetInfo (gps_parser st')) = info"
proof -
  obtain st' where st': "GPS_Update env data st = Some (Inr st')" "rx st' = []"
    "gps_parser st' = parse_frames [data] (gps_parser st)"
    using GPS_Update_frames [OF st(1,2), of data "[data]" "[]" env] st(3,4) drain_one_frame [OF frame(3,4)] by auto
  have lines: "lines_of (cstr data) = map (\<lambda>s. s @ CRLF) pre @ (rmc @ CRLF) # map (\<lambda>s. s @ CRLF) post"
    using lines_of_clean [OF frame(1), of "[]"] cstr_id [OF frame(2)] by (simp add: data_def)
  let ?p = "gps_parser st"
  have "\<exists>r. g_rmc (g_gps_info (snd (parse_lines (lines_of (cstr data)) False (parse_flag ?p) ?p)))
      = snd (minmea_parse_rmc r (rmc @ CRLF))"
    unfolding lines by (rule parse_lines_last_rmc [OF id]) (use last in auto)
  then have "g_rmc (Gps_GetInfo (gps_parser st')) = info"
    using st'(3) parsed by (auto simp: parse_frames_def GPS_Parse_lines Gps_GetInfo_def prod.case_eq_if)
  with st' show ?thesis by blast
qed

text \<open>C1: a frame of NMEA sentences that arrives on the UART is parsed as one frame; afterwards
  \<open>Gps_GetInfo\<close> shows the time, status, position, speed, course and date of its RMC sentence, whatever
  the other sentences are, and the receive buffer is empty again.\<close>

theorem uart_frame_position:
  fixes pre post :: "byte list list" and rmc :: "byte list"
  defines "data \<equiv> concat (map (\<lambda>s. s @ CRLF) (pre @ rmc # post))"
  assumes st: "wf_gps st" "semCmdSending st = None" "rx st = []" "length data < maxSize (gpsNmeaBuffer st)"
    and frame: "list_all clean_line (pre @ rmc # post)" "NUL \<notin> set data"
      "message_end ''VTG'' data = Some (length data)" "length data \<le> GPS_NMEA_FRAME_BUFFER_LENGTH"
    and last: "\<forall>l\<in>set post. minmea_sentence_id (l @ CRLF) False \<noteq> MINMEA_SENTENCE_RMC"
    and rmc: "rmc = join_fields ([CHR ''$'' # tk @ ''RMC'', t, [status], li @ CHR ''.'' # lf, [ns],
         oi @ CHR ''.'' # og, [ew], sp, co, dt, [], []] @ extra) @ tail"
      "minmea_check (rmc @ CRLF) False" "end_fields (tail @ CRLF)"
    and fields: "length tk = 2" "is_field tk" "is_field t" "scan_time (Some t) = Stored (VTime tm)"
      "minmea_isfield status" "decimal li lf" "length lf \<le> 9" "ns \<in> {CHR ''N'', CHR ''S''}"
      "decimal oi og" "length og \<le> 9" "ew \<in> {CHR ''E'', CHR ''W''}"
      "is_field sp" "scan_float (Some sp) = Stored (VFloat sp')"
      "is_field co" "scan_float (Some co) = Stored (VFloat co')"
      "is_field dt" "scan_date (Some dt) = Stored (VDate dt')" "list_all is_field extra"
  shows "\<exists>st'. GPS_Update env data st = Some (Inr st') \<and> rx st' = []
    \<and> g_rmc (Gps_GetInfo (gps_parser st')) =
        \<lparr>rmc_time = tm, rmc_valid = (status = CHR ''A''),
         rmc_latitude = \<lparr>mf_value = hemi ns * dec_val (li @ lf), mf_scale = 10 ^ length lf\<rparr>,
         rmc_longitude = \<lparr>mf_value = hemi ew * dec_val (oi @ og), mf_scale = 10 ^ length og\<rparr>,
         rmc_speed = sp', rmc_course = co', rmc_date = dt',
         rmc_variation = \<lparr>mf_value = 0, mf_scale = 0\<rparr>\<rparr>"
proof -
  let ?info = "\<lparr>rmc_time = tm, rmc_valid = (status = CHR ''A''),
         rmc_latitude = \<lparr>mf_value = hemi ns * dec_val (li @ lf), mf_scale = 10 ^ length lf\<rparr>,
         rmc_longitude = \<lparr>mf_value = hemi ew * dec_val (oi @ og), mf_scale = 10 ^ length og\<rparr>,
         rmc_speed = sp', rmc_course = co', rmc_date = dt',
         rmc_variation = \<lparr>mf_value = 0, mf_scale = 0\<rparr>\<rparr>"
  have parsed: "minmea_parse_rmc r (rmc @ CRLF) = (True, ?info)" for r
    using parse_rmc_fields [of tk t tm status li lf ns oi og ew sp sp' co co' dt dt' extra "tail @ CRLF" r] fields rmc(1,3)
    by simp
  have id: "minmea_sentence_id (rmc @ CRLF) False = MINMEA_SENTENCE_RMC"
    using parse_selects_id(1) [OF rmc(2), of undefined] parsed by simp
  from frame_parsed [OF st [unfolded data_def] frame [unfolded data_def] last id parsed, of env]
  show ?thesis unfolding data_def by blast
qed

theorem uart_frame_position_witness:
  "\<exists>st'. GPS_Update gps_env0 (concat (map (\<lambda>s. s @ CRLF)
      [''$GPGSV,1,1,01,19,46,346,13'', ''$GNRMC,084257.000,A,2234.7758,N,11354.9654,E,0.032,306.43,140618,,,D*46'',
       ''$GNVTG,306.43,T,,M,0.032,N,0.059,K,D*29''])) gps_ready = Some (Inr st')
    \<and> rmc_latitude (g_rmc (Gps_GetInfo (gps_parser st'))) = \<lparr>mf_value = 22347758, mf_scale = 10000\<rparr>
    \<and> rmc_valid (g_rmc (Gps_GetInfo (gps_parser st')))"
proof -
  let ?pre = "[''$GPGSV,1,1,01,19,46,346,13'']"
  let ?rmc = "''$GNRMC,084257.000,A,2234.7758,N,11354.9654,E,0.032,306.43,140618,,,D*46''"
  let ?post = "[''$GNVTG,306.43,T,,M,0.032,N,0.059,K,D*29'']"
  have f: "list_all clean_line (?pre @ ?rmc # ?post)" "NUL \<notin> set (concat (map (\<lambda>s. s @ CRLF) (?pre @ ?rmc # ?post)))"
    "message_end ''VTG'' (concat (map (\<lambda>s. s @ CRLF) (?pre @ ?rmc # ?post)))
      = Some (length (concat (map (\<lambda>s. s @ CRLF) (?pre @ ?rmc # ?post))))"
    "\<forall>l\<in>set ?post. minmea_sentence_id (l @ CRLF) False \<noteq> MINMEA_SENTENCE_RMC"
    "minmea_check (?rmc @ CRLF) False" "end_fields (''*46'' @ CRLF)" by code_simp+
  have d: "decimal ''2234'' ''7758''" "decimal ''11354'' ''9654''" "is_field ''GN''" "is_field ''084257.000''"
    "is_field ''0.032''" "is_field ''306.43''" "is_field ''140618''" "list_all is_field [''D'']" "minmea_isfield CHR ''A''"
    by code_simp+
  have s: "scan_time (Some ''084257.000'') = Stored (VTime \<lparr>hours = 8, minutes = 42, seconds = 57, microseconds = 0\<rparr>)"
    "scan_float (Some ''0.032'') = Stored (VFloat \<lparr>mf_value = 32, mf_scale = 1000\<rparr>)"
    "scan_float (Some ''306.43'') = Stored (VFloat \<lparr>mf_value = 30643, mf_scale = 100\<rparr>)"
    "scan_date (Some ''140618'') = Stored (VDate \<lparr>day = 14, month = 6, year = 18\<rparr>)" by code_simp+
  have r: "?rmc = join_fields ([CHR ''$'' # ''GN'' @ ''RMC'', ''084257.000'', [CHR ''A''], ''2234'' @ CHR ''.'' # ''7758'',
      [CHR ''N''], ''11354'' @ CHR ''.'' # ''9654'', [CHR ''E''], ''0.032'', ''306.43'', ''140618'', [], []] @ [''D'']) @ ''*46''"
    by simp
  show ?thesis
    using uart_frame_position [OF _ _ _ _ f(1,2,3) _ f(4) r f(5,6) _ d(3,4) s(1) d(9,1) _ _ d(2) _ _ d(5) s(2) d(6) s(3) d(7) s(4) d(8),
      of gps_ready gps_env0]
    by (auto simp: GPS_NMEA_FRAME_BUFFER_LENGTH_def hemi_def uchar_def)
qed

section \<open>From the UART to the server\<close>

text \<open>The event task takes in a frame while the position task is in its loop.\<close>

lemma frame_event:
  assumes "GPS_Update (te_gps env) data (driver t) = Some (Inr g)" "maxSize (gpsNmeaBuffer (driver t)) \<noteq> 0" "\<not> restart_flag t"
  shows "\<exists>l. event_turn env (Gps_Uart_Received data) t = Some (Inr (t\<lparr>driver := g, led_status := l\<rparr>))"
proof -
  have "EventDispatch env (Gps_Uart_Received data) t = Some (Inr (t\<lparr>driver := g\<rparr>))"
    using assms(1,2) by (simp add: EventDispatch_def receive_gps_def rbind_def)
  then have e: "event_turn env (Gps_Uart_Received data) t
      = Some (Inr (if isGpsOn t \<and> networkFlag t then t\<lparr>driver := g, led_status := LED_SYS_ON\<rparr> else t\<lparr>driver := g\<rparr>))"
    using assms(3) by (simp add: event_turn_def rbind_def Let_def)
  show ?thesis
  proof (cases "isGpsOn t \<and> networkFlag t")
    case True
    then show ?thesis using e by auto
  next
    case False
    have "t\<lparr>driver := g\<rparr> = t\<lparr>driver := g, led_status := led_status t\<rparr>" by simp
    then show ?thesis using e False by (metis (full_types))
  qed
qed

text \<open>A plausible position is posted, when the server answers with one short packet.\<close>

lemma plausible_position_posted:
  fixes t :: tracker and env :: tracker_env
  defines "info \<equiv> Gps_GetInfo (gps_parser (driver t))"
  assumes "degrees (rmc_latitude (g_rmc info)) = Inr lat" "degrees (rmc_longitude (g_rmc info)) = Inr lon"
    and fix_ok: "fix_state info = (isFixed, Some msg, flag)"
    and prev: "0 < prev_lat t" "0 < prev_long t" "near lat (prev_lat t)" "near lon (prev_long t)"
    and env: "te_imei env = Some imei" "te_active env = Some status" "status \<noteq> 0"
    and net: "net_dns (te_net env)" "net_malloc (te_net env)" "net_socket (te_net env) = fd" "0 \<le> fd"
      "0 \<le> net_connect (te_net env)" "0 \<le> net_send (te_net env)" "0 \<le> net_send_body (te_net env)"
      "net_events (te_net env) 0 = Received answer" "answer \<noteq> []" "length answer < 1352"
  shows "\<exists>t'. track_position env t = Some (Inr t') \<and> prev_lat t' = lat \<and> prev_long t' = lon
    \<and> (\<exists>net. Http net \<in> set (acts t') \<and>
         Send fd (post_request (request_path imei (te_time env) lat lon isFixed
           (te_alt env (gga_altitude (g_gga info))) (te_percent env)) SERVER_IP 0) \<in> set net)"
proof -
  let ?path = "request_path imei (te_time env) lat lon isFixed (te_alt env (gga_altitude (g_gga info))) (te_percent env)"
  obtain ret buf where post: "Http_Post (te_net env) SERVER_IP 5055 ?path [] (padded_buffer 1024 imei) = Some (ret, buf,
      [Malloc, Socket fd, Connect fd 5055, Send fd (post_request ?path SERVER_IP 0), Send fd [], Close fd, Free])"
    using net by (simp add: Http_Post_def Let_def post_loop.simps)
  have c: "\<not> falseGPS (check_position lat lon (do_acts as (t\<lparr>is_Fixed_flag := flag\<rparr>)))" for as
    using prev by (simp add: check_position_def)
  show ?thesis
    using assms(2,3) fix_ok env c post
    by (simp add: track_position_def info_def [symmetric] Let_def rbind_def upload_def) auto
qed


text \<open>C5: when the fix is lost, a frame whose RMC sentence has an empty latitude is received and parsed like any
  other, and the next turn of the loop divides by its scale of zero.\<close>

theorem lost_position_faults:
  fixes pre post :: "byte list list" and rmc :: "byte list" and t :: tracker
  defines "data \<equiv> concat (map (\<lambda>s. s @ CRLF) (pre @ rmc # post))"
  assumes t: "task_at t = Tracking" "isGpsOn t" "\<not> restart_flag t" "gps_ok (driver t)" "semCmdSending (driver t) = None"
      "rx (driver t) = []"
    and frame: "list_all clean_line (pre @ rmc # post)" "NUL \<notin> set data"
      "message_end ''VTG'' data = Some (length data)" "length data \<le> GPS_NMEA_FRAME_BUFFER_LENGTH"
    and last: "\<forall>l\<in>set post. minmea_sentence_id (l @ CRLF) False \<noteq> MINMEA_SENTENCE_RMC"
    and rmc: "minmea_sentence_id (rmc @ CRLF) False = MINMEA_SENTENCE_RMC"
      "\<And>r. minmea_parse_rmc r (rmc @ CRLF) = (True, i)"
    and empty: "mf_scale (rmc_latitude i) = 0"
  shows "\<exists>t1. event_turn env (Gps_Uart_Received data) t = Some (Inr t1)
    \<and> task_step env evs t1 = Some (Inl Division_By_Zero)"
proof -
  have m: "maxSize (gpsNmeaBuffer (driver t)) = 2048" "wf_gps (driver t)"
    using t(4) by (simp_all add: gps_ok_def GPS_DATA_BUFFER_MAX_LENGTH_def)
  have short: "length data < maxSize (gpsNmeaBuffer (driver t))"
    using frame(4) m(1) by (simp add: GPS_NMEA_FRAME_BUFFER_LENGTH_def)
  obtain g where g: "GPS_Update (te_gps env) data (driver t) = Some (Inr g)" "g_rmc (Gps_GetInfo (gps_parser g)) = i"
    using frame_parsed [OF m(2) t(5,6) short [unfolded data_def] frame [unfolded data_def] last rmc, of "te_gps env"]
    unfolding data_def by blast
  obtain l where l: "event_turn env (Gps_Uart_Received data) t = Some (Inr (t\<lparr>driver := g, led_status := l\<rparr>))"
    using frame_event [OF g(1) _ t(3)] m(1) by auto
  have "task_step env evs (t\<lparr>driver := g, led_status := l\<rparr>) = Some (Inl Division_By_Zero)"
    by (rule empty_latitude_faults) (use t g(2) empty in simp_all)
  with l show ?thesis by blast
qed

theorem lost_position_faults_witness:
  "\<exists>t1. event_turn south_env (Gps_Uart_Received
        (''$GNRMC,084257.000,V,,,,,,,140618,,,N*55'' @ CRLF @ ''$GNVTG,306.43,T,,M,0.032,N,0.059,K,D*29'' @ CRLF))
      (tracker0\<lparr>task_at := Tracking, driver := gps_ready\<rparr>) = Some (Inr t1)
    \<and> task_step south_env [] t1 = Some (Inl Division_By_Zero)"
proof -
  let ?rmc = "''$GNRMC,084257.000,V,,,,,,,140618,,,N*55''"
  let ?post = "[''$GNVTG,306.43,T,,M,0.032,N,0.059,K,D*29'']"
  let ?data = "concat (map (\<lambda>s. s @ CRLF) ([] @ ?rmc # ?post))"
  have f: "list_all clean_line ([] @ ?rmc # ?post)" "NUL \<notin> set ?data" "message_end ''VTG'' ?data = Some (length ?data)"
    "\<forall>l\<in>set ?post. minmea_sentence_id (l @ CRLF) False \<noteq> MINMEA_SENTENCE_RMC"
    "minmea_sentence_id (?rmc @ CRLF) False = MINMEA_SENTENCE_RMC" by code_simp+
  define i where "i = \<lparr>rmc_time = \<lparr>hours = 8, minutes = 42, seconds = 57, microseconds = 0\<rparr>, rmc_valid = False,
     rmc_latitude = \<lparr>mf_value = 0, mf_scale = 0\<rparr>, rmc_longitude = \<lparr>mf_value = 0, mf_scale = 0\<rparr>,
     rmc_speed = \<lparr>mf_value = 0, mf_scale = 0\<rparr>, rmc_course = \<lparr>mf_value = 0, mf_scale = 0\<rparr>,
     rmc_date = \<lparr>day = 14, month = 6, year = 18\<rparr>, rmc_variation = \<lparr>mf_value = 0, mf_scale = 0\<rparr>\<rparr>"
  have p: "minmea_parse_rmc r (?rmc @ CRLF) = (True, i)" for r
    by (cases r) (simp add: i_def, code_simp)
  have d: "gps_ok gps_ready" using gps_ready_spec by (simp add: gps_ok_def GPS_DATA_BUFFER_MAX_LENGTH_def parse_state0_ok)
  show ?thesis
    using lost_position_faults [OF _ _ _ _ _ _ f(1,2,3) _ f(4,5) p, of "tracker0\<lparr>task_at := Tracking, driver := gps_ready\<rparr>" south_env "[]"] d
    by (simp add: tracker0_def i_def GPS_NMEA_FRAME_BUFFER_LENGTH_def)
qed


end
